(* ===== verification/Prelude.thy ===== *)
theory Prelude
  imports Main "HOL-Library.Word"
begin

text \<open>
  What every component of the development shares: the fixed-width integer types of the
  C++ sources, the sum type that stands for an exception or an early error return,
  little-endian access to byte lists (the \<open>std::memcpy\<close> of a \<open>uint16_t\<close> or
  \<open>uint32_t\<close> on a little-endian host, and the shift-and-or readers the loader, the
  relocator and the trace format write out by hand), \<open>std::size_t\<close> subtraction with
  its wrap-around, and the named collections the component proofs draw on.
\<close>

unbundle bit_operations_syntax

section \<open>Integer types and collections\<close>

type_synonym u8 = "8 word"
type_synonym u16 = "16 word"
type_synonym u32 = "32 word"
type_synonym u64 = "64 word"

text \<open>
  \<open>'a result\<close> is the value of a function that may throw \<open>std::runtime_error\<close>: the
  message on the left, the returned value on the right.
\<close>

type_synonym 'a result = "string + 'a"

named_theorems byte_simps \<open>little-endian reads and writes on byte lists\<close>
named_theorems frame_simps \<open>what an operation leaves unchanged\<close>

definition bind_result :: "'e + 'a \<Rightarrow> ('a \<Rightarrow> 'e + 'b) \<Rightarrow> 'e + 'b" where
  "bind_result m f = (case m of Inl e \<Rightarrow> Inl e | Inr x \<Rightarrow> f x)"

lemma bind_result_simps [simp]:
  "bind_result (Inl e) f = Inl e"
  "bind_result (Inr x) f = f x"
  by (simp_all add: bind_result_def)

lemma bind_result_Inr:
  "bind_result m f = Inr y \<longleftrightarrow> (\<exists>x. m = Inr x \<and> f x = Inr y)"
  by (cases m) simp_all

lemma bind_result_Inl:
  "bind_result m f = Inl e \<longleftrightarrow> m = Inl e \<or> (\<exists>x. m = Inr x \<and> f x = Inl e)"
  by (cases m) simp_all

section \<open>Sizes\<close>

text \<open>
  \<open>std::size_t\<close> is a 64-bit unsigned integer on the hosts the project targets. Sizes are
  natural numbers here; the one place where the sources subtract without a guard writes
  the wrap-around out.
\<close>

definition size_sub :: "nat \<Rightarrow> nat \<Rightarrow> nat" where
  "size_sub a b = (a + 2 ^ 64 - b) mod 2 ^ 64"

lemma size_sub_le: "b \<le> a \<Longrightarrow> a < 2 ^ 64 \<Longrightarrow> size_sub a b = a - b"
proof -
  assume le: "b \<le> a" and lt: "a < 2 ^ 64"
  have "a + m - b = (a - b) + m" for m using le by simp
  moreover from lt have "a - b < 2 ^ 64" by (rule less_imp_diff_less)
  ultimately show ?thesis by (simp only: size_sub_def mod_add_self2 mod_less)
qed

section \<open>Bytes of words\<close>

definition le16 :: "u8 \<Rightarrow> u8 \<Rightarrow> u16" where
  "le16 b0 b1 = ucast b0 OR push_bit 8 (ucast b1)"

definition le32 :: "u8 \<Rightarrow> u8 \<Rightarrow> u8 \<Rightarrow> u8 \<Rightarrow> u32" where
  "le32 b0 b1 b2 b3 =
     ucast b0 OR push_bit 8 (ucast b1) OR push_bit 16 (ucast b2) OR push_bit 24 (ucast b3)"

definition bytes16 :: "u16 \<Rightarrow> u8 list" where
  "bytes16 v = [ucast v, ucast (drop_bit 8 v)]"

definition bytes32 :: "u32 \<Rightarrow> u8 list" where
  "bytes32 v = [ucast v, ucast (drop_bit 8 v), ucast (drop_bit 16 v), ucast (drop_bit 24 v)]"

lemma length_bytes [simp]: "length (bytes16 h) = 2" "length (bytes32 v) = 4"
  by (simp_all add: bytes16_def bytes32_def)

lemma le16_of_bytes [byte_simps, simp]: "le16 (ucast v) (ucast (drop_bit 8 v)) = v"
  unfolding le16_def
  by (rule bit_word_eqI) (auto simp: bit_simps)

lemma le32_of_bytes [byte_simps, simp]:
  "le32 (ucast v) (ucast (drop_bit 8 v)) (ucast (drop_bit 16 v)) (ucast (drop_bit 24 v)) = v"
  unfolding le32_def
proof (rule bit_word_eqI)
  fix n assume "n < LENGTH(32)"
  then consider "n < 8" | "8 \<le> n" "n < 16" | "16 \<le> n" "n < 24" | "24 \<le> n" "n < 32"
    by fastforce
  then show "bit (ucast (ucast v :: u8) OR push_bit 8 (ucast (ucast (drop_bit 8 v) :: u8)) OR
      push_bit 16 (ucast (ucast (drop_bit 16 v) :: u8)) OR
      push_bit 24 (ucast (ucast (drop_bit 24 v) :: u8)) :: u32) n = bit v n"
    by cases (auto simp add: bit_simps)
qed

lemma bytes16_le16 [byte_simps, simp]: "bytes16 (le16 a b) = [a, b]"
  unfolding le16_def bytes16_def
  by simp (intro conjI; rule bit_word_eqI; auto simp: bit_simps dest: bit_imp_le_length)

lemma bytes32_le32 [byte_simps, simp]: "bytes32 (le32 a b c d) = [a, b, c, d]"
  unfolding le32_def bytes32_def
  by simp (intro conjI; rule bit_word_eqI; auto simp: bit_simps dest: bit_imp_le_length)

text \<open>Reading and overwriting \<open>n\<close> bytes of a buffer at an offset (\<open>std::memcpy\<close>).\<close>

definition slice_bytes :: "'a list \<Rightarrow> nat \<Rightarrow> nat \<Rightarrow> 'a list" where
  "slice_bytes b i n = take n (drop i b)"

definition overwrite :: "'a list \<Rightarrow> nat \<Rightarrow> 'a list \<Rightarrow> 'a list" where
  "overwrite b i xs = take i b @ xs @ drop (i + length xs) b"

definition word16_of :: "u8 list \<Rightarrow> u16" where
  "word16_of bs = le16 (bs ! 0) (bs ! 1)"

definition word32_of :: "u8 list \<Rightarrow> u32" where
  "word32_of bs = le32 (bs ! 0) (bs ! 1) (bs ! 2) (bs ! 3)"

lemma word_of_bytes [byte_simps, simp]:
  "word16_of (bytes16 h) = h" "word32_of (bytes32 v) = v"
  by (simp_all add: word16_of_def word32_of_def bytes16_def bytes32_def)

lemma bytes32_word32_of [byte_simps]: "length bs = 4 \<Longrightarrow> bytes32 (word32_of bs) = bs"
  by (auto simp: word32_of_def numeral_eq_Suc length_Suc_conv)

lemma bytes16_word16_of [byte_simps]: "length bs = 2 \<Longrightarrow> bytes16 (word16_of bs) = bs"
  by (auto simp: word16_of_def numeral_eq_Suc length_Suc_conv)

lemma length_slice_bytes [simp]: "i + n \<le> length b \<Longrightarrow> length (slice_bytes b i n) = n"
  by (simp add: slice_bytes_def)

lemma length_overwrite [simp]: "i + length xs \<le> length b \<Longrightarrow> length (overwrite b i xs) = length b"
  by (simp add: overwrite_def)

lemma nth_slice_bytes [simp]: "k < n \<Longrightarrow> i + n \<le> length b \<Longrightarrow> slice_bytes b i n ! k = b ! (i + k)"
  by (simp add: slice_bytes_def)

lemma nth_overwrite:
  "i + length xs \<le> length b \<Longrightarrow> k < length b \<Longrightarrow>
   overwrite b i xs ! k = (if i \<le> k \<and> k < i + length xs then xs ! (k - i) else b ! k)"
  by (auto simp: overwrite_def nth_append min_def)

lemma slice_overwrite_same [byte_simps, simp]:
  "i + length xs \<le> length b \<Longrightarrow> n = length xs \<Longrightarrow> slice_bytes (overwrite b i xs) i n = xs"
  by (simp add: slice_bytes_def overwrite_def)

lemma slice_overwrite_other [byte_simps]:
  assumes "i + length xs \<le> length b" "j + n \<le> length b" "j + n \<le> i \<or> i + length xs \<le> j"
  shows "slice_bytes (overwrite b i xs) j n = slice_bytes b j n"
proof (rule nth_equalityI)
  show "length (slice_bytes (overwrite b i xs) j n) = length (slice_bytes b j n)"
    using assms by simp
next
  fix k assume "k < length (slice_bytes (overwrite b i xs) j n)"
  then have "k < n" using assms(1,2) by simp
  then show "slice_bytes (overwrite b i xs) j n ! k = slice_bytes b j n ! k"
    using assms by (auto simp: nth_overwrite)
qed

section \<open>Alignment\<close>

text \<open>Clearing the low \<open>k\<close> bits, the mask of every \<open>align\<close> function of the sources.\<close>

lemma and_not_mask: "(x::'a::len word) AND NOT (2 ^ k - 1) = push_bit k (drop_bit k x)"
  by (rule bit_word_eqI) (auto simp: bit_simps simp flip: mask_eq_exp_minus_1)

lemma unat_and_not_mask:
  "unat ((x::'a::len word) AND NOT (2 ^ k - 1)) = unat x div 2 ^ k * 2 ^ k"
proof -
  have "unat x div 2 ^ k * 2 ^ k < 2 ^ LENGTH('a)"
    using unsigned_less [of x, where 'a = nat] by (simp add: le_less_trans [OF div_times_less_eq_dividend])
  moreover have "unat (push_bit k (drop_bit k x)) = take_bit LENGTH('a) (push_bit k (drop_bit k (unat x)))"
    using unsigned_less [of x, where 'a = nat]
    by (simp add: unsigned_push_bit_eq unsigned_drop_bit_eq take_bit_nat_eq_self)
  ultimately show ?thesis
    by (simp only: and_not_mask push_bit_eq_mult drop_bit_eq_div take_bit_eq_mod mod_less)
qed

lemma unat_plus_small:
  "unat (x::'a::len word) + unat y < 2 ^ LENGTH('a) \<Longrightarrow> unat (x + y) = unat x + unat y"
  by (simp add: unat_word_ariths)

lemma unat_mult_small:
  "unat (x::'a::len word) * unat y < 2 ^ LENGTH('a) \<Longrightarrow> unat (x * y) = unat x * unat y"
  by (simp add: unat_word_ariths)

lemma unat_minus_small: "y \<le> x \<Longrightarrow> unat ((x::'a::len word) - y) = unat x - unat y"
  by (rule unat_sub)

end
