(* ===== verification/Guest_Memory.thy ===== *)
theory Guest_Memory
  imports Prelude
begin

text \<open>
  The guest CPU state and guest memory of \<open>include/psprecomp/runtime.hpp\<close>: the record
  \<open>State\<close>, the four host buffers that back guest addresses, address translation
  (\<open>mapped_address\<close>), the fault bookkeeping and the loads and stores of 8, 16 and 32 bits.

  A host pointer into one of the buffers is a region and an offset. A null buffer is
  \<open>None\<close>; a buffer and its size field are one byte list, since the runtime always sets them
  together. The model is the build the host runtime uses: little-endian
  (\<open>is_big_endian\<close> is false) and without \<open>PSPRECOMP_PROFILE_CPU\<close>, so the profile counters
  and the branches under these constants disappear. The bytes the process itself maps at a
  guest address, read and written when \<open>direct_memory_access\<close> is set, are the field
  \<open>native\<close>.

  \<open>host_fault\<close> is not a field of the C++ structure: it is set when the code indexes a host
  buffer past its end, which C++ leaves undefined. That no operation sets it on a
  well-formed state is the memory-safety property of this component.
\<close>

section \<open>State\<close>

datatype StopReason =
    Running | Returned | Step_limit | Invalid_pc | Unsupported_instruction
  | Memory_fault | Syscall | Breakpoint

record State =
  gpr :: "nat \<Rightarrow> u32"
  hi :: u32
  lo :: u32
  fpr :: "nat \<Rightarrow> u32"
  fcr31 :: u32
  vfpu :: "nat \<Rightarrow> u32"
  vfpu_ctrl :: "nat \<Rightarrow> u32"
  pc :: u32
  memory :: "u8 list option"
  memory_base :: u32
  scratchpad :: "u8 list option"
  video_memory :: "u8 list option"
  volatile_memory :: "u8 list option"
  direct_memory_access :: bool
  native :: "u32 \<Rightarrow> u8"
  branch_pending :: bool
  branch_target :: u32
  stop_reason :: StopReason
  fault_address :: u32
  fault_instruction :: u32
  fault_pc :: u32
  host_fault :: bool

text \<open>The value \<open>State state{}\<close>, with no buffer attached.\<close>

definition initial_state :: State where
  "initial_state = \<lparr>
     gpr = (\<lambda>_. 0), hi = 0, lo = 0, fpr = (\<lambda>_. 0), fcr31 = 0, vfpu = (\<lambda>_. 0),
     vfpu_ctrl = (\<lambda>i. if i < 2 then 0xe4 else 0), pc = 0,
     memory = None, memory_base = 0, scratchpad = None, video_memory = None,
     volatile_memory = None, direct_memory_access = False, native = (\<lambda>_. 0),
     branch_pending = False, branch_target = 0, stop_reason = Running,
     fault_address = 0, fault_instruction = 0, fault_pc = 0, host_fault = False\<rparr>"

section \<open>Address translation\<close>

datatype region = Ram | Scratchpad | Video_memory | Volatile_memory

type_synonym pointer = "region \<times> nat"

definition buffer_of :: "State \<Rightarrow> region \<Rightarrow> u8 list option" where
  "buffer_of s r = (case r of
     Ram \<Rightarrow> memory s
   | Scratchpad \<Rightarrow> scratchpad s
   | Video_memory \<Rightarrow> video_memory s
   | Volatile_memory \<Rightarrow> volatile_memory s)"

definition buffer :: "State \<Rightarrow> region \<Rightarrow> u8 list" where
  "buffer s r = (case buffer_of s r of None \<Rightarrow> [] | Some b \<Rightarrow> b)"

definition set_buffer :: "State \<Rightarrow> region \<Rightarrow> u8 list \<Rightarrow> State" where
  "set_buffer s r b = (case r of
     Ram \<Rightarrow> s\<lparr>memory := map_option (\<lambda>_. b) (memory s)\<rparr>
   | Scratchpad \<Rightarrow> s\<lparr>scratchpad := map_option (\<lambda>_. b) (scratchpad s)\<rparr>
   | Video_memory \<Rightarrow> s\<lparr>video_memory := map_option (\<lambda>_. b) (video_memory s)\<rparr>
   | Volatile_memory \<Rightarrow> s\<lparr>volatile_memory := map_option (\<lambda>_. b) (volatile_memory s)\<rparr>)"

definition memory_size :: "State \<Rightarrow> nat" where
  "memory_size s = length (buffer s Ram)"

definition canonical_address :: "u32 \<Rightarrow> u32" where
  "canonical_address address = address AND 0x1fffffff"

definition region_address ::
  "State \<Rightarrow> region \<Rightarrow> u32 \<Rightarrow> u32 \<Rightarrow> nat \<Rightarrow> pointer option" where
  "region_address s r region_base address width =
     (if buffer_of s r = None \<or> address < region_base then None
      else let offset = unat (address - region_base); region_size = length (buffer s r) in
        if offset \<le> region_size \<and> width \<le> region_size - offset then Some (r, offset)
        else None)"

definition mapped_address :: "State \<Rightarrow> u32 \<Rightarrow> nat \<Rightarrow> pointer option" where
  "mapped_address s address width =
     (let canon = address AND 0x1fffffff; offset = unat (canon - memory_base s) in
      if memory s \<noteq> None \<and> offset \<le> memory_size s \<and> width \<le> memory_size s - offset
      then Some (Ram, offset)
      else if drop_bit 24 canon = 0x00
        then region_address s Scratchpad 0x00010000 canon width
      else if drop_bit 24 canon = 0x04
        then region_address s Video_memory 0x04000000 canon width
      else if drop_bit 24 canon = 0x08
        then region_address s Volatile_memory 0x08400000 canon width
      else None)"

definition address_ok :: "State \<Rightarrow> u32 \<Rightarrow> nat \<Rightarrow> bool" where
  "address_ok s address width \<longleftrightarrow> mapped_address s address width \<noteq> None"

section \<open>Faults\<close>

definition note_memory_fault :: "State \<Rightarrow> u32 \<Rightarrow> State" where
  "note_memory_fault s address =
     s\<lparr>stop_reason := Memory_fault, fault_address := address,
       fault_pc := (if fault_pc s = 0 then pc s else fault_pc s)\<rparr>"

definition direct_address_ok :: "State \<Rightarrow> u32 \<Rightarrow> nat \<Rightarrow> bool \<times> State" where
  "direct_address_ok s address width =
     (if address < 0x00010000 \<or> unat (0xffffffff - address) + 1 < width
      then (False, s\<lparr>stop_reason := Memory_fault, fault_address := address,
                     fault_pc := (if fault_pc s = 0 then pc s else fault_pc s)\<rparr>)
      else (True, s))"

definition note_host_fault :: "State \<Rightarrow> State" where
  "note_host_fault s = s\<lparr>host_fault := True\<rparr>"

section \<open>Raw access through a host pointer\<close>

definition read_at :: "State \<Rightarrow> pointer \<Rightarrow> nat \<Rightarrow> u8 list" where
  "read_at s p n = slice_bytes (buffer s (fst p)) (snd p) n"

definition write_at :: "State \<Rightarrow> pointer \<Rightarrow> u8 list \<Rightarrow> State" where
  "write_at s p bs = set_buffer s (fst p) (overwrite (buffer s (fst p)) (snd p) bs)"

definition native_bytes :: "State \<Rightarrow> u32 \<Rightarrow> nat \<Rightarrow> u8 list" where
  "native_bytes s address n = map (\<lambda>i. native s (address + of_nat i)) [0..<n]"

definition set_native_bytes :: "State \<Rightarrow> u32 \<Rightarrow> u8 list \<Rightarrow> State" where
  "set_native_bytes s address bs =
     s\<lparr>native := (\<lambda>a. let i = unat (a - address) in
                      if i < length bs then bs ! i else native s a)\<rparr>"

text \<open>
  The fast path of an access of \<open>n\<close> bytes indexes \<open>state.memory\<close> directly. It is
  defined behaviour only inside the buffer.
\<close>

definition fast_read :: "State \<Rightarrow> nat \<Rightarrow> nat \<Rightarrow> u8 list \<times> State" where
  "fast_read s offset n =
     (if offset + n \<le> memory_size s then (read_at s (Ram, offset) n, s)
      else (replicate n 0, note_host_fault s))"

definition fast_write :: "State \<Rightarrow> nat \<Rightarrow> u8 list \<Rightarrow> State" where
  "fast_write s offset bs =
     (if offset + length bs \<le> memory_size s then write_at s (Ram, offset) bs
      else note_host_fault s)"

section \<open>Loads\<close>

definition load8 :: "State \<Rightarrow> u32 \<Rightarrow> u8 \<times> State" where
  "load8 s address =
     (let canon = address AND 0x1fffffff; offset = unat (canon - memory_base s) in
      if memory s \<noteq> None \<and> offset < memory_size s
      then (let (bs, s') = fast_read s offset 1 in (bs ! 0, s'))
      else case mapped_address s address 1 of
        Some p \<Rightarrow> (read_at s p 1 ! 0, s)
      | None \<Rightarrow>
          if direct_memory_access s then
            (case direct_address_ok s address 1 of
               (False, s') \<Rightarrow> (0, s')
             | (True, s') \<Rightarrow> (native s' address, s'))
          else (0, note_memory_fault s address))"

definition load16 :: "State \<Rightarrow> u32 \<Rightarrow> u16 \<times> State" where
  "load16 s address =
     (let canon = address AND 0x1fffffff; offset = unat (canon - memory_base s) in
      if memory s \<noteq> None \<and> offset \<le> size_sub (memory_size s) 2 \<and> address AND 1 = 0
      then (let (bs, s') = fast_read s offset 2 in (word16_of bs, s'))
      else if address AND 1 \<noteq> 0 then (0, note_memory_fault s address)
      else case mapped_address s address 2 of
        Some p \<Rightarrow> (word16_of (read_at s p 2), s)
      | None \<Rightarrow>
          if direct_memory_access s then
            (case direct_address_ok s address 2 of
               (False, s') \<Rightarrow> (0, s')
             | (True, s') \<Rightarrow> (word16_of (native_bytes s' address 2), s'))
          else (0, note_memory_fault s address))"

definition load32 :: "State \<Rightarrow> u32 \<Rightarrow> u32 \<times> State" where
  "load32 s address =
     (let canon = address AND 0x1fffffff; offset = unat (canon - memory_base s) in
      if memory s \<noteq> None \<and> offset \<le> size_sub (memory_size s) 4 \<and> address AND 3 = 0
      then (let (bs, s') = fast_read s offset 4 in (word32_of bs, s'))
      else if address AND 3 \<noteq> 0 then (0, note_memory_fault s address)
      else case mapped_address s address 4 of
        Some p \<Rightarrow> (word32_of (read_at s p 4), s)
      | None \<Rightarrow>
          if direct_memory_access s then
            (case direct_address_ok s address 4 of
               (False, s') \<Rightarrow> (0, s')
             | (True, s') \<Rightarrow> (word32_of (native_bytes s' address 4), s'))
          else (0, note_memory_fault s address))"

section \<open>Stores\<close>

definition store8 :: "State \<Rightarrow> u32 \<Rightarrow> u8 \<Rightarrow> State" where
  "store8 s address v =
     (let canon = address AND 0x1fffffff; offset = unat (canon - memory_base s) in
      if memory s \<noteq> None \<and> offset < memory_size s then fast_write s offset [v]
      else case mapped_address s address 1 of
        Some p \<Rightarrow> write_at s p [v]
      | None \<Rightarrow>
          if direct_memory_access s then
            (case direct_address_ok s address 1 of
               (False, s') \<Rightarrow> s'
             | (True, s') \<Rightarrow> set_native_bytes s' address [v])
          else note_memory_fault s address)"

definition store16 :: "State \<Rightarrow> u32 \<Rightarrow> u16 \<Rightarrow> State" where
  "store16 s address v =
     (let canon = address AND 0x1fffffff; offset = unat (canon - memory_base s) in
      if memory s \<noteq> None \<and> offset \<le> size_sub (memory_size s) 2 \<and> address AND 1 = 0
      then fast_write s offset (bytes16 v)
      else if address AND 1 \<noteq> 0 then note_memory_fault s address
      else case mapped_address s address 2 of
        Some p \<Rightarrow> write_at s p (bytes16 v)
      | None \<Rightarrow>
          if direct_memory_access s then
            (case direct_address_ok s address 2 of
               (False, s') \<Rightarrow> s'
             | (True, s') \<Rightarrow> set_native_bytes s' address (bytes16 v))
          else note_memory_fault s address)"

definition store32 :: "State \<Rightarrow> u32 \<Rightarrow> u32 \<Rightarrow> State" where
  "store32 s address v =
     (let canon = address AND 0x1fffffff; offset = unat (canon - memory_base s) in
      if memory s \<noteq> None \<and> offset \<le> size_sub (memory_size s) 4 \<and> address AND 3 = 0
      then fast_write s offset (bytes32 v)
      else if address AND 3 \<noteq> 0 then note_memory_fault s address
      else case mapped_address s address 4 of
        Some p \<Rightarrow> write_at s p (bytes32 v)
      | None \<Rightarrow>
          if direct_memory_access s then
            (case direct_address_ok s address 4 of
               (False, s') \<Rightarrow> s'
             | (True, s') \<Rightarrow> set_native_bytes s' address (bytes32 v))
          else note_memory_fault s address)"

section \<open>Buffers and pointers\<close>

lemma buffer_set_buffer [simp]:
  "buffer_of s r \<noteq> None \<Longrightarrow> buffer (set_buffer s r b) r' = (if r' = r then b else buffer s r')"
  by (cases r; cases r') (auto simp: buffer_def buffer_of_def set_buffer_def)

lemma set_buffer_twice [simp]: "set_buffer (set_buffer s r b) r b' = set_buffer s r b'"
  by (cases r) (simp_all add: set_buffer_def option.map_comp comp_def)

lemma buffer_of_set_buffer [simp]:
  "buffer_of (set_buffer s r b) r' =
     (if r' = r then map_option (\<lambda>_. b) (buffer_of s r) else buffer_of s r')"
  by (cases r; cases r') (auto simp: buffer_of_def set_buffer_def)

lemma set_buffer_frame [frame_simps, simp]:
  "memory_base (set_buffer s r b) = memory_base s"
  "stop_reason (set_buffer s r b) = stop_reason s"
  "host_fault (set_buffer s r b) = host_fault s"
  "direct_memory_access (set_buffer s r b) = direct_memory_access s"
  "gpr (set_buffer s r b) = gpr s"
  "pc (set_buffer s r b) = pc s"
  by (cases r; simp add: set_buffer_def)+

lemma memory_None_iff: "memory s = None \<longleftrightarrow> buffer_of s Ram = None"
  by (simp add: buffer_of_def)

lemma region_address_bounds:
  "region_address s r b a w = Some (r', i) \<Longrightarrow>
     r' = r \<and> buffer_of s r \<noteq> None \<and> i + w \<le> length (buffer s r)"
  by (auto simp: region_address_def Let_def split: if_splits)

lemma mapped_address_bounds:
  assumes "mapped_address s a w = Some (r, i)"
  shows "buffer_of s r \<noteq> None" and "i + w \<le> length (buffer s r)"
proof -
  have "buffer_of s r \<noteq> None \<and> i + w \<le> length (buffer s r)"
    using assms
    by (auto simp: mapped_address_def Let_def memory_size_def memory_None_iff
             dest!: region_address_bounds split: if_splits)
  then show "buffer_of s r \<noteq> None" and "i + w \<le> length (buffer s r)" by simp_all
qed

text \<open>Translation depends on the buffers only through their presence and their sizes.\<close>

definition same_layout :: "State \<Rightarrow> State \<Rightarrow> bool" where
  "same_layout s t \<longleftrightarrow> memory_base t = memory_base s \<and>
     (\<forall>r. map_option length (buffer_of t r) = map_option length (buffer_of s r))"

lemma same_layout_refl [simp]: "same_layout s s"
  by (simp add: same_layout_def)

lemma same_layout_trans: "same_layout s t \<Longrightarrow> same_layout t u \<Longrightarrow> same_layout s u"
  by (simp add: same_layout_def)

lemma same_layout_length:
  assumes "same_layout s t"
  shows "length (buffer t r) = length (buffer s r)" "(buffer_of t r = None) = (buffer_of s r = None)"
  using assms[unfolded same_layout_def, THEN conjunct2, THEN spec, of r]
  by (auto simp: buffer_def split: option.splits)

lemma same_layout_mapped:
  assumes "same_layout s t"
  shows "mapped_address t a w = mapped_address s a w"
proof -
  have base: "memory_base t = memory_base s" using assms by (simp add: same_layout_def)
  show ?thesis
    unfolding mapped_address_def region_address_def memory_size_def memory_None_iff Let_def
      base same_layout_length [OF assms] ..
qed

lemma write_at_layout:
  "snd p + length bs \<le> length (buffer s (fst p)) \<Longrightarrow> same_layout s (write_at s p bs)"
  by (auto simp: same_layout_def write_at_def buffer_def split: option.splits)

lemma read_write_same [byte_simps]:
  "buffer_of s (fst p) \<noteq> None \<Longrightarrow> snd p + length bs \<le> length (buffer s (fst p)) \<Longrightarrow>
   n = length bs \<Longrightarrow> read_at (write_at s p bs) p n = bs"
  by (simp add: read_at_def write_at_def)

lemma read_write_other [byte_simps]:
  "buffer_of s (fst p) \<noteq> None \<Longrightarrow> snd p + length bs \<le> length (buffer s (fst p)) \<Longrightarrow>
   snd q + n \<le> length (buffer s (fst q)) \<Longrightarrow>
   fst q \<noteq> fst p \<or> snd q + n \<le> snd p \<or> snd p + length bs \<le> snd q \<Longrightarrow>
   read_at (write_at s p bs) q n = read_at s q n"
  by (auto simp: read_at_def write_at_def slice_overwrite_other)

end
