(* ===== verification/Cpu_Ops.thy ===== *)
theory Cpu_Ops
  imports Complex_Main Guest_Memory
begin

text \<open>
  The arithmetic helpers of \<open>include/psprecomp/runtime.hpp\<close> that translated code and the
  interpreter share: byte swaps, shifts and rotates, bit reversal, the FPU condition bits,
  comparison and conversion of single-precision values. A \<open>float\<close> is its IEEE-754 bit
  pattern (the code moves it with \<open>std::memcpy\<close>); its value is a sign, an integer mantissa
  and a power of two, and the C++ operations on \<open>float\<close> are computed on these exactly and
  rounded to nearest even, the mode the process runs in.
\<close>

section \<open>Integers\<close>

definition byteswap16 :: "u16 \<Rightarrow> u16" where
  "byteswap16 v = drop_bit 8 v OR push_bit 8 v"

definition byteswap32 :: "u32 \<Rightarrow> u32" where
  "byteswap32 v = drop_bit 24 v OR (drop_bit 8 v AND 0x0000ff00) OR
     (push_bit 8 v AND 0x00ff0000) OR push_bit 24 v"

definition byteswap64 :: "u64 \<Rightarrow> u64" where
  "byteswap64 v = drop_bit 56 v OR (drop_bit 40 v AND 0x000000000000ff00) OR
     (drop_bit 24 v AND 0x0000000000ff0000) OR (drop_bit 8 v AND 0x00000000ff000000) OR
     (push_bit 8 v AND 0x000000ff00000000) OR (push_bit 24 v AND 0x0000ff0000000000) OR
     (push_bit 40 v AND 0x00ff000000000000) OR push_bit 56 v"

definition as_s32 :: "u32 \<Rightarrow> int" where
  "as_s32 v = sint v"

definition arithmetic_shift_right :: "u32 \<Rightarrow> u32 \<Rightarrow> u32" where
  "arithmetic_shift_right v amount =
     (let amount = unat (amount AND 31) in
      if amount = 0 then v
      else let shifted = drop_bit amount v in
        if v AND 0x80000000 = 0 then shifted
        else shifted OR push_bit (32 - amount) (NOT 0))"

definition rotate_right :: "u32 \<Rightarrow> u32 \<Rightarrow> u32" where
  "rotate_right v amount =
     (let amount = unat (amount AND 31) in
      if amount = 0 then v else drop_bit amount v OR push_bit (32 - amount) v)"

definition reverse_bits :: "u32 \<Rightarrow> u32" where
  "reverse_bits v0 =
     (let v1 = push_bit 1 (v0 AND 0x55555555) OR drop_bit 1 (v0 AND 0xAAAAAAAA);
          v2 = push_bit 2 (v1 AND 0x33333333) OR drop_bit 2 (v1 AND 0xCCCCCCCC);
          v3 = push_bit 4 (v2 AND 0x0F0F0F0F) OR drop_bit 4 (v2 AND 0xF0F0F0F0);
          v4 = push_bit 8 (v3 AND 0x00FF00FF) OR drop_bit 8 (v3 AND 0xFF00FF00)
      in push_bit 16 v4 OR drop_bit 16 v4)"

section \<open>FPU condition bits\<close>

definition condition_bit :: "u32 \<Rightarrow> nat" where
  "condition_bit cc = (if cc = 0 then 23 else 24 + unat (cc AND 7))"

definition fpu_condition :: "State \<Rightarrow> u32 \<Rightarrow> bool" where
  "fpu_condition s cc \<longleftrightarrow> fcr31 s AND push_bit (condition_bit cc) 1 \<noteq> 0"

definition set_fpu_condition :: "State \<Rightarrow> u32 \<Rightarrow> bool \<Rightarrow> State" where
  "set_fpu_condition s cc v =
     (let mask = push_bit (condition_bit cc) 1 in
      s\<lparr>fcr31 := (if v then fcr31 s OR mask else fcr31 s AND NOT mask)\<rparr>)"

definition f32 :: "State \<Rightarrow> u32 \<Rightarrow> u32" where
  "f32 s index = fpr s (unat (index AND 31))"

definition set_f32 :: "State \<Rightarrow> u32 \<Rightarrow> u32 \<Rightarrow> State" where
  "set_f32 s index v = s\<lparr>fpr := (fpr s)(unat (index AND 31) := v)\<rparr>"

section \<open>Single-precision values\<close>

definition f32_sign :: "u32 \<Rightarrow> bool" where
  "f32_sign b \<longleftrightarrow> b AND 0x80000000 \<noteq> 0"

definition f32_exponent :: "u32 \<Rightarrow> nat" where
  "f32_exponent b = unat (drop_bit 23 b AND 0xff)"

definition f32_fraction :: "u32 \<Rightarrow> nat" where
  "f32_fraction b = unat (b AND 0x7fffff)"

definition f32_is_nan :: "u32 \<Rightarrow> bool" where
  "f32_is_nan b \<longleftrightarrow> f32_exponent b = 255 \<and> f32_fraction b \<noteq> 0"

definition f32_is_inf :: "u32 \<Rightarrow> bool" where
  "f32_is_inf b \<longleftrightarrow> f32_exponent b = 255 \<and> f32_fraction b = 0"

definition f32_finite :: "u32 \<Rightarrow> bool" where
  "f32_finite b \<longleftrightarrow> f32_exponent b \<noteq> 255"

text \<open>A finite value is \<open>f32_significand b * 2 ^ f32_scale b\<close>, the scale being negative or not.\<close>

definition f32_significand :: "u32 \<Rightarrow> int" where
  "f32_significand b =
     (let m = (if f32_exponent b = 0 then int (f32_fraction b) else int (f32_fraction b) + 2 ^ 23)
      in if f32_sign b then - m else m)"

definition f32_scale :: "u32 \<Rightarrow> int" where
  "f32_scale b = (if f32_exponent b = 0 then -149 else int (f32_exponent b) - 150)"

definition dyadic :: "int \<Rightarrow> int \<Rightarrow> rat" where
  "dyadic m e = (if 0 \<le> e then of_int m * 2 ^ nat e else of_int m / 2 ^ nat (- e))"

definition f32_value :: "u32 \<Rightarrow> rat" where
  "f32_value b = dyadic (f32_significand b) (f32_scale b)"

text \<open>
  The order C++ gives two values that are not NaN: by sign and magnitude, both zeros equal,
  infinities at the ends.
\<close>

definition f32_key :: "u32 \<Rightarrow> int" where
  "f32_key b = (let m = int (unat (b AND 0x7fffffff)) in if f32_sign b then - m else m)"

definition compare_f32 :: "State \<Rightarrow> u32 \<Rightarrow> u32 \<Rightarrow> u32 \<Rightarrow> u32 \<Rightarrow> State" where
  "compare_f32 s cc left right condition =
     (let unordered = f32_is_nan left \<or> f32_is_nan right;
          less = (\<not> unordered \<and> f32_key left < f32_key right);
          equal = (\<not> unordered \<and> f32_key left = f32_key right);
          result = ((condition AND 4 \<noteq> 0 \<and> less) \<or> (condition AND 2 \<noteq> 0 \<and> equal) \<or>
                    (condition AND 1 \<noteq> 0 \<and> unordered))
      in set_fpu_condition s cc result)"

section \<open>Rounding to an integer\<close>

definition dyadic_floor :: "int \<Rightarrow> int \<Rightarrow> int" where
  "dyadic_floor m e = (if 0 \<le> e then m * 2 ^ nat e else m div 2 ^ nat (- e))"

definition dyadic_ceil :: "int \<Rightarrow> int \<Rightarrow> int" where
  "dyadic_ceil m e = - dyadic_floor (- m) e"

definition dyadic_trunc :: "int \<Rightarrow> int \<Rightarrow> int" where
  "dyadic_trunc m e = (if 0 \<le> m then dyadic_floor m e else dyadic_ceil m e)"

text \<open>\<open>std::nearbyint\<close> in the default mode: nearest, ties to the even integer.\<close>

definition dyadic_nearest :: "int \<Rightarrow> int \<Rightarrow> int" where
  "dyadic_nearest m e =
     (if 0 \<le> e then m * 2 ^ nat e
      else let d = 2 ^ nat (- e); n = m div d; r = 2 * (m mod d) in
        if r < d then n else if d < r then n + 1
        else if even n then n else n + 1)"

text \<open>\<open>std::round\<close>: nearest, ties away from zero.\<close>

definition half_up :: "int \<Rightarrow> int \<Rightarrow> int" where
  "half_up m e =
     (if 0 \<le> e then m * 2 ^ nat e else (2 * m + 2 ^ nat (- e)) div 2 ^ (nat (- e) + 1))"

definition dyadic_round :: "int \<Rightarrow> int \<Rightarrow> int" where
  "dyadic_round m e = (if 0 \<le> m then half_up m e else - half_up (- m) e)"

definition in_s32 :: "int \<Rightarrow> bool" where
  "in_s32 n \<longleftrightarrow> - (2 ^ 31) \<le> n \<and> n \<le> 2 ^ 31 - 1"

definition rounded_word :: "u32 \<Rightarrow> u32 \<Rightarrow> u32" where
  "rounded_word v mode =
     (let m = f32_significand v; e = f32_scale v;
          rounded = (if mode AND 3 = 0 then dyadic_nearest m e
                     else if mode AND 3 = 1 then dyadic_trunc m e
                     else if mode AND 3 = 2 then dyadic_ceil m e
                     else dyadic_floor m e)
      in if \<not> f32_finite v \<or> \<not> in_s32 rounded then 0x80000000 else of_int rounded)"

section \<open>Single-precision arithmetic\<close>

text \<open>
  The result of an exact computation, \<open>(-1)\<^sup>n * m * 2 ^ e\<close>, as the nearest single-precision
  value: 24 significant bits, or as many as the smallest exponent leaves.
\<close>

fun bit_length :: "nat \<Rightarrow> nat" where
  "bit_length n = (if n = 0 then 0 else Suc (bit_length (n div 2)))"

declare bit_length.simps [simp del]

definition f32_zero :: "bool \<Rightarrow> u32" where
  "f32_zero n = (if n then 0x80000000 else 0)"

definition f32_inf :: "bool \<Rightarrow> u32" where
  "f32_inf n = f32_zero n OR 0x7f800000"

definition f32_pack :: "bool \<Rightarrow> nat \<Rightarrow> int \<Rightarrow> u32" where
  "f32_pack n m e =
     (if m = 0 then f32_zero n
      else let q = max (e + int (bit_length m) - 24) (-149);
               r = dyadic_nearest (int m) (e - q);
               (r, q) = (if r = 2 ^ 24 then (2 ^ 23, q + 1) else (r, q))
        in if r < 2 ^ 23 then f32_zero n OR of_int r
           else if 255 \<le> q + 150 then f32_inf n
           else f32_zero n OR push_bit 23 (of_int (q + 150)) OR of_int (r - 2 ^ 23))"

text \<open>
  \<open>bits_of_nan\<close> is the pattern the host produces for an invalid operation or passes on from
  a NaN operand; \<open>cast\<close> is what the host leaves in an \<open>int32_t\<close> when a value that does not
  fit is converted, which C++ leaves undefined.
\<close>

record HostFpu =
  bits_of_nan :: "u32 \<Rightarrow> u32 \<Rightarrow> u32"
  cast :: "u32 \<Rightarrow> u32"

definition f32_negative :: "u32 \<Rightarrow> u32" where
  "f32_negative b = b XOR 0x80000000"

definition f32_abs :: "u32 \<Rightarrow> u32" where
  "f32_abs b = b AND 0x7fffffff"

definition f32_is_zero :: "u32 \<Rightarrow> bool" where
  "f32_is_zero b \<longleftrightarrow> b AND 0x7fffffff = 0"

definition f32_add :: "HostFpu \<Rightarrow> u32 \<Rightarrow> u32 \<Rightarrow> u32" where
  "f32_add h a b =
     (if f32_is_nan a \<or> f32_is_nan b then bits_of_nan h a b
      else if f32_is_inf a then
        (if f32_is_inf b \<and> f32_sign a \<noteq> f32_sign b then bits_of_nan h a b else a)
      else if f32_is_inf b then b
      else let e = min (f32_scale a) (f32_scale b);
               total = f32_significand a * 2 ^ nat (f32_scale a - e) +
                       f32_significand b * 2 ^ nat (f32_scale b - e)
        in if total = 0 then f32_zero (f32_sign a \<and> f32_sign b)
           else f32_pack (total < 0) (nat \<bar>total\<bar>) e)"

definition f32_sub :: "HostFpu \<Rightarrow> u32 \<Rightarrow> u32 \<Rightarrow> u32" where
  "f32_sub h a b =
     (if f32_is_nan a \<or> f32_is_nan b then bits_of_nan h a b else f32_add h a (f32_negative b))"

definition f32_mul :: "HostFpu \<Rightarrow> u32 \<Rightarrow> u32 \<Rightarrow> u32" where
  "f32_mul h a b =
     (let n = (f32_sign a \<noteq> f32_sign b) in
      if f32_is_nan a \<or> f32_is_nan b then bits_of_nan h a b
      else if f32_is_inf a \<or> f32_is_inf b then
        (if f32_is_zero a \<or> f32_is_zero b then bits_of_nan h a b else f32_inf n)
      else f32_pack n (nat \<bar>f32_significand a * f32_significand b\<bar>) (f32_scale a + f32_scale b))"

text \<open>
  Quotient and root are computed to many more bits than the result keeps, with a last bit
  that is set when anything was cut off, so that rounding once is exact.
\<close>

definition f32_div :: "HostFpu \<Rightarrow> u32 \<Rightarrow> u32 \<Rightarrow> u32" where
  "f32_div h a b =
     (let n = (f32_sign a \<noteq> f32_sign b) in
      if f32_is_nan a \<or> f32_is_nan b \<or> (f32_is_inf a \<and> f32_is_inf b) \<or>
         (f32_is_zero a \<and> f32_is_zero b) then bits_of_nan h a b
      else if f32_is_inf a \<or> f32_is_zero b then f32_inf n
      else if f32_is_inf b then f32_zero n
      else let x = nat \<bar>f32_significand a\<bar> * 2 ^ 60; y = nat \<bar>f32_significand b\<bar>
        in f32_pack n (2 * (x div y) + (if x mod y = 0 then 0 else 1))
             (f32_scale a - f32_scale b - 61))"

fun isqrt :: "nat \<Rightarrow> nat" where
  "isqrt n = (if n = 0 then 0 else let r = 2 * isqrt (n div 4) in
                if (r + 1) * (r + 1) \<le> n then r + 1 else r)"

declare isqrt.simps [simp del]

definition f32_sqrt :: "HostFpu \<Rightarrow> u32 \<Rightarrow> u32" where
  "f32_sqrt h a =
     (if f32_is_nan a then bits_of_nan h a a
      else if f32_is_zero a then a
      else if f32_sign a then bits_of_nan h a a
      else if f32_is_inf a then a
      else let k = (if even (f32_scale a) then 60 else 61);
               x = nat (f32_significand a) * 2 ^ k; r = isqrt x
        in f32_pack False (2 * r + (if r * r = x then 0 else 1))
             ((f32_scale a - int k) div 2 - 1))"

definition f32_of_s32 :: "int \<Rightarrow> u32" where
  "f32_of_s32 n = f32_pack (n < 0) (nat \<bar>n\<bar>) 0"

text \<open>\<open>static_cast<std::int32_t>\<close> of a rounded value, without the range check.\<close>

definition unchecked_s32 :: "HostFpu \<Rightarrow> u32 \<Rightarrow> int \<Rightarrow> u32" where
  "unchecked_s32 h v n = (if f32_finite v \<and> in_s32 n then of_int n else cast h v)"

section \<open>Bits\<close>

lemma sign_bit: "(v :: u32) AND 0x80000000 = 0 \<longleftrightarrow> \<not> bit v 31"
proof -
  have "(0x80000000 :: u32) = push_bit 31 1" by simp
  then show ?thesis by (simp only: and_exp_eq_0_iff_not_bit push_bit_of_1)
qed

lemma sign_bit_sint: "bit (v :: u32) 31 \<longleftrightarrow> sint v < 0"
  using bit_last_iff [of v] by simp

lemma and_mask_small:
  fixes a :: u32
  shows "unat (a AND mask n) < 2 ^ n" "unat a < 2 ^ n \<Longrightarrow> a AND mask n = a"
proof -
  have *: "unat (a AND mask n) = take_bit n (unat a)" by (simp add: take_bit_eq_mask [symmetric] unsigned_take_bit_eq)
  then show "unat (a AND mask n) < 2 ^ n" by (simp add: take_bit_eq_mod)
  show "unat a < 2 ^ n \<Longrightarrow> a AND mask n = a" using * by (simp add: take_bit_nat_eq_self unsigned_word_eqI)
qed

lemma amount_bound: "unat ((a :: u32) AND 31) < 32"
  using and_mask_small(1) [of a 5] by (simp add: mask_eq_exp_minus_1)

lemma arithmetic_shift_right_signed:
  "arithmetic_shift_right v a = signed_drop_bit (unat (a AND 31)) v"
proof (rule bit_word_eqI)
  fix n assume "n < LENGTH(32)"
  then show "bit (arithmetic_shift_right v a) n = bit (signed_drop_bit (unat (a AND 31)) v) n"
    using amount_bound [of a]
    by (auto simp: arithmetic_shift_right_def Let_def sign_bit bit_simps not_less dest: bit_imp_le_length)
qed

lemma rotate_right_rotr: "rotate_right v a = word_rotr (unat (a AND 31)) v"
proof (rule bit_word_eqI)
  fix n assume n: "n < LENGTH(32)"
  define k where "k = unat (a AND 31)"
  have "k < 32" using amount_bound [of a] by (simp add: k_def)
  then have *: "(n + k) mod 32 = (if n + k < 32 then n + k else n + k - 32)"
    using n by (simp add: mod_if)
  show "bit (rotate_right v a) n = bit (word_rotr (unat (a AND 31)) v) n"
    unfolding rotate_right_def Let_def k_def [symmetric]
    using n \<open>k < 32\<close> by (auto simp: bit_simps * add.commute [of k] dest: bit_imp_le_length)
qed

lemma byteswap_masks: "(0x0000ff00 :: u32) = push_bit 8 (mask 8)" "(0x00ff0000 :: u32) = push_bit 16 (mask 8)"
  by (simp_all add: mask_eq_exp_minus_1)

lemma byteswap_bytes:
  "bytes32 (byteswap32 v) = rev (bytes32 v)"
  unfolding bytes32_def byteswap32_def byteswap_masks
  by (simp del: push_bit_mask_eq; intro conjI; rule bit_word_eqI; auto simp: bit_simps  dest: bit_imp_le_length)

lemma upt_32: "[0..<32] = [0,1,2,3,4,5,6,7,8,9,10,11,12,13,14,15,16,17,18,19,20,21,22,23,24,25,26,27,28,29,30,31]"
  by code_simp

lemma bit_times_2: "bit ((v :: u32) * 2) n \<longleftrightarrow> 0 < n \<and> n < 32 \<and> bit v (n - 1)"
  using bit_double_iff [of v n] by (auto simp: mult.commute dest: bit_imp_le_length)

lemma reverse_bits_bit:
  assumes "n < 32"
  shows "bit (reverse_bits v) n = bit v (31 - n)"
proof -
  have "rev (map (bit v) [0..<32]) = map (bit (reverse_bits v)) [0..<32]"
    unfolding upt_32 by (simp add: reverse_bits_def Let_def bit_simps bit_times_2)
  then have "rev (map (bit v) [0..<32]) ! n = map (bit (reverse_bits v)) [0..<32] ! n" by (rule arg_cong)
  then show ?thesis using assms by (simp add: rev_nth)
qed

lemma fpu_condition_bit: "fpu_condition s cc \<longleftrightarrow> bit (fcr31 s) (condition_bit cc)"
  by (simp only: fpu_condition_def and_exp_eq_0_iff_not_bit push_bit_of_1 not_not)

lemma set_fpu_condition_bit:
  "n < 32 \<Longrightarrow> bit (fcr31 (set_fpu_condition s cc v)) n = (if n = condition_bit cc then v else bit (fcr31 s) n)"
  unfolding set_fpu_condition_def Let_def push_bit_of_1
  by (cases v) (auto simp: bit_or_iff bit_and_iff bit_not_iff bit_exp_iff)

lemma condition_bit_8:
  assumes "cc < 8" shows "condition_bit cc < 32" "cd < 8 \<Longrightarrow> condition_bit cc = condition_bit cd \<longleftrightarrow> cc = cd"
proof -
  have *: "c AND 7 = c \<and> unat c < 8" if "c < 8" for c :: u32
    using and_mask_small(2) [of c 3] that by (simp add: mask_eq_exp_minus_1 word_less_nat_alt)
  show "condition_bit cc < 32" using * [OF assms] by (simp add: condition_bit_def)
  show "cd < 8 \<Longrightarrow> condition_bit cc = condition_bit cd \<longleftrightarrow> cc = cd"
    using * [OF assms] * [of cd] by (auto simp: condition_bit_def word_unat_eq_iff)
qed

lemma fpu_condition_set:
  "cc < 8 \<Longrightarrow> cd < 8 \<Longrightarrow> fpu_condition (set_fpu_condition s cc v) cd = (if cd = cc then v else fpu_condition s cd)"
  using condition_bit_8(2) [of cc cd] condition_bit_8(1) [of cd] by (auto simp: fpu_condition_bit set_fpu_condition_bit)

section \<open>Rounding is rounding of the value\<close>

lemma dyadic_int: "0 \<le> e \<Longrightarrow> dyadic m e = of_int (m * 2 ^ nat e)"
  by (simp add: dyadic_def)

lemma dyadic_frac: "e < 0 \<Longrightarrow> dyadic m e = of_int m / of_int (2 ^ nat (- e))"
  by (simp add: dyadic_def)

lemma dyadic_uminus [simp]: "dyadic (- m) e = - dyadic m e"
  by (simp add: dyadic_def)

lemma dyadic_0_le: "0 \<le> dyadic m e \<longleftrightarrow> 0 \<le> m"
proof (cases "0 \<le> e")
  case True then show ?thesis unfolding dyadic_int [OF True] of_int_0_le_iff by (simp add: zero_le_mult_iff not_le [symmetric])
next
  case False
  moreover have "\<not> (2::rat) ^ nat (- e) \<le> 0" by (simp add: not_le)
  ultimately show ?thesis by (simp add: dyadic_frac zero_le_divide_iff)
qed

lemma dyadic_floor: "dyadic_floor m e = \<lfloor>dyadic m e\<rfloor>"
proof (cases "0 \<le> e")
  case True then show ?thesis unfolding dyadic_int [OF True] floor_of_int by (simp add: dyadic_floor_def)
next
  case False
  then have "e < 0" by simp
  then show ?thesis unfolding dyadic_frac [OF \<open>e < 0\<close>] floor_divide_of_int_eq by (simp add: dyadic_floor_def)
qed

lemma dyadic_ceil: "dyadic_ceil m e = \<lceil>dyadic m e\<rceil>"
  by (simp add: dyadic_ceil_def dyadic_floor ceiling_def)

lemma dyadic_trunc: "dyadic_trunc m e = (if 0 \<le> dyadic m e then \<lfloor>dyadic m e\<rfloor> else \<lceil>dyadic m e\<rceil>)"
  by (simp add: dyadic_trunc_def dyadic_floor dyadic_ceil dyadic_0_le)

lemma dyadic_nearest:
  "\<bar>of_int (dyadic_nearest m e) - dyadic m e\<bar> \<le> 1 / 2"
  "\<bar>of_int (dyadic_nearest m e) - dyadic m e\<bar> = 1 / 2 \<Longrightarrow> even (dyadic_nearest m e)"
proof -
  have "\<bar>of_int (dyadic_nearest m e) - dyadic m e\<bar> \<le> 1 / 2 \<and>
    (\<bar>of_int (dyadic_nearest m e) - dyadic m e\<bar> = 1 / 2 \<longrightarrow> even (dyadic_nearest m e))"
  proof (cases "0 \<le> e")
    case True then show ?thesis by (simp add: dyadic_nearest_def dyadic_def)
  next
    case False
    then have e: "e < 0" by simp
    define d where "d = (2::int) ^ nat (- e)"
    define n where "n = m div d"
    define r where "r = m mod d"
    have d: "0 < d" by (simp add: d_def)
    have m: "m = n * d + r" by (simp add: n_def r_def)
    have b: "0 \<le> r" "r < d" using d by (simp_all add: r_def)
    have v: "dyadic m e = of_int n + of_int r / of_int d"
      unfolding dyadic_frac [OF e] d_def [symmetric] using d by (simp add: m add_divide_distrib)
    have k: "dyadic_nearest m e = (if 2 * r < d then n else if d < 2 * r then n + 1 else if even n then n else n + 1)"
      using False by (simp add: dyadic_nearest_def Let_def d_def n_def r_def)
    have "0 \<le> (of_int r / of_int d :: rat)" "(of_int r / of_int d :: rat) < 1"
      using b d by (simp_all add: divide_less_eq)
    moreover have "(of_int r / of_int d :: rat) < 1 / 2 \<longleftrightarrow> 2 * r < d"
      "(of_int r / of_int d :: rat) = 1 / 2 \<longleftrightarrow> 2 * r = d"
      using d by (simp_all add: field_simps flip: of_int_mult) (metis of_int_mult of_int_numeral of_int_less_iff of_int_eq_iff mult.commute)+
    ultimately show ?thesis unfolding v k by (auto simp: abs_if split: if_splits)
  qed
  then show "\<bar>of_int (dyadic_nearest m e) - dyadic m e\<bar> \<le> 1 / 2"
    "\<bar>of_int (dyadic_nearest m e) - dyadic m e\<bar> = 1 / 2 \<Longrightarrow> even (dyadic_nearest m e)" by simp_all
qed


lemma sint_of_s32: "in_s32 n \<Longrightarrow> sint (of_int n :: u32) = n"
  by (simp add: in_s32_def signed_take_bit_int_eq_self sint_sbintrunc')

text \<open>
  The conversion to a word rounds the value of the float. For a finite value in the range of
  \<open>std::int32_t\<close>, mode 3 gives the floor, mode 2 the ceiling, mode 1 truncates and mode 0
  gives an integer at distance at most one half.
\<close>

theorem rounded_word_modes:
  assumes "f32_finite v" "- (2 ^ 31) \<le> f32_value v" "f32_value v \<le> 2 ^ 31 - 1"
  shows "sint (rounded_word v 3) = \<lfloor>f32_value v\<rfloor> \<and> sint (rounded_word v 2) = \<lceil>f32_value v\<rceil> \<and>
         sint (rounded_word v 1) = (if 0 \<le> f32_value v then \<lfloor>f32_value v\<rfloor> else \<lceil>f32_value v\<rceil>) \<and>
         \<bar>of_int (sint (rounded_word v 0)) - f32_value v\<bar> \<le> 1 / 2"
proof -
  let ?x = "f32_value v"
  have fl: "in_s32 \<lfloor>?x\<rfloor>" using assms(2,3) by (simp add: in_s32_def le_floor_iff floor_le_iff)
  have ce: "in_s32 \<lceil>?x\<rceil>" using assms(2,3) by (simp add: in_s32_def ceiling_le_iff le_ceiling_iff)
  let ?n = "dyadic_nearest (f32_significand v) (f32_scale v)"
  have near: "\<bar>of_int ?n - ?x\<bar> \<le> 1 / 2"
    using dyadic_nearest(1) by (simp add: f32_value_def)
  have ne: "in_s32 ?n"
  proof -
    have "of_int ?n < (of_int (2 ^ 31) :: rat)" "of_int (- (2 ^ 31) - 1) < (of_int ?n :: rat)"
      using near assms(2,3) by (simp_all add: abs_if split: if_splits)
    then show ?thesis unfolding of_int_less_iff by (simp add: in_s32_def)
  qed
  show ?thesis
    using assms(1) fl ce ne near
    by (simp add: rounded_word_def Let_def dyadic_floor dyadic_ceil dyadic_trunc sint_of_s32 flip: f32_value_def)
qed

lemma rounded_word_modes_witness: "sint (rounded_word 0xc0200000 3) = -3"
  using rounded_word_modes [of "0xc0200000"]
  by (simp add: f32_value_def dyadic_def f32_significand_def f32_scale_def f32_exponent_def
      f32_fraction_def f32_sign_def f32_finite_def Let_def floor_eq_iff)

text \<open>
  Outside that range, and for infinities and NaN, every mode gives the pattern 0x80000000.
\<close>

theorem rounded_word_saturates:
  assumes "\<not> f32_finite v \<or> f32_value v < - (2 ^ 31) - 1 \<or> 2 ^ 31 < f32_value v"
  shows "rounded_word v mode = 0x80000000"
proof -
  let ?x = "f32_value v"
  let ?n = "dyadic_nearest (f32_significand v) (f32_scale v)"
  have "\<bar>of_int ?n - ?x\<bar> \<le> 1 / 2" using dyadic_nearest(1) by (simp add: f32_value_def)
  then have near: "of_int ?n \<le> ?x + 1 / 2" "?x - 1 / 2 \<le> of_int ?n" by linarith+
  have fl: "of_int \<lfloor>?x\<rfloor> \<le> ?x" "?x < of_int \<lfloor>?x\<rfloor> + 1" by linarith+
  have ce: "?x \<le> of_int \<lceil>?x\<rceil>" "of_int \<lceil>?x\<rceil> < ?x + 1" by linarith+
  have s32: "in_s32 k \<longleftrightarrow> - (2 ^ 31) \<le> (of_int k :: rat) \<and> (of_int k :: rat) \<le> 2 ^ 31 - 1" for k
    unfolding in_s32_def of_int_le_iff [symmetric, where 'a = rat] by simp
  have out: "\<not> in_s32 ?n \<and> \<not> in_s32 \<lfloor>?x\<rfloor> \<and> \<not> in_s32 \<lceil>?x\<rceil>" if "f32_finite v"
    using assms that near fl ce unfolding s32 by (intro conjI) linarith+
  then show ?thesis
    by (auto simp: rounded_word_def Let_def dyadic_floor dyadic_ceil dyadic_trunc simp flip: f32_value_def)
qed

lemma rounded_word_saturates_witness: "rounded_word 0x4f000001 0 = 0x80000000"
  using rounded_word_saturates [of "0x4f000001" 0]
  by (simp add: f32_value_def dyadic_def f32_significand_def f32_scale_def f32_exponent_def
      f32_fraction_def f32_sign_def f32_finite_def Let_def)

section \<open>The order of bit patterns is the order of values\<close>

definition scaled :: "nat \<Rightarrow> nat" where
  "scaled m = (if m div 2 ^ 23 = 0 then m else (2 ^ 23 + m mod 2 ^ 23) * 2 ^ (m div 2 ^ 23 - 1))"

lemma scaled_split: "x < 2 ^ 23 \<Longrightarrow> scaled (e * 2 ^ 23 + x) = (if e = 0 then x else (2 ^ 23 + x) * 2 ^ (e - 1))"
  by (simp add: scaled_def)

lemma scaled_less:
  assumes "m < n" shows "scaled m < scaled n"
proof -
  define e where "e = m div 2 ^ 23"
  define f where "f = n div 2 ^ 23"
  define x where "x = m mod 2 ^ 23"
  define y where "y = n mod 2 ^ 23"
  have mn: "m = e * 2 ^ 23 + x" "n = f * 2 ^ 23 + y" by (simp_all only: e_def f_def x_def y_def div_mult_mod_eq)
  have xy: "x < 2 ^ 23" "y < 2 ^ 23" by (simp_all add: x_def y_def)
  have "e \<le> f" using assms unfolding e_def f_def by (intro div_le_mono) simp
  then consider "e = f" | "e < f" by linarith
  then show ?thesis
  proof cases
    case 1
    then show ?thesis using assms xy unfolding mn by (simp only: scaled_split) simp
  next
    case 2
    have "scaled m < 2 ^ 23 * 2 ^ e"
    proof (cases e)
      case 0 then show ?thesis using xy unfolding mn by (simp only: scaled_split) simp
    next
      case (Suc k)
      have "(2 ^ 23 + x) * 2 ^ k < (2 ^ 23 + 2 ^ 23) * 2 ^ k" using xy by (intro mult_strict_right_mono) simp_all
      then show ?thesis using xy Suc unfolding mn by (simp only: scaled_split) simp
    qed
    also have "\<dots> \<le> 2 ^ 23 * 2 ^ (f - 1)" using 2 by (intro mult_left_mono power_increasing) simp_all
    also have "\<dots> \<le> scaled n" using 2 xy unfolding mn by (simp only: scaled_split) simp
    finally show ?thesis .
  qed
qed

lemma f32_magnitude: "unat (b AND 0x7fffffff) = f32_exponent b * 2 ^ 23 + f32_fraction b" "f32_fraction b < 2 ^ 23"
  "f32_exponent b < 256"
proof -
  have m: "(0x7fffffff :: u32) = mask 31" "(0x7fffff :: u32) = mask 23" "(0xff :: u32) = mask 8" by (simp_all add: mask_eq_exp_minus_1)
  have n: "unat (b AND mask 31) = take_bit 31 (unat b)" "f32_fraction b = take_bit 23 (unat b)"
    "f32_exponent b = take_bit 8 (drop_bit 23 (unat b))"
    unfolding f32_fraction_def f32_exponent_def m by (simp_all add: unsigned_take_bit_eq unsigned_drop_bit_eq drop_bit_take_bit flip: take_bit_eq_mask)
  then show "f32_fraction b < 2 ^ 23" "f32_exponent b < 256" by (simp_all add: take_bit_eq_mod)
  have "take_bit 31 k = take_bit 8 (drop_bit 23 k) * 2 ^ 23 + take_bit 23 k" for k :: nat
    using mod_mult2_eq [of k "2 ^ 23" "2 ^ 8"] by (simp add: take_bit_eq_mod drop_bit_eq_div)
  then show "unat (b AND 0x7fffffff) = f32_exponent b * 2 ^ 23 + f32_fraction b"
    unfolding m n .
qed

lemma f32_value_scaled: "f32_value b = (if f32_sign b then -1 else 1) * of_nat (scaled (unat (b AND 0x7fffffff))) / 2 ^ 149"
proof -
  let ?s = "if f32_sign b then -1 else 1 :: rat"
  define e where "e = f32_exponent b"
  define x where "x = f32_fraction b"
  have x: "x < 2 ^ 23" unfolding x_def by (rule f32_magnitude)
  show ?thesis
  proof (cases "e = 0")
    case True
    then show ?thesis using x unfolding f32_magnitude(1)
      by (simp add: f32_value_def dyadic_def f32_scale_def f32_significand_def Let_def e_def x_def [symmetric] scaled_def)
  next
    case False
    have "scaled (e * 2 ^ 23 + x) = (2 ^ 23 + x) * 2 ^ (e - 1)" using False x by (simp only: scaled_split) simp
    moreover have "dyadic n (int e - 150) = of_int n * 2 ^ (e - 1) / 2 ^ 149" for n
    proof (cases "150 \<le> e")
      case True
      then obtain k where "e = 150 + k" using le_Suc_ex by blast
      then show ?thesis by (simp add: dyadic_def power_add)
    next
      case e: False
      then obtain k where "150 = e + k" "0 < k" using le_Suc_ex by (metis add_cancel_right_right gr0I le_refl nat_le_linear)
      then have P: "(2::rat) ^ 149 = 2 ^ (e - 1) * 2 ^ k" using False by (simp flip: power_add)
      moreover have "dyadic n (int e - 150) = of_int n / 2 ^ k"
      proof -
        have "nat (150 - int e) = k" "\<not> 150 \<le> e" using \<open>150 = e + k\<close> \<open>0 < k\<close> by linarith+
        then show ?thesis by (simp add: dyadic_def)
      qed
      ultimately show ?thesis unfolding P by simp
    qed
    ultimately show ?thesis using False unfolding f32_magnitude(1)
      by (simp add: f32_value_def f32_scale_def f32_significand_def Let_def flip: e_def x_def)
  qed
qed

lemma scaled_mono_iff: "scaled m < scaled n \<longleftrightarrow> m < n" "scaled m = scaled n \<longleftrightarrow> m = n"
  using scaled_less [of m n] scaled_less [of n m] by (metis less_irrefl less_linear not_less_iff_gr_or_eq)+

lemma scaled_0 [simp]: "scaled 0 = 0" by (simp add: scaled_def)

lemma scaled_pos: "0 < scaled m \<longleftrightarrow> 0 < m" using scaled_mono_iff(1) [of 0 m] by simp

definition with_sign :: "bool \<Rightarrow> nat \<Rightarrow> int" where
  "with_sign s m = (if s then - int m else int m)"

lemma with_sign_scaled:
  "with_sign s (scaled m) < with_sign t (scaled n) \<longleftrightarrow> with_sign s m < with_sign t n"
  "with_sign s (scaled m) = with_sign t (scaled n) \<longleftrightarrow> with_sign s m = with_sign t n"
  using scaled_mono_iff [of m n] scaled_mono_iff [of n m] scaled_pos [of m] scaled_pos [of n]
  by (auto simp: with_sign_def)

lemma f32_key_value:
  "f32_key a < f32_key b \<longleftrightarrow> f32_value a < f32_value b"
  "f32_key a = f32_key b \<longleftrightarrow> f32_value a = f32_value b"
proof -
  have k: "f32_key c = with_sign (f32_sign c) (unat (c AND 0x7fffffff))" for c
    by (simp add: f32_key_def with_sign_def Let_def)
  have v: "f32_value c = of_int (with_sign (f32_sign c) (scaled (unat (c AND 0x7fffffff)))) / 2 ^ 149" for c
    by (simp add: f32_value_scaled with_sign_def)
  have "x / 2 ^ 149 < y / 2 ^ 149 \<longleftrightarrow> x < y" "x / 2 ^ 149 = y / 2 ^ 149 \<longleftrightarrow> x = y" for x y :: rat
    by (simp_all add: divide_less_cancel)
  then show "f32_key a < f32_key b \<longleftrightarrow> f32_value a < f32_value b"
     "f32_key a = f32_key b \<longleftrightarrow> f32_value a = f32_value b"
    unfolding k v with_sign_scaled of_int_less_iff of_int_eq_iff by (simp_all only: with_sign_scaled of_int_less_iff of_int_eq_iff)
qed

text \<open>
  C.cond.s compares values. On finite operands the condition bit the comparison leaves is
  the requested disjunction of less and equal on the rational values; the unordered bit of
  the condition plays no part.
\<close>

theorem compare_f32_values:
  assumes "f32_finite a" "f32_finite b" "cc < 8"
  shows "fpu_condition (compare_f32 s cc a b condition) cc \<longleftrightarrow>
    (condition AND 4 \<noteq> 0 \<and> f32_value a < f32_value b) \<or> (condition AND 2 \<noteq> 0 \<and> f32_value a = f32_value b)"
  using assms by (simp add: compare_f32_def Let_def fpu_condition_set f32_is_nan_def f32_finite_def f32_key_value)

lemma compare_f32_values_witness:
  "fpu_condition (compare_f32 initial_state 1 0xbf800000 0x3f800000 4) 1"
  using compare_f32_values [of "0xbf800000" "0x3f800000" 1 initial_state 4]
  by (simp add: f32_value_def dyadic_def f32_significand_def f32_scale_def f32_exponent_def
      f32_fraction_def f32_sign_def f32_finite_def Let_def)

section \<open>Shifts, rotates and reversals\<close>

text \<open>
  The bit-twiddling helpers compute what their names say: the arithmetic shift is the signed
  shift by the low five bits of the amount, the rotate is the rotation to the right by them,
  the byte swap reverses the four bytes, and the bit reversal exchanges bit n with bit 31 - n.
\<close>

theorem bit_helpers:
  "arithmetic_shift_right v a = signed_drop_bit (unat (a AND 31)) v \<and>
   rotate_right v a = word_rotr (unat (a AND 31)) v \<and>
   bytes32 (byteswap32 v) = rev (bytes32 v) \<and>
   (\<forall>n. bit (reverse_bits v) n \<longleftrightarrow> n < 32 \<and> bit v (31 - n))"
proof (intro conjI allI arithmetic_shift_right_signed rotate_right_rotr byteswap_bytes)
  show "bit (reverse_bits v) n \<longleftrightarrow> n < 32 \<and> bit v (31 - n)" for n
    using reverse_bits_bit [of n v] bit_imp_le_length [of "reverse_bits v" n] by (cases "n < 32") auto
qed

end
