(* ===== verification/Decoder.thy ===== *)
theory Decoder
  imports Prelude
begin

text \<open>
  The Allegrex instruction decoder of \<open>include/psprecomp/allegrex_decoder.hpp\<close>, which the
  translator and the interpreter share, with the two VFPU predicates of
  \<open>include/psprecomp/vfpu.hpp\<close> it consults. \<open>decode_allegrex\<close> is a switch over the fields of
  the word; the header also declares the two encodings as mask and match tables
  (\<open>special_patterns\<close>, \<open>regimm_patterns\<close>), and the theorems here show that the switch and
  the tables are the same decoder.
\<close>

section \<open>Types\<close>

datatype InstructionLowering = Native | Guarded_native | Runtime_fallback | Invalid

definition instruction_none :: u8 where "instruction_none = 0"
definition instruction_delayed_branch :: u8 where "instruction_delayed_branch = 1"
definition instruction_likely :: u8 where "instruction_likely = 2"
definition instruction_call :: u8 where "instruction_call = 4"
definition instruction_dynamic_target :: u8 where "instruction_dynamic_target = 8"

lemmas instruction_flag_defs = instruction_none_def instruction_delayed_branch_def
  instruction_likely_def instruction_call_def instruction_dynamic_target_def

record DecodedInstruction =
  word :: u32
  op :: u32
  rs :: u32
  rt :: u32
  rd :: u32
  shift :: u32
  function_field :: u32
  lowering :: InstructionLowering
  flags :: u8
  name :: string

definition valid :: "DecodedInstruction \<Rightarrow> bool" where
  "valid d \<longleftrightarrow> lowering d \<noteq> Invalid"

definition has_flag :: "DecodedInstruction \<Rightarrow> u8 \<Rightarrow> bool" where
  "has_flag d flag \<longleftrightarrow> flags d AND flag \<noteq> 0"

section \<open>The pattern tables\<close>

record InstructionPattern =
  pattern_mask :: u32
  pattern_match :: u32
  pattern_name :: string

definition special_patterns :: "InstructionPattern list" where
  "special_patterns = [
    \<lparr>pattern_mask = 0xffe0003f, pattern_match = 0x00200002, pattern_name = ''rotr''\<rparr>,
    \<lparr>pattern_mask = 0xfc0007ff, pattern_match = 0x00000046, pattern_name = ''rotrv''\<rparr>,
    \<lparr>pattern_mask = 0xffe0003f, pattern_match = 0x00000002, pattern_name = ''srl''\<rparr>,
    \<lparr>pattern_mask = 0xfc0007ff, pattern_match = 0x00000006, pattern_name = ''srlv''\<rparr>,
    \<lparr>pattern_mask = 0xffe0003f, pattern_match = 0x00000000, pattern_name = ''sll''\<rparr>,
    \<lparr>pattern_mask = 0xffe0003f, pattern_match = 0x00000003, pattern_name = ''sra''\<rparr>,
    \<lparr>pattern_mask = 0xfc0007ff, pattern_match = 0x00000004, pattern_name = ''sllv''\<rparr>,
    \<lparr>pattern_mask = 0xfc0007ff, pattern_match = 0x00000007, pattern_name = ''srav''\<rparr>,
    \<lparr>pattern_mask = 0xfc00003f, pattern_match = 0x00000008, pattern_name = ''jr''\<rparr>,
    \<lparr>pattern_mask = 0xfc00003f, pattern_match = 0x00000009, pattern_name = ''jalr''\<rparr>,
    \<lparr>pattern_mask = 0xfc00003f, pattern_match = 0x0000000a, pattern_name = ''movz''\<rparr>,
    \<lparr>pattern_mask = 0xfc00003f, pattern_match = 0x0000000b, pattern_name = ''movn''\<rparr>,
    \<lparr>pattern_mask = 0xfc00003f, pattern_match = 0x0000000c, pattern_name = ''syscall''\<rparr>,
    \<lparr>pattern_mask = 0xfc00003f, pattern_match = 0x0000000d, pattern_name = ''break''\<rparr>,
    \<lparr>pattern_mask = 0xfc00003f, pattern_match = 0x0000000f, pattern_name = ''sync''\<rparr>,
    \<lparr>pattern_mask = 0xfc00003f, pattern_match = 0x00000010, pattern_name = ''mfhi''\<rparr>,
    \<lparr>pattern_mask = 0xfc00003f, pattern_match = 0x00000011, pattern_name = ''mthi''\<rparr>,
    \<lparr>pattern_mask = 0xfc00003f, pattern_match = 0x00000012, pattern_name = ''mflo''\<rparr>,
    \<lparr>pattern_mask = 0xfc00003f, pattern_match = 0x00000013, pattern_name = ''mtlo''\<rparr>,
    \<lparr>pattern_mask = 0xfc00003f, pattern_match = 0x00000016, pattern_name = ''clz''\<rparr>,
    \<lparr>pattern_mask = 0xfc00003f, pattern_match = 0x00000017, pattern_name = ''clo''\<rparr>,
    \<lparr>pattern_mask = 0xfc00003f, pattern_match = 0x00000018, pattern_name = ''mult''\<rparr>,
    \<lparr>pattern_mask = 0xfc00003f, pattern_match = 0x00000019, pattern_name = ''multu''\<rparr>,
    \<lparr>pattern_mask = 0xfc00003f, pattern_match = 0x0000001a, pattern_name = ''div''\<rparr>,
    \<lparr>pattern_mask = 0xfc00003f, pattern_match = 0x0000001b, pattern_name = ''divu''\<rparr>,
    \<lparr>pattern_mask = 0xfc00003f, pattern_match = 0x0000001c, pattern_name = ''madd''\<rparr>,
    \<lparr>pattern_mask = 0xfc00003f, pattern_match = 0x0000001d, pattern_name = ''maddu''\<rparr>,
    \<lparr>pattern_mask = 0xfc00003f, pattern_match = 0x00000020, pattern_name = ''add''\<rparr>,
    \<lparr>pattern_mask = 0xfc00003f, pattern_match = 0x00000021, pattern_name = ''addu''\<rparr>,
    \<lparr>pattern_mask = 0xfc00003f, pattern_match = 0x00000022, pattern_name = ''sub''\<rparr>,
    \<lparr>pattern_mask = 0xfc00003f, pattern_match = 0x00000023, pattern_name = ''subu''\<rparr>,
    \<lparr>pattern_mask = 0xfc00003f, pattern_match = 0x00000024, pattern_name = ''and''\<rparr>,
    \<lparr>pattern_mask = 0xfc00003f, pattern_match = 0x00000025, pattern_name = ''or''\<rparr>,
    \<lparr>pattern_mask = 0xfc00003f, pattern_match = 0x00000026, pattern_name = ''xor''\<rparr>,
    \<lparr>pattern_mask = 0xfc00003f, pattern_match = 0x00000027, pattern_name = ''nor''\<rparr>,
    \<lparr>pattern_mask = 0xfc00003f, pattern_match = 0x0000002a, pattern_name = ''slt''\<rparr>,
    \<lparr>pattern_mask = 0xfc00003f, pattern_match = 0x0000002b, pattern_name = ''sltu''\<rparr>,
    \<lparr>pattern_mask = 0xfc00003f, pattern_match = 0x0000002c, pattern_name = ''max''\<rparr>,
    \<lparr>pattern_mask = 0xfc00003f, pattern_match = 0x0000002d, pattern_name = ''min''\<rparr>,
    \<lparr>pattern_mask = 0xfc00003f, pattern_match = 0x0000002e, pattern_name = ''msub''\<rparr>,
    \<lparr>pattern_mask = 0xfc00003f, pattern_match = 0x0000002f, pattern_name = ''msubu''\<rparr>]"

definition regimm_patterns :: "InstructionPattern list" where
  "regimm_patterns = [
    \<lparr>pattern_mask = 0xfc1f0000, pattern_match = 0x04000000, pattern_name = ''bltz''\<rparr>,
    \<lparr>pattern_mask = 0xfc1f0000, pattern_match = 0x04010000, pattern_name = ''bgez''\<rparr>,
    \<lparr>pattern_mask = 0xfc1f0000, pattern_match = 0x04020000, pattern_name = ''bltzl''\<rparr>,
    \<lparr>pattern_mask = 0xfc1f0000, pattern_match = 0x04030000, pattern_name = ''bgezl''\<rparr>,
    \<lparr>pattern_mask = 0xfc1f0000, pattern_match = 0x04100000, pattern_name = ''bltzal''\<rparr>,
    \<lparr>pattern_mask = 0xfc1f0000, pattern_match = 0x04110000, pattern_name = ''bgezal''\<rparr>,
    \<lparr>pattern_mask = 0xfc1f0000, pattern_match = 0x04120000, pattern_name = ''bltzall''\<rparr>,
    \<lparr>pattern_mask = 0xfc1f0000, pattern_match = 0x04130000, pattern_name = ''bgezall''\<rparr>]"

definition find_pattern :: "u32 \<Rightarrow> InstructionPattern list \<Rightarrow> InstructionPattern option" where
  "find_pattern w patterns = find (\<lambda>p. w AND pattern_mask p = pattern_match p) patterns"

section \<open>VFPU opcodes\<close>

datatype VfpuStaticOperation = Vfpu_none | Vfpu_add | Vfpu_subtract | Vfpu_multiply | Vfpu_dot | Vfpu_move

definition vfpu_static_operation :: "u32 \<Rightarrow> VfpuStaticOperation" where
  "vfpu_static_operation instruction =
     (let opc = drop_bit 26 instruction; type = drop_bit 23 instruction AND 7 in
      if opc = 0x18 \<and> type = 0 then Vfpu_add
      else if opc = 0x18 \<and> type = 1 then Vfpu_subtract
      else if opc = 0x19 \<and> type = 0 then Vfpu_multiply
      else if opc = 0x19 \<and> type = 1 then Vfpu_dot
      else if opc = 0x34 \<and> drop_bit 21 instruction AND 31 = 0 \<and>
              drop_bit 16 instruction AND 31 = 0 then Vfpu_move
      else Vfpu_none)"

definition vfpu_opcode_supported :: "u32 \<Rightarrow> bool" where
  "vfpu_opcode_supported instruction =
     (let opc = drop_bit 26 instruction; sub3 = drop_bit 23 instruction AND 7 in
      if opc = 0x12 then
        (let r = drop_bit 21 instruction AND 31 in r = 3 \<or> r = 7 \<or> r = 8)
      else if opc = 0x18 then sub3 = 0 \<or> sub3 = 1 \<or> sub3 = 2 \<or> sub3 = 3 \<or> sub3 = 7
      else if opc = 0x19 then
        sub3 \<le> 2 \<or> sub3 = 4 \<or> sub3 = 6 \<or> instruction AND 0xff808080 = 0x66808000
      else if opc = 0x1b then
        sub3 = 0 \<or> sub3 = 2 \<or> sub3 = 3 \<or>
        instruction AND 0xff808080 = 0x6e808000 \<or> instruction AND 0xff808080 = 0x6f808080
      else if opc = 0x32 \<or> opc = 0x35 \<or> opc = 0x36 \<or> opc = 0x3a \<or>
              opc = 0x3d \<or> opc = 0x3e \<or> opc = 0x3f then True
      else if opc = 0x37 then sub3 \<le> 7
      else if opc = 0x34 then
        (let group = drop_bit 21 instruction AND 31; type = drop_bit 16 instruction AND 31 in
         if group = 0 then
           type = 0 \<or> type = 1 \<or> type = 2 \<or> type = 3 \<or> type = 4 \<or> type = 5 \<or> type = 6 \<or>
           type = 7 \<or> (16 \<le> type \<and> type \<le> 26)
         else if group = 1 then 24 \<le> type
         else if group = 2 then
           type = 1 \<or> type = 2 \<or> type = 3 \<or> type = 5 \<or> type = 6 \<or> type = 7 \<or> type = 8 \<or>
           type = 9 \<or> type = 10 \<or> type = 25
         else if group = 3 then type \<le> 19
         else 16 \<le> group \<and> group \<le> 21)
      else if opc = 0x3c then
        (let group = drop_bit 21 instruction AND 31 in
         group \<le> 3 \<or> (12 \<le> group \<and> group \<le> 15) \<or> (20 \<le> group \<and> group \<le> 23) \<or> group = 29 \<or>
         instruction AND 0xff808080 = 0xf1008000 \<or>
         instruction AND 0xff808080 = 0xf2008080 \<or>
         instruction AND 0xffff0000 = 0xf3800000 \<or>
         instruction AND 0xffffff80 = 0xf3838080 \<or>
         instruction AND 0xffffff80 = 0xf3868080 \<or>
         instruction AND 0xffffff80 = 0xf3878080)
      else False)"

section \<open>The switch\<close>

definition decode_fields :: "u32 \<Rightarrow> DecodedInstruction" where
  "decode_fields w = \<lparr>
     word = w,
     op = drop_bit 26 w,
     rs = drop_bit 21 w AND 31,
     rt = drop_bit 16 w AND 31,
     rd = drop_bit 11 w AND 31,
     shift = drop_bit 6 w AND 31,
     function_field = w AND 63,
     lowering = Invalid,
     flags = instruction_none,
     name = ''invalid''\<rparr>"

definition native_lowering :: "DecodedInstruction \<Rightarrow> string \<Rightarrow> u8 \<Rightarrow> DecodedInstruction" where
  "native_lowering d n f = d\<lparr>lowering := Native, name := n, flags := f\<rparr>"

definition decode_vfpu :: "DecodedInstruction \<Rightarrow> DecodedInstruction" where
  "decode_vfpu d =
     (let operation = vfpu_static_operation (word d);
          low = (if operation = Vfpu_none then Runtime_fallback else Guarded_native);
          n = (case operation of
                 Vfpu_add \<Rightarrow> ''vadd'' | Vfpu_subtract \<Rightarrow> ''vsub'' | Vfpu_multiply \<Rightarrow> ''vmul''
               | Vfpu_dot \<Rightarrow> ''vdot'' | Vfpu_move \<Rightarrow> ''vmov'' | Vfpu_none \<Rightarrow> ''vfpu'');
          fl = (if op d = 0x12 \<and> rs d = 0x08
                then (if rt d AND 2 \<noteq> 0 then instruction_delayed_branch OR instruction_likely
                      else instruction_delayed_branch)
                else flags d)
      in d\<lparr>lowering := low, name := n, flags := fl\<rparr>)"

definition decode_special :: "DecodedInstruction \<Rightarrow> DecodedInstruction" where
  "decode_special d =
     (let function = function_field d in
      if function = 0x00 then (if rs d = 0 then native_lowering d ''sll'' instruction_none else d)
      else if function = 0x02 then
        (if rs d = 1 then native_lowering d ''rotr'' instruction_none
         else if rs d = 0 then native_lowering d ''srl'' instruction_none else d)
      else if function = 0x03 then (if rs d = 0 then native_lowering d ''sra'' instruction_none else d)
      else if function = 0x04 then (if shift d = 0 then native_lowering d ''sllv'' instruction_none else d)
      else if function = 0x06 then
        (if shift d = 1 then native_lowering d ''rotrv'' instruction_none
         else if shift d = 0 then native_lowering d ''srlv'' instruction_none else d)
      else if function = 0x07 then (if shift d = 0 then native_lowering d ''srav'' instruction_none else d)
      else if function = 0x08 then
        native_lowering d ''jr'' (instruction_delayed_branch OR instruction_dynamic_target)
      else if function = 0x09 then
        native_lowering d ''jalr'' (instruction_delayed_branch OR instruction_dynamic_target OR instruction_call)
      else if function = 0x0a then native_lowering d ''movz'' instruction_none
      else if function = 0x0b then native_lowering d ''movn'' instruction_none
      else if function = 0x0c then native_lowering d ''syscall'' instruction_none
      else if function = 0x0d then native_lowering d ''break'' instruction_none
      else if function = 0x0f then native_lowering d ''sync'' instruction_none
      else if function = 0x10 then native_lowering d ''mfhi'' instruction_none
      else if function = 0x11 then native_lowering d ''mthi'' instruction_none
      else if function = 0x12 then native_lowering d ''mflo'' instruction_none
      else if function = 0x13 then native_lowering d ''mtlo'' instruction_none
      else if function = 0x16 then native_lowering d ''clz'' instruction_none
      else if function = 0x17 then native_lowering d ''clo'' instruction_none
      else if function = 0x18 then native_lowering d ''mult'' instruction_none
      else if function = 0x19 then native_lowering d ''multu'' instruction_none
      else if function = 0x1a then native_lowering d ''div'' instruction_none
      else if function = 0x1b then native_lowering d ''divu'' instruction_none
      else if function = 0x1c then native_lowering d ''madd'' instruction_none
      else if function = 0x1d then native_lowering d ''maddu'' instruction_none
      else if function = 0x20 then native_lowering d ''add'' instruction_none
      else if function = 0x21 then native_lowering d ''addu'' instruction_none
      else if function = 0x22 then native_lowering d ''sub'' instruction_none
      else if function = 0x23 then native_lowering d ''subu'' instruction_none
      else if function = 0x24 then native_lowering d ''and'' instruction_none
      else if function = 0x25 then native_lowering d ''or'' instruction_none
      else if function = 0x26 then native_lowering d ''xor'' instruction_none
      else if function = 0x27 then native_lowering d ''nor'' instruction_none
      else if function = 0x2a then native_lowering d ''slt'' instruction_none
      else if function = 0x2b then native_lowering d ''sltu'' instruction_none
      else if function = 0x2c then native_lowering d ''max'' instruction_none
      else if function = 0x2d then native_lowering d ''min'' instruction_none
      else if function = 0x2e then native_lowering d ''msub'' instruction_none
      else if function = 0x2f then native_lowering d ''msubu'' instruction_none
      else d)"

definition decode_regimm :: "DecodedInstruction \<Rightarrow> DecodedInstruction" where
  "decode_regimm d =
     (let B = instruction_delayed_branch; L = instruction_likely; C = instruction_call in
      if rt d = 0x00 then native_lowering d ''bltz'' B
      else if rt d = 0x01 then native_lowering d ''bgez'' B
      else if rt d = 0x02 then native_lowering d ''bltzl'' (B OR L)
      else if rt d = 0x03 then native_lowering d ''bgezl'' (B OR L)
      else if rt d = 0x10 then native_lowering d ''bltzal'' (B OR C)
      else if rt d = 0x11 then native_lowering d ''bgezal'' (B OR C)
      else if rt d = 0x12 then native_lowering d ''bltzall'' (B OR (C OR L))
      else if rt d = 0x13 then native_lowering d ''bgezall'' (B OR (C OR L))
      else d)"

definition decode_cop1 :: "DecodedInstruction \<Rightarrow> DecodedInstruction" where
  "decode_cop1 d =
     (let function = function_field d;
          scalar_operation = (rs d = 0x10 \<and>
            (function \<le> 0x07 \<or> (0x0c \<le> function \<and> function \<le> 0x0f) \<or> function = 0x11 \<or>
             function = 0x20 \<or> function = 0x24 \<or> 0x30 \<le> function));
          word_to_single = (rs d = 0x14 \<and> function = 0x20)
      in if rs d = 0x00 \<or> rs d = 0x02 \<or> rs d = 0x04 \<or> rs d = 0x06 \<or> scalar_operation \<or> word_to_single
         then native_lowering d ''cop1'' instruction_none
         else if rs d = 0x08 then
           native_lowering d ''bc1'' (instruction_delayed_branch OR
             (if rt d AND 2 \<noteq> 0 then instruction_likely else instruction_none))
         else d)"

definition decode_opcode :: "DecodedInstruction \<Rightarrow> DecodedInstruction" where
  "decode_opcode d =
     (let N = instruction_none; B = instruction_delayed_branch; L = instruction_likely;
          function = function_field d in
      if op d = 0x02 then native_lowering d ''j'' B
      else if op d = 0x03 then native_lowering d ''jal'' (B OR instruction_call)
      else if op d = 0x04 then native_lowering d ''beq'' B
      else if op d = 0x05 then native_lowering d ''bne'' B
      else if op d = 0x06 then native_lowering d ''blez'' B
      else if op d = 0x07 then native_lowering d ''bgtz'' B
      else if op d = 0x08 then native_lowering d ''addi'' N
      else if op d = 0x09 then native_lowering d ''addiu'' N
      else if op d = 0x0a then native_lowering d ''slti'' N
      else if op d = 0x0b then native_lowering d ''sltiu'' N
      else if op d = 0x0c then native_lowering d ''andi'' N
      else if op d = 0x0d then native_lowering d ''ori'' N
      else if op d = 0x0e then native_lowering d ''xori'' N
      else if op d = 0x0f then native_lowering d ''lui'' N
      else if op d = 0x11 then decode_cop1 d
      else if op d = 0x14 then native_lowering d ''beql'' (B OR L)
      else if op d = 0x15 then native_lowering d ''bnel'' (B OR L)
      else if op d = 0x16 then native_lowering d ''blezl'' (B OR L)
      else if op d = 0x17 then native_lowering d ''bgtzl'' (B OR L)
      else if op d = 0x1c then
        (if function = 0x20 \<or> function = 0x21 \<or> function = 0x2c \<or> function = 0x2d
         then native_lowering d ''special2'' N else d)
      else if op d = 0x1f then
        (if function = 0 \<or> (function = 4 \<and> shift d \<le> rd d) \<or>
            (function = 0x20 \<and> (shift d = 0x02 \<or> shift d = 0x03 \<or> shift d = 0x10 \<or>
               shift d = 0x14 \<or> shift d = 0x18))
         then native_lowering d ''special3'' N else d)
      else if op d = 0x20 then native_lowering d ''lb'' N
      else if op d = 0x21 then native_lowering d ''lh'' N
      else if op d = 0x22 then native_lowering d ''lwl'' N
      else if op d = 0x23 then native_lowering d ''lw'' N
      else if op d = 0x24 then native_lowering d ''lbu'' N
      else if op d = 0x25 then native_lowering d ''lhu'' N
      else if op d = 0x26 then native_lowering d ''lwr'' N
      else if op d = 0x28 then native_lowering d ''sb'' N
      else if op d = 0x29 then native_lowering d ''sh'' N
      else if op d = 0x2a then native_lowering d ''swl'' N
      else if op d = 0x2b then native_lowering d ''sw'' N
      else if op d = 0x2e then native_lowering d ''swr'' N
      else if op d = 0x2f then native_lowering d ''cache'' N
      else if op d = 0x30 then native_lowering d ''ll'' N
      else if op d = 0x31 then native_lowering d ''lwc1'' N
      else if op d = 0x38 then native_lowering d ''sc'' N
      else if op d = 0x39 then native_lowering d ''swc1'' N
      else d)"

definition decode_allegrex :: "u32 \<Rightarrow> DecodedInstruction" where
  "decode_allegrex w =
     (let d = decode_fields w in
      if vfpu_opcode_supported w then decode_vfpu d
      else if op d = 0 then decode_special d
      else if op d = 1 then decode_regimm d
      else decode_opcode d)"

section \<open>Words and their fields\<close>

lemma small_masks: "(31 :: u32) = mask 5" "(63 :: u32) = mask 6"
  by (simp_all add: mask_eq_exp_minus_1)

lemma pack_fields:
  fixes x y :: u32
  assumes "6 \<le> n" "n \<le> 27"
  shows "drop_bit n (push_bit n (x AND 31) OR (y AND 63)) AND 31 = x AND 31"
    and "(push_bit n (x AND 31) OR (y AND 63)) AND 63 = y AND 63"
  unfolding small_masks using assms
  by (auto intro!: bit_word_eqI simp: bit_simps)

lemma masked_fields:
  fixes w :: u32
  shows "w AND (push_bit n 31 OR 63) = push_bit n (drop_bit n w AND 31) OR (w AND 63)"
  by (auto intro!: bit_word_eqI simp: bit_simps)

lemma fields_eq:
  fixes w :: u32
  assumes "6 \<le> n" "n \<le> 27" "a AND 31 = a" "b AND 63 = b"
  shows "w AND (push_bit n 31 OR 63) = push_bit n a OR b \<longleftrightarrow> drop_bit n w AND 31 = a \<and> w AND 63 = b"
  unfolding masked_fields
  using pack_fields [OF assms(1,2), of "drop_bit n w" w] pack_fields [OF assms(1,2), of a b] assms(3,4)
  by metis

lemma top_bits_clear:
  fixes w :: u32
  assumes "drop_bit 26 w = 0"
  shows "w AND (m OR 0xfc000000) = w AND m"
proof -
  have m: "(0xfc000000 :: u32) = NOT (mask 26)" by (simp add: mask_eq_exp_minus_1)
  have "w AND 0xfc000000 = push_bit 26 (drop_bit 26 w)"
    unfolding m by (auto intro!: bit_word_eqI simp: bit_simps)
  then show ?thesis using assms by (simp add: bit.conj_disj_distrib)
qed

lemma special_rs_pattern:
  fixes w :: u32
  assumes "drop_bit 26 w = 0"
  shows "w AND 0xffe0003f = c \<longleftrightarrow> w AND 0x03e0003f = c"
    "w AND 0xfc0007ff = c \<longleftrightarrow> w AND 0x7ff = c"
    "w AND 0xfc00003f = c \<longleftrightarrow> w AND 63 = c"
  using top_bits_clear [OF assms, of "0x03e0003f"] top_bits_clear [OF assms, of "0x7ff"]
    top_bits_clear [OF assms, of 63] by simp_all

lemma special_pattern_fields:
  fixes w :: u32
  assumes "drop_bit 26 w = 0"
  shows
    "w AND 0xffe0003f = 0x00200002 \<longleftrightarrow> drop_bit 21 w AND 31 = 1 \<and> w AND 63 = 2"
    "w AND 0xffe0003f = 2 \<longleftrightarrow> drop_bit 21 w AND 31 = 0 \<and> w AND 63 = 2"
    "w AND 0xffe0003f = 0 \<longleftrightarrow> drop_bit 21 w AND 31 = 0 \<and> w AND 63 = 0"
    "w AND 0xffe0003f = 3 \<longleftrightarrow> drop_bit 21 w AND 31 = 0 \<and> w AND 63 = 3"
    "w AND 0xfc0007ff = 0x46 \<longleftrightarrow> drop_bit 6 w AND 31 = 1 \<and> w AND 63 = 6"
    "w AND 0xfc0007ff = 6 \<longleftrightarrow> drop_bit 6 w AND 31 = 0 \<and> w AND 63 = 6"
    "w AND 0xfc0007ff = 4 \<longleftrightarrow> drop_bit 6 w AND 31 = 0 \<and> w AND 63 = 4"
    "w AND 0xfc0007ff = 7 \<longleftrightarrow> drop_bit 6 w AND 31 = 0 \<and> w AND 63 = 7"
    "w AND 0xfc00003f = c \<longleftrightarrow> w AND 63 = c"
  unfolding special_rs_pattern [OF assms]
  using fields_eq [of 21 1 2 w] fields_eq [of 21 0 2 w] fields_eq [of 21 0 0 w] fields_eq [of 21 0 3 w]
    fields_eq [of 6 1 6 w] fields_eq [of 6 0 6 w] fields_eq [of 6 0 4 w] fields_eq [of 6 0 7 w]
  by simp_all

lemma find_pattern_simps:
  "find_pattern w [] = None"
  "find_pattern w (p # ps) = (if w AND pattern_mask p = pattern_match p then Some p else find_pattern w ps)"
  by (simp_all add: find_pattern_def)

lemma case_find_if:
  "(b \<Longrightarrow> S p) \<Longrightarrow> (\<not> b \<Longrightarrow> case X of Some q \<Rightarrow> S q | None \<Rightarrow> N) \<Longrightarrow>
   (case (if b then Some p else X) of Some q \<Rightarrow> S q | None \<Rightarrow> N)"
  by simp

lemma native_lowering_simps [simp]:
  "lowering (native_lowering d n f) = Native" "name (native_lowering d n f) = n"
  "flags (native_lowering d n f) = f"
  by (simp_all add: native_lowering_def)

lemma decode_fields_simps [simp]:
  "word (decode_fields w) = w" "op (decode_fields w) = drop_bit 26 w" "rs (decode_fields w) = drop_bit 21 w AND 31"
  "rt (decode_fields w) = drop_bit 16 w AND 31" "rd (decode_fields w) = drop_bit 11 w AND 31"
  "shift (decode_fields w) = drop_bit 6 w AND 31" "function_field (decode_fields w) = w AND 63"
  "lowering (decode_fields w) = Invalid" "flags (decode_fields w) = 0" "name (decode_fields w) = ''invalid''"
  by (simp_all add: decode_fields_def instruction_none_def)

lemma decode_special_table:
  assumes "drop_bit 26 w = 0"
  shows "(case find_pattern w special_patterns of
            Some p \<Rightarrow> lowering (decode_allegrex w) = Native \<and> name (decode_allegrex w) = pattern_name p
          | None \<Rightarrow> \<not> valid (decode_allegrex w))"
proof -
  have "\<not> vfpu_opcode_supported w" using assms by (simp add: vfpu_opcode_supported_def Let_def)
  then have d: "decode_allegrex w = decode_special (decode_fields w)"
    using assms by (simp add: decode_allegrex_def Let_def)
  show ?thesis
    unfolding special_patterns_def find_pattern_simps InstructionPattern.simps special_pattern_fields [OF assms] d
    by (intro case_find_if) (simp_all add: decode_special_def Let_def valid_def)
qed
lemma regimm_pattern_fields:
  fixes w :: u32
  assumes "drop_bit 26 w = 1" "t AND 31 = t" "c = push_bit 26 1 OR push_bit 16 t"
  shows "w AND 0xfc1f0000 = c \<longleftrightarrow> drop_bit 16 w AND 31 = t"
proof -
  have m: "(0xfc000000 :: u32) = NOT (mask 26)" "(0x001f0000 :: u32) = push_bit 16 (mask 5)" 
     "(0x0000ffff :: u32) = mask 16"
    by (simp_all add: mask_eq_exp_minus_1)
  have hi: "w AND 0xfc000000 = push_bit 26 (drop_bit 26 w)"
    unfolding m by (auto intro!: bit_word_eqI simp: bit_simps)
  have lo: "w AND 0x001f0000 = push_bit 16 (drop_bit 16 w AND 31)"
    unfolding m small_masks by (auto intro!: bit_word_eqI simp: bit_simps)
  have w: "w AND 0xfc1f0000 = push_bit 26 1 OR push_bit 16 (drop_bit 16 w AND 31)"
    using hi lo assms(1) bit.conj_disj_distrib [of w "0xfc000000" "0x001f0000"] by simp
  have "drop_bit 16 (push_bit 26 y OR push_bit 16 (x AND 31)) AND 31 = x AND (31 :: u32)" for x y :: u32
    unfolding small_masks by (auto intro!: bit_word_eqI simp: bit_simps)
  then show ?thesis unfolding w assms(3) using assms(2) by metis
qed

lemma decode_regimm_table:
  assumes "drop_bit 26 w = 1"
  shows "(case find_pattern w regimm_patterns of
            Some p \<Rightarrow> lowering (decode_allegrex w) = Native \<and> name (decode_allegrex w) = pattern_name p
          | None \<Rightarrow> \<not> valid (decode_allegrex w))"
proof -
  have v: "\<not> vfpu_opcode_supported w" using assms by (simp add: vfpu_opcode_supported_def Let_def)
  show ?thesis
    unfolding regimm_patterns_def find_pattern_simps
    using v assms regimm_pattern_fields [OF assms, of 0 "0x04000000"]
      regimm_pattern_fields [OF assms, of 1 "0x04010000"] regimm_pattern_fields [OF assms, of 2 "0x04020000"]
      regimm_pattern_fields [OF assms, of 3 "0x04030000"] regimm_pattern_fields [OF assms, of 16 "0x04100000"]
      regimm_pattern_fields [OF assms, of 17 "0x04110000"] regimm_pattern_fields [OF assms, of 18 "0x04120000"]
      regimm_pattern_fields [OF assms, of 19 "0x04130000"]
    by (simp add: decode_allegrex_def decode_regimm_def decode_fields_def native_lowering_def valid_def Let_def)
qed

text \<open>
  C27. The switch and the pattern tables are the same decoder. For the two opcodes the header
  tabulates (SPECIAL and REGIMM), \<open>decode_allegrex\<close> accepts a word exactly when a table
  entry matches it, lowers it natively and gives it the name of the first entry that
  matches (so \<open>rotr\<close> and \<open>rotrv\<close> take precedence over \<open>srl\<close> and \<open>srlv\<close> in both).
\<close>

theorem decode_matches_tables:
  assumes "drop_bit 26 w = 0 \<or> drop_bit 26 w = 1"
  shows "(case find_pattern w (if drop_bit 26 w = 0 then special_patterns else regimm_patterns) of
            Some p \<Rightarrow> lowering (decode_allegrex w) = Native \<and> name (decode_allegrex w) = pattern_name p
          | None \<Rightarrow> \<not> valid (decode_allegrex w))"
  using assms decode_special_table [of w] decode_regimm_table [of w] by auto

lemma decode_matches_tables_witness:
  "name (decode_allegrex 0x00221882) = ''rotr''"
  using decode_matches_tables [of "0x00221882"]
  by (simp add: find_pattern_def special_patterns_def)

section \<open>Fields and flags\<close>

definition same_fields :: "DecodedInstruction \<Rightarrow> DecodedInstruction \<Rightarrow> bool" where
  "same_fields d e \<longleftrightarrow> word e = word d \<and> op e = op d \<and> rs e = rs d \<and> rt e = rt d \<and>
     rd e = rd d \<and> shift e = shift d \<and> function_field e = function_field d"

lemma same_fields_intros:
  "same_fields d d" "same_fields d (native_lowering d n f)" "same_fields d (d\<lparr>lowering := l, name := n, flags := f\<rparr>)"
  by (simp_all add: same_fields_def native_lowering_def)

lemma same_fields_if:
  "same_fields d x \<Longrightarrow> same_fields d y \<Longrightarrow> same_fields d (if b then x else y)"
  by simp

lemma decode_keeps_fields: "same_fields (decode_fields w) (decode_allegrex w)"
proof -
  have "same_fields d (decode_special d)" "same_fields d (decode_regimm d)" "same_fields d (decode_cop1 d)"
     "same_fields d (decode_vfpu d)" for d
    unfolding decode_special_def decode_regimm_def decode_cop1_def decode_vfpu_def Let_def
    by (intro same_fields_if same_fields_intros)+
  moreover from this have "same_fields d (decode_opcode d)" for d
    unfolding decode_opcode_def Let_def by (intro same_fields_if same_fields_intros)
  ultimately show ?thesis
    unfolding decode_allegrex_def Let_def by (intro same_fields_if)
qed

lemma decode_allegrex_fields [simp]:
  "word (decode_allegrex w) = w" "op (decode_allegrex w) = drop_bit 26 w"
  "rs (decode_allegrex w) = drop_bit 21 w AND 31" "rt (decode_allegrex w) = drop_bit 16 w AND 31"
  "rd (decode_allegrex w) = drop_bit 11 w AND 31" "shift (decode_allegrex w) = drop_bit 6 w AND 31"
  "function_field (decode_allegrex w) = w AND 63"
  using decode_keeps_fields [of w] by (simp_all add: same_fields_def)

text \<open>
  The decoded fields lose nothing: put back at their bit positions they give the
  instruction word again, for every word, whether it decodes to an instruction or not.
\<close>

theorem decode_reassemble:
  "push_bit 26 (op (decode_allegrex w)) OR push_bit 21 (rs (decode_allegrex w)) OR
   push_bit 16 (rt (decode_allegrex w)) OR push_bit 11 (rd (decode_allegrex w)) OR
   push_bit 6 (shift (decode_allegrex w)) OR function_field (decode_allegrex w) = w"
  unfolding decode_allegrex_fields small_masks
proof (rule bit_word_eqI)
  fix n assume "n < LENGTH(32)"
  then consider "n < 6" | "6 \<le> n" "n < 11" | "11 \<le> n" "n < 16" | "16 \<le> n" "n < 21" | "21 \<le> n" "n < 26" | "26 \<le> n" "n < 32"
    by fastforce
  then show "bit (push_bit 26 (drop_bit 26 w) OR push_bit 21 (drop_bit 21 w AND mask 5) OR
           push_bit 16 (drop_bit 16 w AND mask 5) OR push_bit 11 (drop_bit 11 w AND mask 5) OR
           push_bit 6 (drop_bit 6 w AND mask 5) OR w AND mask 6) n = bit w n"
    by cases (auto simp: bit_simps)
qed

definition flags_ok :: "DecodedInstruction \<Rightarrow> bool" where
  "flags_ok d \<longleftrightarrow>
     (has_flag d instruction_likely \<or> has_flag d instruction_call \<or>
      has_flag d instruction_dynamic_target \<longrightarrow> has_flag d instruction_delayed_branch) \<and>
     (valid d \<or> flags d = instruction_none)"

lemma flags_ok_if: "flags_ok x \<Longrightarrow> flags_ok y \<Longrightarrow> flags_ok (if b then x else y)"
  by simp

lemmas flags_ok_simps = flags_ok_def has_flag_def valid_def instruction_flag_defs

lemma decode_flags_steps:
  "flags_ok d \<Longrightarrow> flags_ok (decode_special d)"
  "flags_ok d \<Longrightarrow> flags_ok (decode_regimm d)"
  "flags_ok d \<Longrightarrow> flags_ok (decode_cop1 d)"
  "flags_ok d \<Longrightarrow> flags_ok (decode_opcode d)"
  "flags d = instruction_none \<Longrightarrow> flags_ok (decode_vfpu d)"
proof -
  show cop1: "flags_ok (decode_cop1 d)" if "flags_ok d" for d
    using that unfolding decode_cop1_def Let_def
    by (intro flags_ok_if) (simp_all add: flags_ok_simps)
  show "flags_ok d \<Longrightarrow> flags_ok (decode_special d)"
    unfolding decode_special_def Let_def
    by (intro flags_ok_if) (simp_all add: flags_ok_simps)
  show "flags_ok d \<Longrightarrow> flags_ok (decode_regimm d)"
    unfolding decode_regimm_def Let_def
    by (intro flags_ok_if) (simp_all add: flags_ok_simps)
  show "flags_ok (decode_opcode d)" if "flags_ok d"
    using that cop1 [OF that] unfolding decode_opcode_def Let_def
    by (intro flags_ok_if) (simp_all add: flags_ok_simps)
  show "flags d = instruction_none \<Longrightarrow> flags_ok (decode_vfpu d)"
    by (simp add: decode_vfpu_def Let_def flags_ok_simps)
qed

text \<open>
  The flags the analysis relies on are consistent: an instruction flagged likely, call or
  dynamic target is also flagged as a delayed branch, and an invalid word has no flag.
\<close>

theorem decode_flags: "flags_ok (decode_allegrex w)"
proof -
  have "flags_ok (decode_fields w)" "flags (decode_fields w) = instruction_none"
    by (simp_all add: flags_ok_simps)
  then show ?thesis
    unfolding decode_allegrex_def Let_def by (intro flags_ok_if decode_flags_steps)
qed

end
