(* ===== verification/Vfpu_Registers.thy ===== *)
theory Vfpu_Registers
  imports Cpu_Ops Decoder
begin

text \<open>
  The register file of the vector unit, from \<open>include/psprecomp/vfpu.hpp\<close>: how a register
  number names one, two, three or four of the 128 words (a column or a row of one of eight
  4 by 4 matrices) or a whole matrix, the source and destination prefixes, the conversion
  from half precision, and the short path \<open>execute_vfpu_prefix_free\<close> that translated code
  takes when no prefix is set.

  A C++ array \<open>float values[4]\<close> is a list of four bit patterns.
\<close>

section \<open>Register numbers\<close>

definition vfpu_size :: "u32 \<Rightarrow> nat" where
  "vfpu_size instruction =
     unat ((drop_bit 7 instruction AND 1) + (drop_bit 14 instruction AND 2) + 1)"

definition vfpu_row :: "u32 \<Rightarrow> nat \<Rightarrow> u32" where
  "vfpu_row r sz =
     (if sz = 1 then drop_bit 5 r AND 3
      else if sz = 2 \<or> sz = 4 then drop_bit 5 r AND 2
      else drop_bit 6 r AND 1)"

definition vfpu_index :: "u32 \<Rightarrow> nat \<Rightarrow> nat \<Rightarrow> u32" where
  "vfpu_index r sz lane =
     (let matrix = drop_bit 2 r AND 7; column = r AND 3; row = vfpu_row r sz;
          transpose = (sz \<noteq> 1 \<and> drop_bit 5 r AND 1 \<noteq> 0)
      in if transpose then matrix * 4 + ((row + of_nat lane) AND 3) + column * 32
         else matrix * 4 + column + ((row + of_nat lane) AND 3) * 32)"

definition vfpu_float :: "State \<Rightarrow> u32 \<Rightarrow> u32" where
  "vfpu_float s index = vfpu s (unat (index AND 127))"

definition set_vfpu :: "State \<Rightarrow> u32 \<Rightarrow> u32 \<Rightarrow> State" where
  "set_vfpu s index v = s\<lparr>vfpu := (vfpu s)(unat index := v)\<rparr>"

definition vfpu_read_vector :: "State \<Rightarrow> u32 \<Rightarrow> nat \<Rightarrow> u32 list" where
  "vfpu_read_vector s r sz =
     map (\<lambda>lane. vfpu_float s (vfpu_index r sz lane)) [0..<sz] @ replicate (4 - sz) 0"

definition vfpu_write_vector :: "State \<Rightarrow> u32 \<Rightarrow> nat \<Rightarrow> u32 list \<Rightarrow> State" where
  "vfpu_write_vector s r sz values =
     fold (\<lambda>lane s. if vfpu_ctrl s 2 AND push_bit (8 + lane) 1 = 0
                    then set_vfpu s (vfpu_index r sz lane) (values ! lane) else s)
       [0..<sz] s"

definition vfpu_matrix_index :: "u32 \<Rightarrow> nat \<Rightarrow> nat \<Rightarrow> nat \<Rightarrow> u32" where
  "vfpu_matrix_index r side j i =
     (let matrix = drop_bit 2 r AND 7; column = r AND 3;
          row = (if side = 3 then drop_bit 6 r AND 1 else drop_bit 5 r AND 2);
          transpose = (drop_bit 5 r AND 1 \<noteq> 0)
      in if transpose then matrix * 4 + (((row + of_nat i) AND 3) + ((column + of_nat j) AND 3) * 32)
         else matrix * 4 + (((column + of_nat j) AND 3) + ((row + of_nat i) AND 3) * 32))"

text \<open>Element \<open>(j, i)\<close> of a matrix is \<open>values[j * 4 + i]\<close>; the other places stay 0.\<close>

definition matrix_places :: "nat \<Rightarrow> (nat \<times> nat) list" where
  "matrix_places side = [(j, i). j \<leftarrow> [0..<side], i \<leftarrow> [0..<side]]"

definition vfpu_read_matrix :: "State \<Rightarrow> u32 \<Rightarrow> nat \<Rightarrow> u32 list" where
  "vfpu_read_matrix s r side =
     fold (\<lambda>(j, i) values. values[j * 4 + i := vfpu_float s (vfpu_matrix_index r side j i)])
       (matrix_places side) (replicate 16 0)"

definition vfpu_write_matrix :: "State \<Rightarrow> u32 \<Rightarrow> nat \<Rightarrow> u32 list \<Rightarrow> State" where
  "vfpu_write_matrix s r side values =
     fold (\<lambda>(j, i) s. set_vfpu s (vfpu_matrix_index r side j i) (values ! (j * 4 + i)))
       (matrix_places side) s"

section \<open>Comparison of single-precision values\<close>

definition f32_less :: "u32 \<Rightarrow> u32 \<Rightarrow> bool" where
  "f32_less a b \<longleftrightarrow> \<not> f32_is_nan a \<and> \<not> f32_is_nan b \<and> f32_key a < f32_key b"

definition f32_equal :: "u32 \<Rightarrow> u32 \<Rightarrow> bool" where
  "f32_equal a b \<longleftrightarrow> \<not> f32_is_nan a \<and> \<not> f32_is_nan b \<and> f32_key a = f32_key b"

text \<open>\<open>std::min\<close>, \<open>std::max\<close> and \<open>std::clamp\<close>, which return the first argument when a NaN is involved.\<close>

definition f32_min :: "u32 \<Rightarrow> u32 \<Rightarrow> u32" where
  "f32_min a b = (if f32_less b a then b else a)"

definition f32_max :: "u32 \<Rightarrow> u32 \<Rightarrow> u32" where
  "f32_max a b = (if f32_less a b then b else a)"

definition f32_clamp :: "u32 \<Rightarrow> u32 \<Rightarrow> u32 \<Rightarrow> u32" where
  "f32_clamp v low high = (if f32_less v low then low else if f32_less high v then high else v)"

abbreviation f32_one :: u32 where "f32_one \<equiv> 0x3f800000"
abbreviation f32_minus_one :: u32 where "f32_minus_one \<equiv> 0xbf800000"

section \<open>Prefixes\<close>

definition prefix_constants :: "u32 list" where
  "prefix_constants = [0, 0x3f800000, 0x40000000, 0x3f000000,
                       0x40400000, 0x3eaaaaab, 0x3e800000, 0x3e2aaaab]"

definition prefix_lane :: "u32 list \<Rightarrow> nat \<Rightarrow> u32 \<Rightarrow> nat \<Rightarrow> u32" where
  "prefix_lane original sz prefix i =
     (let swizzle = unat (drop_bit (i * 2) prefix AND 3);
          absolute = (prefix AND push_bit (8 + i) 1 \<noteq> 0);
          constant = (prefix AND push_bit (12 + i) 1 \<noteq> 0);
          negate = (prefix AND push_bit (16 + i) 1 \<noteq> 0);
          v = (if constant then prefix_constants ! (swizzle + (if absolute then 4 else 0))
               else let v = (if swizzle < sz then original ! swizzle else 0)
                 in if absolute then f32_abs v else v)
      in if negate then f32_negative v else v)"

definition vfpu_apply_prefix :: "u32 list \<Rightarrow> nat \<Rightarrow> u32 \<Rightarrow> u32 list" where
  "vfpu_apply_prefix values sz prefix =
     (if prefix = 0xe4 then values
      else map (\<lambda>i. if i < sz then prefix_lane values sz prefix i else values ! i)
             [0..<length values])"

definition saturated_lane :: "u32 \<Rightarrow> u32 \<Rightarrow> u32" where
  "saturated_lane mode v =
     (if mode = 1 then f32_clamp v 0 f32_one
      else if mode = 3 then f32_clamp v f32_minus_one f32_one else v)"

definition vfpu_apply_destination_prefix :: "State \<Rightarrow> u32 list \<Rightarrow> nat \<Rightarrow> bool \<Rightarrow> u32 list" where
  "vfpu_apply_destination_prefix s values sz saturation =
     (if \<not> saturation then values
      else map (\<lambda>i. if i < sz then saturated_lane (drop_bit (i * 2) (vfpu_ctrl s 2) AND 3) (values ! i)
                    else values ! i) [0..<length values])"

definition vfpu_eat_prefixes :: "State \<Rightarrow> State" where
  "vfpu_eat_prefixes s = s\<lparr>vfpu_ctrl := (vfpu_ctrl s)(0 := 0xe4, 1 := 0xe4, 2 := 0)\<rparr>"

definition vfpu_prefixes_identity :: "State \<Rightarrow> bool" where
  "vfpu_prefixes_identity s \<longleftrightarrow> vfpu_ctrl s 0 = 0xe4 \<and> vfpu_ctrl s 1 = 0xe4 \<and> vfpu_ctrl s 2 = 0"

section \<open>The path without prefixes\<close>

definition fast_index :: "u32 \<Rightarrow> nat \<Rightarrow> nat \<Rightarrow> u32" where
  "fast_index r sz lane =
     (let column = r AND 3; row = vfpu_row r sz;
          transpose = (sz \<noteq> 1 \<and> drop_bit 5 r AND 1 \<noteq> 0);
          base_idx = (drop_bit 2 r AND 7) * 4
      in if transpose then base_idx + ((row + of_nat lane) AND 3) + column * 32
         else base_idx + column + push_bit 5 ((row + of_nat lane) AND 3))"

definition vfpu_read_vector_fast :: "nat \<Rightarrow> State \<Rightarrow> u32 \<Rightarrow> u32 list" where
  "vfpu_read_vector_fast sz s r =
     map (\<lambda>lane. vfpu_float s (fast_index r sz lane)) [0..<sz] @ replicate (4 - sz) 0"

definition vfpu_write_vector_fast :: "nat \<Rightarrow> State \<Rightarrow> u32 \<Rightarrow> u32 list \<Rightarrow> State" where
  "vfpu_write_vector_fast sz s r values =
     fold (\<lambda>lane s. if vfpu_ctrl s 2 AND push_bit (8 + lane) 1 = 0
                    then set_vfpu s (fast_index r sz lane AND 127) (values ! lane) else s)
       [0..<sz] s"

text \<open>\<open>lanes n f\<close> fills the first \<open>n\<close> places of an array of four that starts as zeros.\<close>

definition lanes :: "nat \<Rightarrow> (nat \<Rightarrow> u32) \<Rightarrow> u32 list" where
  "lanes n f = map (\<lambda>i. if i < n then f i else 0) [0..<4]"

definition dot_product :: "HostFpu \<Rightarrow> u32 list \<Rightarrow> u32 list \<Rightarrow> nat \<Rightarrow> u32" where
  "dot_product h a b n = fold (\<lambda>i total. f32_add h total (f32_mul h (a ! i) (b ! i))) [0..<n] 0"

definition execute_vfpu_prefix_free ::
  "HostFpu \<Rightarrow> VfpuStaticOperation \<Rightarrow> nat \<Rightarrow> State \<Rightarrow> u32 \<Rightarrow> u32 \<Rightarrow> u32 \<Rightarrow> State" where
  "execute_vfpu_prefix_free h operation sz s vd vs vt =
     (let source = vfpu_read_vector_fast sz s vs;
          target = (if operation \<noteq> Vfpu_move then vfpu_read_vector_fast sz s vt else [0, 0, 0, 0]);
          s' = (if operation = Vfpu_dot
                then vfpu_write_vector_fast 1 s vd [dot_product h source target sz, 0, 0, 0]
                else vfpu_write_vector_fast sz s vd (lanes sz (\<lambda>lane.
                  case operation of
                    Vfpu_add \<Rightarrow> f32_add h (source ! lane) (target ! lane)
                  | Vfpu_subtract \<Rightarrow> f32_sub h (source ! lane) (target ! lane)
                  | Vfpu_multiply \<Rightarrow> f32_mul h (source ! lane) (target ! lane)
                  | Vfpu_move \<Rightarrow> source ! lane
                  | _ \<Rightarrow> 0)))
      in vfpu_eat_prefixes s')"

section \<open>Half precision\<close>

text \<open>
  The loop that shifts a denormal mantissa up to its leading bit. It would not end for 0, which
  the code excludes before it; \<open>half_to_float_total\<close> below shows that it always ends.
\<close>

partial_function (option) normalise_half :: "u32 \<Rightarrow> nat \<Rightarrow> (u32 \<times> nat) option" where
  "normalise_half mantissa shifts =
     (if mantissa AND 0x400 = 0 then normalise_half (push_bit 1 mantissa) (shifts + 1)
      else Some (mantissa, shifts))"

definition vfpu_half_to_float :: "u16 \<Rightarrow> u32 option" where
  "vfpu_half_to_float v =
     (let sign = push_bit 16 (ucast (v AND 0x8000) :: u32);
          exponent = ucast (drop_bit 10 v AND 31) :: u32;
          fraction = ucast (v AND 0x3ff) :: u32
      in if exponent = 0 then
           (if fraction = 0 then Some sign
            else case normalise_half fraction 0 of
              None \<Rightarrow> None
            | Some (mantissa, shifts) \<Rightarrow>
                Some (sign OR push_bit 23 (of_int (127 - 14 - int shifts)) OR
                      push_bit 13 (mantissa AND 0x3ff)))
         else if exponent = 31 then Some (sign OR 0x7f800000 OR push_bit 13 fraction)
         else Some (sign OR push_bit 23 (exponent + 112) OR push_bit 13 fraction))"

section \<open>Indices\<close>

lemma unat_and_bounds:
  fixes x :: u32
  shows "unat (x AND 1) < 2" "unat (x AND 3) < 4" "unat (x AND 7) < 8" "unat (x AND 31) < 32" "unat (x AND 127) < 128"
  using and_mask_small(1) [of x 1] and_mask_small(1) [of x 2] and_mask_small(1) [of x 3]
    and_mask_small(1) [of x 5] and_mask_small(1) [of x 7]
  by (simp_all add: mask_eq_exp_minus_1)

lemma unat_index_sum:
  fixes a b c :: u32
  assumes "unat a < 8" "unat b < 4" "unat c < 4"
  shows "unat (a * 4 + b + c * 32) = unat a * 4 + unat b + unat c * 32"
proof -
  have "unat a * 4 + unat b + unat c * 32 < 2 ^ 32" using assms by simp
  then show ?thesis by (simp add: unat_word_ariths)
qed

lemma unat_index_sum':
  fixes a b c :: u32
  assumes "unat a < 8" "unat b < 4" "unat c < 4"
  shows "unat (a * 4 + (b + c * 32)) = unat a * 4 + unat b + unat c * 32"
  using unat_index_sum [OF assms] by (simp add: add.assoc)

lemma index_sum_bound:
  fixes a b c :: u32
  assumes "unat a < 8" "unat b < 4" "unat c < 4"
  shows "unat (a * 4 + b + c * 32) < 128" "unat (a * 4 + (b + c * 32)) < 128"
  using unat_index_sum [OF assms] unat_index_sum' [OF assms] assms by linarith+

lemma vfpu_index_bound: "unat (vfpu_index r sz lane) < 128"
  unfolding vfpu_index_def Let_def
  by (simp add: index_sum_bound unat_and_bounds)

lemma vfpu_matrix_index_bound: "unat (vfpu_matrix_index r side j i) < 128"
  unfolding vfpu_matrix_index_def Let_def
  by (simp add: index_sum_bound unat_and_bounds)

lemma mask_small_index: "unat (x :: u32) < 128 \<Longrightarrow> x AND 127 = x"
  using and_mask_small(2) [of x 7] by (simp add: mask_eq_exp_minus_1)

lemma fast_index_eq: "fast_index r sz lane = vfpu_index r sz lane"
  by (simp add: fast_index_def vfpu_index_def Let_def push_bit_eq_mult)

lemma fast_vectors:
  "vfpu_read_vector_fast sz s r = vfpu_read_vector s r sz"
  "vfpu_write_vector_fast sz s r values = vfpu_write_vector s r sz values"
  by (simp_all add: vfpu_read_vector_fast_def vfpu_read_vector_def vfpu_write_vector_fast_def
      vfpu_write_vector_def fast_index_eq mask_small_index [OF vfpu_index_bound] cong: if_cong)

section \<open>Half precision is converted exactly\<close>

lemma bit_below: "unat (x :: u32) < 2 ^ k \<Longrightarrow> bit x n \<Longrightarrow> n < k"
  using and_mask_small(2) [of x k] by (metis bit_and_iff bit_mask_iff)

lemma packed_fields:
  fixes sg :: bool and e f :: u32
  assumes "unat e < 256" "unat f < 1024"
  defines "b \<equiv> f32_zero sg OR push_bit 23 e OR push_bit 13 f"
  shows "f32_sign b = sg" "f32_exponent b = unat e" "f32_fraction b = unat f * 2 ^ 13"
proof -
  have e: "bit e n \<Longrightarrow> n < 8" and f: "bit f n \<Longrightarrow> n < 10" for n
    using bit_below [of e 8] bit_below [of f 10] assms by simp_all
  have z: "bit (f32_zero sg) n \<longleftrightarrow> n = 31 \<and> sg" for n
  proof -
    have "(0x80000000 :: u32) = push_bit 31 1" by simp
    then have "bit (0x80000000 :: u32) n \<longleftrightarrow> n = 31" by (simp only: bit_push_bit_iff) auto
    then show ?thesis by (simp add: f32_zero_def)
  qed
  show "f32_sign b = sg"
    using e [of 8] f [of 18] by (auto simp: f32_sign_def sign_bit b_def z bit_simps)
  have m8: "(0xff :: u32) = mask 8" and m23: "(0x7fffff :: u32) = mask 23" by (simp_all add: mask_eq_exp_minus_1)
  have "drop_bit 23 b AND 0xff = e"
    unfolding m8 by (rule bit_word_eqI) (auto simp: b_def z bit_simps dest: e f)
  then show "f32_exponent b = unat e" by (simp add: f32_exponent_def)
  have "b AND 0x7fffff = push_bit 13 f"
    unfolding m23 by (rule bit_word_eqI) (auto simp: b_def z bit_simps dest: e f)
  moreover have "unat (push_bit 13 f) = unat f * 2 ^ 13"
    using assms(2) by (simp add: push_bit_eq_mult unat_word_ariths)
  ultimately show "f32_fraction b = unat f * 2 ^ 13" by (simp add: f32_fraction_def)
qed

lemma normalise_half_ends:
  assumes "0 < unat m" "unat m < 2 ^ 11"
  shows "\<exists>k m'. normalise_half m sh = Some (m', sh + k) \<and> unat m' = unat m * 2 ^ k \<and>
    2 ^ 10 \<le> unat m' \<and> unat m' < 2 ^ 11"
  using assms
proof (induction "2 ^ 11 - unat m" arbitrary: m sh rule: less_induct)
  case less
  have top: "m AND 0x400 = 0 \<longleftrightarrow> unat m < 2 ^ 10"
  proof -
    have "(0x400 :: u32) = push_bit 10 1" by simp
    then have "m AND 0x400 = 0 \<longleftrightarrow> \<not> bit m 10" by (simp only: and_exp_eq_0_iff_not_bit push_bit_of_1)
    also have "\<dots> \<longleftrightarrow> even (unat m div 2 ^ 10)" using bit_unsigned_iff [of m 10, where 'a = nat] by (auto simp: bit_iff_odd [of "unat m"] possible_bit_def)
    also have "\<dots> \<longleftrightarrow> unat m < 2 ^ 10"
    proof -
      have "unat m div 2 ^ 10 < 2" using less.prems by simp
      then have "unat m div 2 ^ 10 = 0 \<or> unat m div 2 ^ 10 = 1" by linarith
      then show ?thesis by (auto simp: div_eq_0_iff)
    qed
    finally show ?thesis .
  qed
  show ?case
  proof (cases "unat m < 2 ^ 10")
    case True
    have d: "unat (push_bit 1 m) = unat m * 2" using True by (simp add: push_bit_eq_mult unat_word_ariths)
    have "2 ^ 11 - unat (push_bit 1 m) < 2 ^ 11 - unat m" "0 < unat (push_bit 1 m)" "unat (push_bit 1 m) < 2 ^ 11"
      using less.prems True d by simp_all
    from less.hyps [OF this, of "sh + 1"]
    obtain k m' where k: "normalise_half (push_bit 1 m) (sh + 1) = Some (m', sh + 1 + k)"
      "unat m' = unat m * 2 * 2 ^ k" "2 ^ 10 \<le> unat m'" "unat m' < 2 ^ 11"
      unfolding d by blast
    have "normalise_half m sh = Some (m', sh + Suc k)"
      using True top k(1) by (simp add: normalise_half.simps [of m])
    then show ?thesis using k(2-4) by (intro exI [of _ "Suc k"] exI [of _ m']) simp
  next
    case False
    then have "normalise_half m sh = Some (m, sh + 0)" using top by (simp add: normalise_half.simps [of m])
    then show ?thesis using False less.prems by (intro exI [of _ 0] exI [of _ m]) simp
  qed
qed

definition half_value :: "u16 \<Rightarrow> rat" where
  "half_value v = (if bit v 15 then - 1 else 1) *
     (if unat (drop_bit 10 v AND 31) = 0 then of_nat (unat (v AND 0x3ff)) / 2 ^ 24
      else of_nat (1024 + unat (v AND 0x3ff)) * 2 ^ unat (drop_bit 10 v AND 31) / 2 ^ 25)"

lemma dyadic_offset: "dyadic a (int x - int n) = of_int a * 2 ^ x / 2 ^ n"
proof (cases "x < n")
  case True
  then have "(2 :: rat) ^ n = 2 ^ x * 2 ^ (n - x)" by (simp flip: power_add)
  moreover have "nat (- (int x - int n)) = n - x" using True by simp
  ultimately show ?thesis using True by (simp add: dyadic_def)
next
  case False
  then have "(2 :: rat) ^ x = 2 ^ n * 2 ^ (x - n)" by (simp flip: power_add)
  moreover have "nat (int x - int n) = x - n" using False by simp
  ultimately show ?thesis using False by (simp add: dyadic_def)
qed

lemma packed_value:
  fixes sg :: bool and e f :: u32
  assumes "unat e < 255" "0 < unat e" "unat f < 1024"
  shows "f32_value (f32_zero sg OR push_bit 23 e OR push_bit 13 f) =
    (if sg then - 1 else 1) * of_nat (1024 + unat f) * 2 ^ unat e / 2 ^ 137"
proof -
  define x y where "x = unat e" and "y = unat f"
  define b where "b = f32_zero sg OR push_bit 23 e OR push_bit 13 f"
  have f: "f32_sign b = sg" "f32_exponent b = x" "f32_fraction b = y * 2 ^ 13" "0 < x"
    using packed_fields [of e f sg] assms by (simp_all add: x_def y_def b_def)
  have "f32_significand b = (if sg then - 1 else 1) * (int (1024 + y) * 2 ^ 13)" "f32_scale b = int x - int 150"
    using f(4) by (simp_all add: f32_significand_def f32_scale_def f(1-3) Let_def)
  then have "f32_value b = of_int ((if sg then - 1 else 1) * (int (1024 + y) * 2 ^ 13)) * 2 ^ x / 2 ^ 150"
    by (simp only: f32_value_def dyadic_offset)
  also have "\<dots> = (if sg then - 1 else 1) * of_nat (1024 + y) * 2 ^ x / 2 ^ 137" by simp
  finally show ?thesis unfolding x_def y_def b_def .
qed

lemma unat_ucast16: "unat (ucast (x :: u16) :: u32) = unat x"
  using unsigned_less [of x, where 'a = nat] by (simp add: unsigned_ucast_eq take_bit_nat_eq_self_iff)

lemma half_fields:
  fixes v :: u16
  shows "unat (ucast (drop_bit 10 v AND 31) :: u32) = unat (drop_bit 10 v AND 31)" "unat (drop_bit 10 v AND 31) < 32"
  "unat (ucast (v AND 0x3ff) :: u32) = unat (v AND 0x3ff)" "unat (v AND 0x3ff) < 1024"
  "push_bit 16 (ucast (v AND 0x8000) :: u32) = f32_zero (bit v 15)"
proof -
  have m: "(31 :: u16) = mask 5" "(0x3ff :: u16) = mask 10" by (simp_all add: mask_eq_exp_minus_1)
  have *: "unat (a AND mask n) = take_bit n (unat a)" for a :: u16 and n
    by (simp add: take_bit_eq_mask [symmetric] unsigned_take_bit_eq)
  show "unat (drop_bit 10 v AND 31) < 32" "unat (v AND 0x3ff) < 1024"
    using take_bit_nat_less_exp [of 5] take_bit_nat_less_exp [of 10] by (simp_all only: m *) simp_all
  show "unat (ucast (drop_bit 10 v AND 31) :: u32) = unat (drop_bit 10 v AND 31)"
    "unat (ucast (v AND 0x3ff) :: u32) = unat (v AND 0x3ff)" by (simp_all only: unat_ucast16)
  have "v AND push_bit 15 1 = (if bit v 15 then push_bit 15 1 else 0)"
  proof (rule bit_word_eqI)
    fix n assume "n < LENGTH(16)"
    then consider "n < 15" | "n = 15" by fastforce
    then show "bit (v AND push_bit 15 1) n = bit (if bit v 15 then push_bit 15 1 else (0 :: u16)) n"
      by cases (auto simp: bit_simps simp del: push_bit_of_1)
  qed
  then have "v AND 0x8000 = (if bit v 15 then 0x8000 else 0)" by simp
  then show "push_bit 16 (ucast (v AND 0x8000) :: u32) = f32_zero (bit v 15)" by (simp add: f32_zero_def)
qed

text \<open>
  The conversion always ends, and what it returns has the value of the half-precision operand,
  denormals and zeros of both signs included; infinities and NaNs stay what they are.
\<close>

theorem half_to_float_exact:
  "\<exists>b. vfpu_half_to_float v = Some b \<and> f32_sign b = bit v 15 \<and>
     (if unat (drop_bit 10 v AND 31) = 31
      then (if v AND 0x3ff = 0 then f32_is_inf b else f32_is_nan b)
      else f32_finite b \<and> f32_value b = half_value v)"
proof -
  define e where "e = (ucast (drop_bit 10 v AND 31) :: u32)"
  define f where "f = (ucast (v AND 0x3ff) :: u32)"
  have e: "unat e = unat (drop_bit 10 v AND 31)" "unat e < 32" and f: "unat f = unat (v AND 0x3ff)" "unat f < 1024"
    unfolding e_def f_def using half_fields [of v] by simp_all
  have step: "vfpu_half_to_float v = (if e = 0 then (if f = 0 then Some (f32_zero (bit v 15))
      else case normalise_half f 0 of None \<Rightarrow> None | Some (mantissa, shifts) \<Rightarrow>
        Some (f32_zero (bit v 15) OR push_bit 23 (of_int (127 - 14 - int shifts)) OR push_bit 13 (mantissa AND 0x3ff)))
     else if e = 31 then Some (f32_zero (bit v 15) OR 0x7f800000 OR push_bit 13 f)
     else Some (f32_zero (bit v 15) OR push_bit 23 (e + 112) OR push_bit 13 f))"
    by (simp add: vfpu_half_to_float_def Let_def half_fields(5) e_def f_def)
  consider "unat e = 31" | "0 < unat e" "unat e < 31" | "unat e = 0" "unat f = 0" | "unat e = 0" "0 < unat f"
    using e(2) by linarith
  then show ?thesis
  proof cases
    case 1
    then have "unat e = unat (31 :: u32)" by simp
    then have "e = 31" by (rule unsigned_word_eqI)
    moreover have "(0x7f800000 :: u32) = push_bit 23 255" by simp
    ultimately have r: "vfpu_half_to_float v = Some (f32_zero (bit v 15) OR push_bit 23 255 OR push_bit 13 f)"
      using step by simp
    have "v AND 0x3ff = 0 \<longleftrightarrow> unat f = 0" using f by (simp add: unat_eq_0)
    then show ?thesis
      using packed_fields [of 255 f "bit v 15"] f(2) r 1 e(1)
      by (auto simp: f32_is_inf_def f32_is_nan_def)
  next
    case 2
    have u: "unat (e + 112) = unat e + 112" using 2 by (simp add: unat_word_ariths)
    have "e \<noteq> 0" "e \<noteq> 31" using 2 by auto
    then have r: "vfpu_half_to_float v = Some (f32_zero (bit v 15) OR push_bit 23 (e + 112) OR push_bit 13 f)"
      using step by simp
    have p: "(2 :: rat) ^ 112 * 2 ^ 25 = 2 ^ 137" by simp
    show ?thesis
      using packed_fields [of "e + 112" f "bit v 15"] packed_value [of "e + 112" f "bit v 15"] f r 2 e(1) u
      by (auto simp: f32_finite_def half_value_def power_add)
  next
    case 3
    then have "e = 0" "f = 0" by (simp_all add: unat_eq_0)
    then have r: "vfpu_half_to_float v = Some (f32_zero (bit v 15) OR push_bit 23 0 OR push_bit 13 0)" using step by simp
    show ?thesis
      using packed_fields [of 0 0 "bit v 15"] r 3 e(1) f(1)
      by (auto simp: f32_finite_def half_value_def f32_value_def f32_significand_def dyadic_def)
  next
    case 4
    obtain k m where k: "normalise_half f 0 = Some (m, k)" "unat m = unat f * 2 ^ k" "2 ^ 10 \<le> unat m" "unat m < 2 ^ 11"
      using normalise_half_ends [of f 0] 4 f(2) by auto
    have "k \<le> 10"
    proof (rule ccontr)
      assume "\<not> k \<le> 10"
      then have "(2 :: nat) ^ 11 \<le> 2 ^ k" by (intro power_increasing) simp_all
      also have "\<dots> \<le> unat f * 2 ^ k" using 4 by simp
      finally show False using k by simp
    qed
    define ee where "ee = (of_int (127 - 14 - int k) :: u32)"
    have "ee = of_nat (113 - k)" using \<open>k \<le> 10\<close> by (simp add: ee_def of_nat_diff)
    then have ee: "unat ee = 113 - k" by (simp add: unsigned_of_nat take_bit_nat_eq_self)
    have m: "unat (m AND 0x3ff) = unat m - 1024"
    proof -
      have "unat (m AND mask 10) = unat m mod 1024"
        by (simp only: take_bit_eq_mask [symmetric] unsigned_take_bit_eq take_bit_eq_mod [of 10 "unat m"]) simp
      also have "\<dots> = unat m - 1024" using k(3,4) by (simp add: mod_if)
      finally show ?thesis by (simp add: mask_eq_exp_minus_1)
    qed
    have "e = 0" "f \<noteq> 0" using 4 by (auto simp: unat_eq_0)
    then have r: "vfpu_half_to_float v = Some (f32_zero (bit v 15) OR push_bit 23 ee OR push_bit 13 (m AND 0x3ff))"
      using step k(1) by (simp add: ee_def)
    have p: "(2 :: rat) ^ k * 2 ^ (113 - k) / 2 ^ 137 = 1 / 2 ^ 24"
      using \<open>k \<le> 10\<close> by (simp flip: power_add)
    define b where "b = f32_zero (bit v 15) OR push_bit 23 ee OR push_bit 13 (m AND 0x3ff)"
    have "f32_value b = (if bit v 15 then - 1 else 1) * of_nat (1024 + unat (m AND 0x3ff)) * 2 ^ unat ee / 2 ^ 137"
      unfolding b_def by (rule packed_value) (use ee m k(4) \<open>k \<le> 10\<close> in simp)+
    also have "1024 + unat (m AND 0x3ff) = unat f * 2 ^ k" using m k(2,3) by simp
    also have "(if bit v 15 then - 1 else 1) * of_nat (unat f * 2 ^ k) * (2 :: rat) ^ unat ee / 2 ^ 137 =
        (if bit v 15 then - 1 else 1) * of_nat (unat f) * (2 ^ k * 2 ^ (113 - k) / 2 ^ 137)"
      by (simp add: ee)
    also have "\<dots> = half_value v" using 4 e(1) f(1) unfolding p by (simp add: half_value_def)
    finally have "f32_value (f32_zero (bit v 15) OR push_bit 23 ee OR push_bit 13 (m AND 0x3ff)) = half_value v"
      unfolding b_def .
    then show ?thesis
      using packed_fields [of ee "m AND 0x3ff" "bit v 15"] r 4 e(1) ee m k(4) \<open>k \<le> 10\<close>
      by (auto simp: f32_finite_def)
  qed
qed

end
