(* ===== verification/Vfpu.thy ===== *)
theory Vfpu
  imports Vfpu_Registers
begin

text \<open>
  \<open>execute_vfpu\<close> of \<open>include/psprecomp/vfpu.hpp\<close>: every vector instruction, one definition
  per group of cases. The arithmetic groups take the operands after the source prefixes and
  give either the state with which the function returns at once (\<open>Inl\<close>) or the array
  \<open>result\<close> that the common end of the function writes (\<open>Inr\<close>).

  The functions of the C library are parameters (\<open>HostMath\<close>). Each \<open>+\<close>, \<open>-\<close>, \<open>*\<close>
  and \<open>/\<close> is one IEEE operation: a host compiler that fuses a multiplication and an addition
  is not modelled.
\<close>

record HostMath =
  sin_of :: "u32 \<Rightarrow> u32"
  cos_of :: "u32 \<Rightarrow> u32"
  exp2_of :: "u32 \<Rightarrow> u32"
  log2_of :: "u32 \<Rightarrow> u32"
  asin_of :: "u32 \<Rightarrow> u32"

abbreviation vd_of :: "u32 \<Rightarrow> u32" where "vd_of i \<equiv> i AND 0x7f"
abbreviation vs_of :: "u32 \<Rightarrow> u32" where "vs_of i \<equiv> drop_bit 8 i AND 0x7f"
abbreviation vt_of :: "u32 \<Rightarrow> u32" where "vt_of i \<equiv> drop_bit 16 i AND 0x7f"

section \<open>Moves, branches and memory\<close>

definition vfpu_move :: "State \<Rightarrow> u32 \<Rightarrow> u32 \<Rightarrow> State" where
  "vfpu_move s instruction current_pc =
     (let kind = drop_bit 21 instruction AND 31; rt = drop_bit 16 instruction AND 31;
          immediate = instruction AND 0xff; control = unat ((immediate - 128) AND 15)
      in if kind = 3 then
           (if rt \<noteq> 0 then s\<lparr>gpr := (gpr s)(unat rt :=
              (if immediate < 128 then vfpu s (unat (vfpu_index immediate 1 0)) else vfpu_ctrl s control))\<rparr>
            else s)
         else if kind = 7 then
           (if immediate < 128 then set_vfpu s (vfpu_index immediate 1 0) (gpr s (unat rt))
            else s\<lparr>vfpu_ctrl := (vfpu_ctrl s)(control := gpr s (unat rt))\<rparr>)
         else
           let cc = unat (drop_bit 18 instruction AND 7);
               expected = (drop_bit 16 instruction AND 1 \<noteq> 0);
               likely = (drop_bit 17 instruction AND 1 \<noteq> 0);
               condition = (vfpu_ctrl s 3 AND push_bit cc 1 \<noteq> 0)
           in if condition = expected then
                s\<lparr>branch_pending := True,
                  branch_target := current_pc + 4 + scast (ucast instruction :: u16) * 4\<rparr>
              else if likely then s\<lparr>pc := current_pc + 8\<rparr> else s)"

definition vfpu_address :: "State \<Rightarrow> u32 \<Rightarrow> u32" where
  "vfpu_address s instruction =
     gpr s (unat (drop_bit 21 instruction AND 31)) + scast (ucast (instruction AND 0xfffc) :: u16)"

definition vfpu_single :: "State \<Rightarrow> u32 \<Rightarrow> State" where
  "vfpu_single s instruction =
     (let r = (drop_bit 16 instruction AND 31) OR push_bit 5 (instruction AND 3);
          address = vfpu_address s instruction
      in if drop_bit 26 instruction = 0x32
         then (let (v, s') = load32 s address in set_vfpu s' (vfpu_index r 1 0) v)
         else store32 s address (vfpu s (unat (vfpu_index r 1 0))))"

definition load_places :: "(nat \<times> u32) list \<Rightarrow> u32 list \<Rightarrow> State \<Rightarrow> u32 list \<times> State" where
  "load_places places values s =
     fold (\<lambda>(lane, a) (values, s). let (v, s') = load32 s a in (values[lane := v], s'))
       places (values, s)"

definition store_places :: "(nat \<times> u32) list \<Rightarrow> u32 list \<Rightarrow> State \<Rightarrow> State" where
  "store_places places values s = fold (\<lambda>(lane, a) s. store32 s a (values ! lane)) places s"

text \<open>The part of a quad word on one side of an address: which lane goes where.\<close>

definition left_places :: "u32 \<Rightarrow> (nat \<times> u32) list" where
  "left_places address =
     map (\<lambda>i. (3 - i, address - of_nat i * 4)) [0..<Suc (unat (drop_bit 2 address AND 3))]"

definition right_places :: "u32 \<Rightarrow> (nat \<times> u32) list" where
  "right_places address =
     map (\<lambda>i. (i, address + of_nat i * 4)) [0..<Suc (unat (3 - (drop_bit 2 address AND 3)))]"

definition quad_places :: "u32 \<Rightarrow> (nat \<times> u32) list" where
  "quad_places address = map (\<lambda>i. (i, address + of_nat i * 4)) [0..<4]"

definition quad_register :: "u32 \<Rightarrow> u32" where
  "quad_register instruction =
     (drop_bit 16 instruction AND 31) OR push_bit 5 (instruction AND 1)"

definition vfpu_partial :: "State \<Rightarrow> u32 \<Rightarrow> State" where
  "vfpu_partial s instruction =
     (let r = quad_register instruction; address = vfpu_address s instruction;
          values = vfpu_read_vector s r 4;
          places = (if instruction AND 2 = 0 then left_places address else right_places address)
      in if drop_bit 26 instruction = 0x35
         then (let (values, s') = load_places places values s in vfpu_write_vector s' r 4 values)
         else store_places places values s)"

definition vfpu_quad :: "State \<Rightarrow> u32 \<Rightarrow> State" where
  "vfpu_quad s instruction =
     (let r = quad_register instruction; places = quad_places (vfpu_address s instruction)
      in if drop_bit 26 instruction = 0x36
         then (let (values, s') = load_places places [0, 0, 0, 0] s in vfpu_write_vector s' r 4 values)
         else store_places places (vfpu_read_vector s r 4) s)"

section \<open>Prefixes and immediates\<close>

text \<open>The common end: saturate, write, forget the prefixes.\<close>

definition vfpu_finish :: "State \<Rightarrow> u32 \<Rightarrow> nat \<Rightarrow> bool \<Rightarrow> u32 list \<Rightarrow> State" where
  "vfpu_finish s vd n saturation result =
     vfpu_eat_prefixes
       (vfpu_write_vector s vd n (vfpu_apply_destination_prefix s result n saturation))"

definition vfpu_immediate :: "State \<Rightarrow> u32 \<Rightarrow> State" where
  "vfpu_immediate s instruction =
     (let type = drop_bit 23 instruction AND 7 in
      if type \<le> 5 then
        let index = drop_bit 24 instruction AND 3; data = instruction AND 0xfffff;
            data = (if index = 2 then data AND 0xfff else data)
        in s\<lparr>vfpu_ctrl := (vfpu_ctrl s)(unat index := data)\<rparr>
      else
        case (if type = 6 then Some (f32_of_s32 (sint (ucast instruction :: u16)))
              else vfpu_half_to_float (ucast instruction)) of
          None \<Rightarrow> note_host_fault s
        | Some v \<Rightarrow> vfpu_finish s (vt_of instruction) 1 True [v, 0, 0, 0])"

section \<open>Two operands\<close>

definition vfpu_add_group :: "HostFpu \<Rightarrow> u32 \<Rightarrow> nat \<Rightarrow> u32 list \<Rightarrow> u32 list \<Rightarrow> u32 list" where
  "vfpu_add_group h instruction sz source target =
     (let type = drop_bit 23 instruction AND 7 in
      if type = 2 then
        (let s0 = source ! 0; t = target ! 0 in
         if f32_is_zero s0 \<or> f32_is_nan s0 \<or> f32_is_inf s0 then [s0, 0, 0, 0]
         else [(s0 AND 0x807FFFFF) OR push_bit 23 ((t + 127) AND 0xFF), 0, 0, 0])
      else let subtract = (type = 1); divide = (type = 3 \<or> type = 7) in
        lanes sz (\<lambda>i. if divide then f32_div h (source ! i) (target ! i)
                      else if subtract then f32_sub h (source ! i) (target ! i)
                      else f32_add h (source ! i) (target ! i)))"

definition vfpu_multiply_group ::
  "HostFpu \<Rightarrow> State \<Rightarrow> u32 \<Rightarrow> nat \<Rightarrow> u32 list \<Rightarrow> u32 list \<Rightarrow> State + u32 list" where
  "vfpu_multiply_group h s instruction sz source target =
     (let type = drop_bit 23 instruction AND 7; vd = vd_of instruction;
          single = (\<lambda>v. Inl (vfpu_finish s vd 1 True [v, 0, 0, 0]))
      in if instruction AND 0xff808080 = 0x66808000 then
           Inr [f32_mul h (source ! 1) (target ! 2), f32_mul h (source ! 2) (target ! 0),
                f32_mul h (source ! 0) (target ! 1), 0]
         else if type = 0 then Inr (lanes sz (\<lambda>i. f32_mul h (source ! i) (target ! i)))
         else if type = 1 then single (dot_product h source target sz)
         else if type = 4 then
           single (f32_add h (dot_product h source target (sz - 1)) (target ! (sz - 1)))
         else if type = 6 then
           single (f32_sub h (f32_mul h (source ! 0) (target ! 1)) (f32_mul h (source ! 1) (target ! 0)))
         else
           let scalar = vfpu_apply_prefix (vfpu_read_vector s (vt_of instruction) 1) 1 (vfpu_ctrl s 1)
           in Inr (lanes sz (\<lambda>i. f32_mul h (source ! i) (scalar ! 0))))"

definition vfpu_condition :: "u32 \<Rightarrow> u32 \<Rightarrow> u32 \<Rightarrow> bool" where
  "vfpu_condition code a b =
     (if code = 0 then False else if code = 1 then f32_equal a b
      else if code = 2 then f32_less a b
      else if code = 3 then f32_less a b \<or> f32_equal a b
      else if code = 4 then True
      else if code = 5 then \<not> f32_equal a b
      else if code = 6 then f32_less b a \<or> f32_equal a b
      else if code = 7 then f32_less b a
      else if code = 8 then f32_is_zero a
      else if code = 9 then f32_is_nan a
      else if code = 10 then f32_is_inf a
      else if code = 11 then \<not> f32_finite a
      else if code = 12 then \<not> f32_is_zero a
      else if code = 13 then \<not> f32_is_nan a
      else if code = 14 then \<not> f32_is_inf a
      else f32_finite a)"

definition vfpu_compare :: "State \<Rightarrow> u32 \<Rightarrow> nat \<Rightarrow> u32 list \<Rightarrow> u32 list \<Rightarrow> State" where
  "vfpu_compare s instruction sz source target =
     (let conditions = map (\<lambda>i. vfpu_condition (instruction AND 15) (source ! i) (target ! i)) [0..<sz];
          cc = fold (\<lambda>i cc. cc OR (if conditions ! i then push_bit i 1 else 0)) [0..<sz] 0;
          any = (\<exists>c\<in>set conditions. c); all = (\<forall>c\<in>set conditions. c);
          affected = (push_bit sz 1 - 1) OR 0x30;
          cc = cc OR (if any then push_bit 4 1 else 0) OR (if all then push_bit 5 1 else 0)
      in vfpu_eat_prefixes (s\<lparr>vfpu_ctrl := (vfpu_ctrl s)(3 :=
           (vfpu_ctrl s 3 AND NOT affected) OR (cc AND affected))\<rparr>))"

text \<open>
  The first two cases fill \<open>result\<close>, and the loop after the cascade fills it again: see
  \<open>compare_result_lost\<close>.
\<close>

definition vfpu_compare_group ::
  "State \<Rightarrow> u32 \<Rightarrow> nat \<Rightarrow> u32 list \<Rightarrow> u32 list \<Rightarrow> State + u32 list" where
  "vfpu_compare_group s instruction sz source target =
     (let type = drop_bit 23 instruction AND 7;
          sign_case = (instruction AND 0xff808080 = 0x6e808000);
          less_case = (instruction AND 0xff808080 = 0x6f808080);
          result = (if sign_case then
                      lanes sz (\<lambda>i. if f32_less (target ! i) (source ! i) then f32_one
                                    else if f32_less (source ! i) (target ! i) then f32_minus_one else 0)
                    else if less_case then
                      lanes sz (\<lambda>i. if f32_less (source ! i) (target ! i) then f32_one else 0)
                    else [0, 0, 0, 0])
      in if \<not> sign_case \<and> \<not> less_case \<and> type = 0 then Inl (vfpu_compare s instruction sz source target)
         else Inr (map (\<lambda>i. if i < sz then
                              (if type = 2 then f32_min (source ! i) (target ! i)
                               else f32_max (source ! i) (target ! i))
                            else result ! i) [0..<4]))"

section \<open>One operand\<close>

definition vfpu_constants :: "u32 list" where
  "vfpu_constants =
     [0x00000000, 0x7f7fffff, 0x3fb504f3, 0x3f3504f3, 0x3f906ebb, 0x3f22f983, 0x3ea2f983,
      0x3f490fdb, 0x3fc90fdb, 0x40490fdb, 0x402df854, 0x3fb8aa3b, 0x3ede5bd9, 0x3f317218,
      0x40135d8e, 0x40c90fdb, 0x3f060a92, 0x3e9a209b, 0x40549a78, 0x3f5db3d7]"

definition half_pi :: u32 where "half_pi = 0x3fc90fdb"
definition two_over_pi :: u32 where "two_over_pi = 0x3f22f983"

definition vfpu_unary :: "HostFpu \<Rightarrow> HostMath \<Rightarrow> u32 \<Rightarrow> u32 \<Rightarrow> u32" where
  "vfpu_unary h m type x =
     (if type = 0 then x
      else if type = 1 then f32_abs x
      else if type = 2 then f32_negative x
      else if type = 4 then f32_clamp x 0 f32_one
      else if type = 5 then f32_clamp x f32_minus_one f32_one
      else if type = 6 then 0
      else if type = 7 then f32_one
      else if type = 16 then f32_div h f32_one x
      else if type = 17 then f32_div h f32_one (f32_sqrt h x)
      else if type = 18 then sin_of m (f32_mul h x half_pi)
      else if type = 19 then cos_of m (f32_mul h x half_pi)
      else if type = 20 then exp2_of m x
      else if type = 21 then log2_of m x
      else if type = 22 then f32_sqrt h x
      else if type = 23 then f32_mul h (asin_of m x) two_over_pi
      else if type = 24 then f32_div h f32_minus_one x
      else if type = 25 then f32_negative (sin_of m (f32_mul h x half_pi))
      else if type = 26 then
        (if f32_less 0x42fe0000 x \<or> f32_equal 0x42fe0000 x then 0
         else if f32_less x 0xc3000000 \<or> f32_equal x 0xc3000000 then 0x7f800000
         else exp2_of m (f32_negative x))
      else 0)"

text \<open>
  Conversion to fixed point: the product with a power of two and its rounding are exact in
  \<open>double\<close>; \<open>std::clamp\<close> keeps a NaN, whose cast the host decides.
\<close>

definition float_to_fixed :: "HostFpu \<Rightarrow> u32 \<Rightarrow> u32 \<Rightarrow> u32 \<Rightarrow> u32" where
  "float_to_fixed h grp type b =
     (if f32_is_nan b then cast h b
      else if f32_is_inf b then (if f32_sign b then 0x80000000 else 0x7fffffff)
      else let m = f32_significand b; e = f32_scale b + int (unat type);
               rounded = (if grp = 16 then dyadic_nearest m e
                          else if grp = 17 then dyadic_trunc m e
                          else if grp = 18 then dyadic_ceil m e
                          else dyadic_floor m e)
        in of_int (max (- 2147483648) (min rounded 2147483647)))"

definition power_of_two :: "int \<Rightarrow> u32" where
  "power_of_two e = push_bit 23 (of_int (127 + e))"

definition fixed_to_float :: "HostFpu \<Rightarrow> u32 \<Rightarrow> u32 \<Rightarrow> u32" where
  "fixed_to_float h type b = f32_mul h (f32_of_s32 (sint b)) (power_of_two (- int (unat type)))"

text \<open>\<open>vidt\<close>: a row of the identity matrix.\<close>

definition vfpu_identity_row :: "State \<Rightarrow> u32 \<Rightarrow> nat \<Rightarrow> u32 list" where
  "vfpu_identity_row s vd sz =
     (let offset_mask = (if sz \<ge> 3 then 3 else 1); identity_lane = unat (vd AND offset_mask)
      in lanes sz (\<lambda>i. let v = (if i = identity_lane then f32_one else 0) in
           if vfpu_ctrl s 0 AND push_bit (16 + i) 1 \<noteq> 0 then f32_negative v else v))"

text \<open>Groups 1 and 2 of opcode 0x34: packing, unpacking and reductions.\<close>

definition unpack_halves :: "u32 \<Rightarrow> nat \<Rightarrow> u32 list \<Rightarrow> u32 list" where
  "unpack_halves type input_size source =
     lanes (input_size * 2) (\<lambda>k. let packed = source ! (k div 2) in
       if type = 26
       then (if even k then push_bit 15 (packed AND 0xffff) else drop_bit 1 (packed AND 0xffff0000))
       else (if even k then push_bit 16 (packed AND 0xffff) else packed AND 0xffff0000))"

definition pack_halves :: "u32 \<Rightarrow> nat \<Rightarrow> u32 list \<Rightarrow> u32 list" where
  "pack_halves type sz source =
     lanes ((sz + 1) div 2) (\<lambda>i.
       let low_bits = source ! (i * 2); high_bits = (if i * 2 + 1 < sz then source ! (i * 2 + 1) else 0);
           half = (\<lambda>bits. if type = 30 then (if sint bits < 0 then 0 else drop_bit 15 bits) else drop_bit 16 bits)
       in half low_bits OR push_bit 16 (half high_bits))"

definition unpack_bytes :: "u32 \<Rightarrow> u32 \<Rightarrow> u32 list" where
  "unpack_bytes type packed =
     lanes 4 (\<lambda>i. let byte = drop_bit (i * 8) packed AND 0xff in
       if type = 24 then drop_bit 1 (byte * 0x01010101) else push_bit 24 byte)"

definition pack_bytes :: "u32 \<Rightarrow> u32 list \<Rightarrow> u32" where
  "pack_bytes type source =
     fold (\<lambda>i packed. let bits = source ! i;
         byte = (if type = 28 then (if sint bits < 0 then 0 else drop_bit 23 bits AND 0xff) else drop_bit 24 bits)
       in packed OR push_bit (i * 8) (byte AND 0xff)) [0..<4] 0"

definition pack_color :: "u32 \<Rightarrow> u32" where
  "pack_color bits =
     push_bit 12 (drop_bit 4 (drop_bit 24 bits AND 0xff)) OR push_bit 8 (drop_bit 4 (drop_bit 16 bits AND 0xff)) OR
     push_bit 4 (drop_bit 4 (drop_bit 8 bits AND 0xff)) OR drop_bit 4 (bits AND 0xff)"

definition sum_lanes :: "HostFpu \<Rightarrow> u32 list \<Rightarrow> nat \<Rightarrow> u32" where
  "sum_lanes h a n = fold (\<lambda>i total. f32_add h total (a ! i)) [0..<n] 0"

text \<open>
  \<open>vsocp\<close> writes \<open>2 * size\<close> places of an array of four: outside it for sizes 3 and 4.
\<close>

definition vfpu_reduce_group ::
  "HostFpu \<Rightarrow> State \<Rightarrow> u32 \<Rightarrow> u32 \<Rightarrow> nat \<Rightarrow> u32 list \<Rightarrow> State + u32 list" where
  "vfpu_reduce_group h s instruction type sz source =
     (let vd = vd_of instruction; x = source ! 0; y = source ! 1; z = source ! 2; w = source ! 3 in
      if type = 10 then
        Inr (lanes sz (\<lambda>i. if f32_less 0 (source ! i) then f32_one
                           else if f32_less (source ! i) 0 then f32_minus_one else 0))
      else if type = 6 then Inl (vfpu_finish s vd 1 True [sum_lanes h source sz, 0, 0, 0])
      else if type = 1 then Inr [f32_min x w, f32_min y z, f32_max y z, f32_max x w]
      else if type = 2 then
        Inr (lanes (sz div 2 * 2) (\<lambda>k. if even k then f32_add h (source ! k) (source ! (k + 1))
                                       else f32_sub h (source ! (k - 1)) (source ! k)))
      else if type = 3 then Inr [f32_add h x z, f32_add h y w, f32_sub h x z, f32_sub h y w]
      else if type = 5 then
        (if 2 < sz then Inl (note_host_fault s)
         else Inl (vfpu_finish s vd (sz * 2) True (lanes (sz * 2) (\<lambda>k.
           if even k then f32_clamp (f32_sub h f32_one (source ! (k div 2))) 0 f32_one
           else f32_clamp (source ! (k div 2)) 0 f32_one))))
      else if type = 7 then
        Inl (vfpu_finish s vd 1 True [f32_div h (sum_lanes h source sz) (f32_of_s32 (int sz)), 0, 0, 0])
      else if type = 8 then Inr [f32_max x y, f32_min x y, f32_max z w, f32_min z w]
      else if type = 9 then Inr [f32_max x w, f32_max y z, f32_min y z, f32_min x w]
      else if type = 25 then
        Inl (vfpu_eat_prefixes (vfpu_write_vector s vd (if sz = 1 then 1 else 2)
          [pack_color x OR push_bit 16 (pack_color y), pack_color z OR push_bit 16 (pack_color w), 0, 0]))
      else Inr [0, 0, 0, 0])"

definition vfpu_pack_group ::
  "State \<Rightarrow> u32 \<Rightarrow> u32 \<Rightarrow> nat \<Rightarrow> u32 list \<Rightarrow> State + u32 list" where
  "vfpu_pack_group s instruction type sz source =
     (let vd = vd_of instruction in
      if type = 26 \<or> type = 27 then
        let input_size = min sz 2
        in Inl (vfpu_finish s vd (input_size * 2) False (unpack_halves type input_size source))
      else if type = 30 \<or> type = 31 then
        Inl (vfpu_finish s vd ((sz + 1) div 2) False (pack_halves type sz source))
      else if type = 24 \<or> type = 25 then
        Inl (vfpu_finish s vd 4 False (unpack_bytes type (source ! 0)))
      else if type = 28 \<or> type = 29 then
        Inl (vfpu_finish s vd 1 False [pack_bytes type source, 0, 0, 0])
      else Inr [0, 0, 0, 0])"

definition vfpu_select :: "State \<Rightarrow> u32 \<Rightarrow> u32 \<Rightarrow> nat \<Rightarrow> u32 list \<Rightarrow> u32 list" where
  "vfpu_select s instruction type sz source =
     (let dest = vfpu_apply_prefix (vfpu_read_vector s (vd_of instruction) sz) sz (vfpu_ctrl s 1);
          tf = drop_bit 3 type AND 1; cc_sel = type AND 7; cc = vfpu_ctrl s 3
      in lanes sz (\<lambda>i.
           let cond = (if cc_sel = 6 then cc AND push_bit i 1 \<noteq> 0 else cc AND push_bit (unat cc_sel) 1 \<noteq> 0)
           in if cond = (tf \<noteq> 0) then source ! i else dest ! i))"

definition vfpu_unary_group ::
  "HostFpu \<Rightarrow> HostMath \<Rightarrow> State \<Rightarrow> u32 \<Rightarrow> nat \<Rightarrow> u32 list \<Rightarrow> State + u32 list" where
  "vfpu_unary_group h m s instruction sz source =
     (let grp = drop_bit 21 instruction AND 31; type = drop_bit 16 instruction AND 31 in
      if grp = 0 \<and> type = 3 then
        Inl (vfpu_finish s (vd_of instruction) sz True (vfpu_identity_row s (vd_of instruction) sz))
      else if grp = 3 \<and> type \<le> 19 then Inr (lanes sz (\<lambda>_. vfpu_constants ! unat type))
      else if grp = 2 then vfpu_reduce_group h s instruction type sz source
      else if grp = 1 then vfpu_pack_group s instruction type sz source
      else if grp = 0 then Inr (lanes sz (\<lambda>i. vfpu_unary h m type (source ! i)))
      else if 16 \<le> grp \<and> grp \<le> 19 then Inr (lanes sz (\<lambda>i. float_to_fixed h grp type (source ! i)))
      else if grp = 20 then Inr (lanes sz (\<lambda>i. fixed_to_float h type (source ! i)))
      else if grp = 21 then Inr (vfpu_select s instruction type sz source)
      else Inr [0, 0, 0, 0])"

section \<open>Matrices\<close>

definition matrix_product :: "HostFpu \<Rightarrow> nat \<Rightarrow> u32 list \<Rightarrow> u32 list \<Rightarrow> u32 list" where
  "matrix_product h side left right =
     fold (\<lambda>(row, column) product. product[row * 4 + column :=
         fold (\<lambda>i total. f32_add h total (f32_mul h (left ! (column * 4 + i)) (right ! (row * 4 + i))))
           [0..<side] 0])
       (matrix_places side) (replicate 16 0)"

definition transform :: "HostFpu \<Rightarrow> nat \<Rightarrow> u32 list \<Rightarrow> u32 list \<Rightarrow> u32 list" where
  "transform h side matrix vector =
     lanes side (\<lambda>row. fold (\<lambda>i total. f32_add h total (f32_mul h (matrix ! (row * 4 + i)) (vector ! i)))
       [0..<side] 0)"

definition vfpu_quaternion :: "HostFpu \<Rightarrow> nat \<Rightarrow> u32 list \<Rightarrow> u32 list \<Rightarrow> u32 list" where
  "vfpu_quaternion h sz a b =
     (let mul = (\<lambda>i j. f32_mul h (a ! i) (b ! j)); add = f32_add h; sub = f32_sub h in
      if sz = 4 then
        [add (add (sub (mul 3 0) (mul 2 1)) (mul 1 2)) (mul 0 3),
         sub (add (add (mul 3 1) (mul 2 0)) (mul 1 3)) (mul 0 2),
         add (sub (add (mul 3 2) (mul 2 3)) (mul 1 0)) (mul 0 1),
         sub (sub (sub (mul 3 3) (mul 2 2)) (mul 1 1)) (mul 0 0)]
      else [sub (mul 1 2) (mul 2 1), sub (mul 2 0) (mul 0 2), sub (mul 0 1) (mul 1 0), 0])"

definition vfpu_rotate :: "HostFpu \<Rightarrow> HostMath \<Rightarrow> u32 \<Rightarrow> u32 list \<Rightarrow> u32 list \<Rightarrow> u32 list" where
  "vfpu_rotate h m instruction source result =
     (let imm = drop_bit 16 instruction AND 31;
          sine_lane = unat (drop_bit 2 imm AND 3); cosine_lane = unat (imm AND 3);
          angle = f32_mul h (source ! 0) half_pi;
          sine = (if imm AND 16 \<noteq> 0 then f32_negative (sin_of m angle) else sin_of m angle);
          cosine = cos_of m angle;
          result = (if sine_lane = cosine_lane then replicate 4 sine else result[sine_lane := sine])
      in result[cosine_lane := cosine])"

definition vfpu_matrix_group ::
  "HostFpu \<Rightarrow> HostMath \<Rightarrow> State \<Rightarrow> u32 \<Rightarrow> nat \<Rightarrow> u32 list \<Rightarrow> u32 list \<Rightarrow> State + u32 list" where
  "vfpu_matrix_group h m s instruction sz source target =
     (let grp = drop_bit 21 instruction AND 31;
          vd = vd_of instruction; vs = vs_of instruction; vt = vt_of instruction;
          matrix = (\<lambda>side values. Inl (vfpu_eat_prefixes (vfpu_write_matrix s vd side values)));
          vector = (\<lambda>side values. Inl (vfpu_eat_prefixes (vfpu_write_vector s vd side values)))
      in if instruction AND 0xffff0000 = 0xf3800000 \<and> 2 \<le> sz then matrix sz (vfpu_read_matrix s vs sz)
         else if instruction AND 0xff808080 = 0xf2008080 then
           let scalar = vfpu_apply_prefix (vfpu_read_vector s vt 1) 1 (vfpu_ctrl s 1)
           in matrix 4 (map (\<lambda>v. f32_mul h v (scalar ! 0)) (vfpu_read_matrix s vs 4))
         else if instruction AND 0xffffff80 = 0xf3838080 then
           matrix 4 (map (\<lambda>k. if k mod 5 = 0 then f32_one else 0) [0..<16])
         else if instruction AND 0xffffff80 = 0xf3868080 then matrix 4 (replicate 16 0)
         else if instruction AND 0xffffff80 = 0xf3878080 then matrix 4 (replicate 16 f32_one)
         else if grp \<le> 3 then
           matrix sz (matrix_product h sz (vfpu_read_matrix s vs sz) (vfpu_read_matrix s vt sz))
         else if instruction AND 0xff808080 = 0xf1008000 then
           vector 3 (transform h 3 (vfpu_read_matrix s vs 3) (vfpu_read_vector s vt 3))
         else if 12 \<le> grp \<and> grp \<le> 15 then
           vector 4 (transform h 4 (vfpu_read_matrix s vs 4) (vfpu_read_vector s vt 4))
         else if 20 \<le> grp \<and> grp \<le> 23 then Inr (vfpu_quaternion h sz source target)
         else if grp = 29 then Inr (vfpu_rotate h m instruction source [0, 0, 0, 0])
         else Inr [0, 0, 0, 0])"

section \<open>Any instruction\<close>

definition vfpu_arithmetic :: "HostFpu \<Rightarrow> HostMath \<Rightarrow> State \<Rightarrow> u32 \<Rightarrow> State" where
  "vfpu_arithmetic h m s instruction =
     (let opc = drop_bit 26 instruction; sz = vfpu_size instruction;
          source = vfpu_apply_prefix (vfpu_read_vector s (vs_of instruction) sz) sz (vfpu_ctrl s 0);
          target = vfpu_apply_prefix (vfpu_read_vector s (vt_of instruction) sz) sz (vfpu_ctrl s 1)
      in case (if opc = 0x18 then Inr (vfpu_add_group h instruction sz source target)
               else if opc = 0x19 then vfpu_multiply_group h s instruction sz source target
               else if opc = 0x1b then vfpu_compare_group s instruction sz source target
               else if opc = 0x34 then vfpu_unary_group h m s instruction sz source
               else if opc = 0x3c then vfpu_matrix_group h m s instruction sz source target
               else Inr [0, 0, 0, 0]) of
           Inl s' \<Rightarrow> s'
         | Inr result \<Rightarrow> vfpu_finish s (vd_of instruction) sz True result)"

definition execute_vfpu :: "HostFpu \<Rightarrow> HostMath \<Rightarrow> State \<Rightarrow> u32 \<Rightarrow> u32 \<Rightarrow> State" where
  "execute_vfpu h m s instruction current_pc =
     (let opc = drop_bit 26 instruction in
      if opc = 0x12 then vfpu_move s instruction current_pc
      else if opc = 0x32 \<or> opc = 0x3a then vfpu_single s instruction
      else if opc = 0x35 \<or> opc = 0x3d then vfpu_partial s instruction
      else if opc = 0x36 \<or> opc = 0x3e then vfpu_quad s instruction
      else if opc = 0x3f then s
      else if opc = 0x37 then vfpu_immediate s instruction
      else vfpu_arithmetic h m s instruction)"

end
