(* ===== verification/Guest_Access.thy ===== *)
theory Guest_Access
  imports Guest_Memory
begin

text \<open>
  The contract of a typed guest access as a locale (\<open>guest_access\<close>): a load and a store of
  one width, with the byte encoding of its values. What a client needs of guest memory
  (a load returns what was stored, stores elsewhere do not disturb it, a failed access
  only records a fault, no access leaves the host buffers) is proved once from the laws
  and interpreted for \<open>load8\<close>/\<open>store8\<close>, \<open>load16\<close>/\<open>store16\<close> and \<open>load32\<close>/\<open>store32\<close>.
\<close>

section \<open>Well-formed states\<close>

text \<open>
  The RAM buffer holds at least one word and fits the 32-bit guest address space. The
  fast paths of the 16- and 32-bit accesses compute \<open>memory_size - 2U\<close> and
  \<open>memory_size - 4U\<close> without a guard and need the lower bound.
\<close>

definition wf_state :: "State \<Rightarrow> bool" where
  "wf_state s \<longleftrightarrow> (memory s \<noteq> None \<longrightarrow> 4 \<le> memory_size s \<and> memory_size s \<le> 2 ^ 32)"

lemma wf_state_layout: "wf_state s \<Longrightarrow> same_layout s t \<Longrightarrow> wf_state t"
  unfolding wf_state_def memory_size_def memory_None_iff
  by (simp only: same_layout_length)

lemma fast_sub:
  assumes "wf_state s" "memory s \<noteq> None" "k \<le> 4"
  shows "size_sub (memory_size s) k = memory_size s - k"
proof -
  have "memory_size s \<le> 2 ^ 32" "4 \<le> memory_size s"
    using assms(1,2) by (auto simp: wf_state_def)
  moreover have "(2::nat) ^ 32 < 2 ^ 64" by simp
  ultimately show ?thesis using assms(3) by (intro size_sub_le) linarith+
qed

lemma mapped_Ram:
  assumes "memory s \<noteq> None"
    and "unat ((a AND 0x1fffffff) - memory_base s) + w \<le> memory_size s"
  shows "mapped_address s a w = Some (Ram, unat ((a AND 0x1fffffff) - memory_base s))"
proof -
  have "w \<le> memory_size s - unat ((a AND 0x1fffffff) - memory_base s)"
    and "unat ((a AND 0x1fffffff) - memory_base s) \<le> memory_size s"
    using assms(2) by linarith+
  then show ?thesis using assms(1) by (simp add: mapped_address_def Let_def)
qed

text \<open>With a well-formed state the fast path is the first case of \<open>mapped_address\<close>.\<close>

lemma fast_path_mapped:
  assumes "wf_state s" "memory s \<noteq> None" "k \<le> 4"
    and "unat ((a AND 0x1fffffff) - memory_base s) \<le> size_sub (memory_size s) k"
  shows "mapped_address s a k = Some (Ram, unat ((a AND 0x1fffffff) - memory_base s))"
    and "unat ((a AND 0x1fffffff) - memory_base s) + k \<le> memory_size s"
proof -
  have "unat ((a AND 0x1fffffff) - memory_base s) \<le> memory_size s - k"
    using assms(4) unfolding fast_sub [OF assms(1-3)] .
  moreover have "4 \<le> memory_size s" using assms(1,2) by (auto simp: wf_state_def)
  ultimately show *: "unat ((a AND 0x1fffffff) - memory_base s) + k \<le> memory_size s"
    using assms(3) by linarith
  show "mapped_address s a k = Some (Ram, unat ((a AND 0x1fffffff) - memory_base s))"
    using assms(2) * by (rule mapped_Ram)
qed

section \<open>The contract\<close>

locale guest_access =
  fixes load :: "State \<Rightarrow> u32 \<Rightarrow> 'v \<times> State"
    and store :: "State \<Rightarrow> u32 \<Rightarrow> 'v \<Rightarrow> State"
    and width :: nat
    and aligned :: "u32 \<Rightarrow> bool"
    and enc :: "'v \<Rightarrow> u8 list"
    and dec :: "u8 list \<Rightarrow> 'v"
  assumes dec_enc: "dec (enc v) = v"
    and length_enc: "length (enc v) = width"
    and load_mapped: "wf_state s \<Longrightarrow> aligned a \<Longrightarrow> mapped_address s a width = Some p \<Longrightarrow>
          load s a = (dec (read_at s p width), s)"
    and store_mapped: "wf_state s \<Longrightarrow> aligned a \<Longrightarrow> mapped_address s a width = Some p \<Longrightarrow>
          store s a v = write_at s p (enc v)"
    and load_faults: "wf_state s \<Longrightarrow> \<not> direct_memory_access s \<Longrightarrow>
          \<not> aligned a \<or> mapped_address s a width = None \<Longrightarrow>
          snd (load s a) = note_memory_fault s a"
    and store_faults: "wf_state s \<Longrightarrow> \<not> direct_memory_access s \<Longrightarrow>
          \<not> aligned a \<or> mapped_address s a width = None \<Longrightarrow>
          store s a v = note_memory_fault s a"
    and load_layout: "wf_state s \<Longrightarrow> same_layout s (snd (load s a))"
    and store_layout: "wf_state s \<Longrightarrow> same_layout s (store s a v)"
    and load_safe: "wf_state s \<Longrightarrow> host_fault (snd (load s a)) = host_fault s"
    and store_safe: "wf_state s \<Longrightarrow> host_fault (store s a v) = host_fault s"
begin

lemma store_wf: "wf_state s \<Longrightarrow> wf_state (store s a v)"
  by (rule wf_state_layout [OF _ store_layout])

lemma load_wf: "wf_state s \<Longrightarrow> wf_state (snd (load s a))"
  by (rule wf_state_layout [OF _ load_layout])

lemma store_mapped_address: "wf_state s \<Longrightarrow> mapped_address (store s a v) b w = mapped_address s b w"
  by (rule same_layout_mapped [OF store_layout])

lemma load_store_same:
  assumes wf: "wf_state s" and al: "aligned a" and ok: "address_ok s a width"
  shows "load (store s a v) a = (v, store s a v)"
proof -
  from ok obtain r i where p: "mapped_address s a width = Some (r, i)"
    by (auto simp: address_ok_def)
  have p': "mapped_address (store s a v) a width = Some (r, i)"
    using p wf by (simp add: store_mapped_address)
  have "read_at (store s a v) (r, i) width = enc v"
    using mapped_address_bounds [OF p]
    by (simp add: store_mapped [OF wf al p] read_write_same length_enc)
  then show ?thesis
    by (simp add: load_mapped [OF store_wf [OF wf] al p'] dec_enc)
qed

lemma load_store_other:
  assumes wf: "wf_state s" and al: "aligned a" "aligned b"
    and p: "mapped_address s a width = Some (r, i)"
    and q: "mapped_address s b width = Some (r', j)"
    and disjoint: "r' \<noteq> r \<or> j + width \<le> i \<or> i + width \<le> j"
  shows "load (store s a v) b = (fst (load s b), store s a v)"
proof -
  have q': "mapped_address (store s a v) b width = Some (r', j)"
    using q wf by (simp add: store_mapped_address)
  have "read_at (store s a v) (r', j) width = read_at s (r', j) width"
    unfolding store_mapped [OF wf al(1) p]
    using mapped_address_bounds [OF p] mapped_address_bounds [OF q] disjoint
    by (intro read_write_other) (auto simp: length_enc)
  then show ?thesis
    by (simp add: load_mapped [OF store_wf [OF wf] al(2) q'] load_mapped [OF wf al(2) q])
qed

lemma store_fault_reported:
  "wf_state s \<Longrightarrow> \<not> direct_memory_access s \<Longrightarrow> \<not> aligned a \<or> \<not> address_ok s a width \<Longrightarrow>
   stop_reason (store s a v) = Memory_fault \<and> fault_address (store s a v) = a \<and>
   buffer (store s a v) = buffer s"
proof -
  assume "wf_state s" "\<not> direct_memory_access s" "\<not> aligned a \<or> \<not> address_ok s a width"
  then have "store s a v = note_memory_fault s a"
    by (intro store_faults) (simp_all add: address_ok_def del: not_None_eq)
  then show ?thesis
    by (simp add: note_memory_fault_def buffer_def buffer_of_def fun_eq_iff split: region.splits)
qed

end

section \<open>The accesses of the runtime provide it\<close>

lemma note_memory_fault_frame [frame_simps, simp]:
  "buffer_of (note_memory_fault s a) = buffer_of s"
  "memory_base (note_memory_fault s a) = memory_base s"
  "host_fault (note_memory_fault s a) = host_fault s"
  by (simp_all add: note_memory_fault_def buffer_of_def fun_eq_iff split: region.splits)

lemma note_memory_fault_layout [simp]: "same_layout s (note_memory_fault s a)"
  by (simp add: same_layout_def)

lemma direct_address_ok_cases:
  "direct_address_ok s a w = (False, note_memory_fault s a) \<or> direct_address_ok s a w = (True, s)"
  by (simp add: direct_address_ok_def note_memory_fault_def)

lemma set_native_bytes_layout [simp]:
  "same_layout s (set_native_bytes s a bs)" "host_fault (set_native_bytes s a bs) = host_fault s"
  by (auto simp: same_layout_def set_native_bytes_def buffer_of_def split: region.splits)

lemma write_at_frame [frame_simps, simp]:
  "host_fault (write_at s p bs) = host_fault s"
  "stop_reason (write_at s p bs) = stop_reason s"
  "gpr (write_at s p bs) = gpr s"
  "pc (write_at s p bs) = pc s"
  "direct_memory_access (write_at s p bs) = direct_memory_access s"
  by (simp_all add: write_at_def)

text \<open>The three loads and stores in the form the contract states, with the fast path gone.\<close>

definition slow_load :: "State \<Rightarrow> u32 \<Rightarrow> nat \<Rightarrow> bool \<Rightarrow> (u8 list \<Rightarrow> 'v) \<Rightarrow> ('v::zero) \<times> State" where
  "slow_load s a w al dec =
     (if \<not> al then (0, note_memory_fault s a)
      else case mapped_address s a w of
        Some p \<Rightarrow> (dec (read_at s p w), s)
      | None \<Rightarrow>
          if direct_memory_access s then
            (case direct_address_ok s a w of
               (False, s') \<Rightarrow> (0, s')
             | (True, s') \<Rightarrow> (dec (native_bytes s' a w), s'))
          else (0, note_memory_fault s a))"

definition slow_store :: "State \<Rightarrow> u32 \<Rightarrow> bool \<Rightarrow> u8 list \<Rightarrow> State" where
  "slow_store s a al bs =
     (if \<not> al then note_memory_fault s a
      else case mapped_address s a (length bs) of
        Some p \<Rightarrow> write_at s p bs
      | None \<Rightarrow>
          if direct_memory_access s then
            (case direct_address_ok s a (length bs) of
               (False, s') \<Rightarrow> s'
             | (True, s') \<Rightarrow> set_native_bytes s' a bs)
          else note_memory_fault s a)"

lemma slow_load_laws:
  "al \<Longrightarrow> mapped_address s a w = Some p \<Longrightarrow> slow_load s a w al dec = (dec (read_at s p w), s)"
  "\<not> direct_memory_access s \<Longrightarrow> \<not> al \<or> mapped_address s a w = None \<Longrightarrow>
     snd (slow_load s a w al dec) = note_memory_fault s a"
  "same_layout s (snd (slow_load s a w al dec))"
  "host_fault (snd (slow_load s a w al dec)) = host_fault s"
  using direct_address_ok_cases [of s a w]
  by (auto simp: slow_load_def split: option.splits)

lemma slow_store_laws:
  "al \<Longrightarrow> mapped_address s a (length bs) = Some p \<Longrightarrow> slow_store s a al bs = write_at s p bs"
  "\<not> direct_memory_access s \<Longrightarrow> \<not> al \<or> mapped_address s a (length bs) = None \<Longrightarrow>
     slow_store s a al bs = note_memory_fault s a"
  "same_layout s (slow_store s a al bs)"
  "host_fault (slow_store s a al bs) = host_fault s"
  using direct_address_ok_cases [of s a "length bs"]
  by (auto simp: slow_store_def split: option.splits
           dest!: mapped_address_bounds(2) intro!: write_at_layout)

lemma fast_load_eq:
  assumes "wf_state s" "k \<le> 4"
  shows "(if memory s \<noteq> None \<and>
            unat ((a AND 0x1fffffff) - memory_base s) \<le> size_sub (memory_size s) k \<and> al
          then (let (bs, s') = fast_read s (unat ((a AND 0x1fffffff) - memory_base s)) k
                in (dec bs, s'))
          else slow_load s a k al dec) = slow_load s a k al dec"
  using fast_path_mapped [of s k a] assms by (auto simp: slow_load_def fast_read_def)

lemma fast_store_eq:
  assumes "wf_state s" "length bs \<le> 4"
  shows "(if memory s \<noteq> None \<and>
            unat ((a AND 0x1fffffff) - memory_base s) \<le> size_sub (memory_size s) (length bs) \<and> al
          then fast_write s (unat ((a AND 0x1fffffff) - memory_base s)) bs
          else slow_store s a al bs) = slow_store s a al bs"
  using fast_path_mapped [of s "length bs" a] assms by (auto simp: slow_store_def fast_write_def)

lemma byte_in_range:
  assumes "wf_state s" "memory s \<noteq> None"
  shows "n < memory_size s \<longleftrightarrow> n \<le> size_sub (memory_size s) 1"
  using assms fast_sub [of s 1] by (auto simp: wf_state_def)

lemma load8_slow:
  assumes wf: "wf_state s"
  shows "load8 s a = slow_load s a 1 True (\<lambda>bs. bs ! 0)"
proof -
  have "load8 s a =
      (if memory s \<noteq> None \<and>
          unat ((a AND 0x1fffffff) - memory_base s) \<le> size_sub (memory_size s) 1 \<and> True
       then (let (bs, s') = fast_read s (unat ((a AND 0x1fffffff) - memory_base s)) 1
             in (bs ! 0, s'))
       else slow_load s a 1 True (\<lambda>bs. bs ! 0))"
    using byte_in_range [OF wf]
    by (auto simp: load8_def slow_load_def Let_def native_bytes_def
             split: option.splits prod.splits bool.splits)
  also have "\<dots> = slow_load s a 1 True (\<lambda>bs. bs ! 0)"
    by (rule fast_load_eq [OF wf]) simp
  finally show ?thesis .
qed

lemma load16_slow: "wf_state s \<Longrightarrow> load16 s a = slow_load s a 2 (a AND 1 = 0) word16_of"
  using fast_load_eq [of s 2 a "a AND 1 = 0" word16_of]
  unfolding load16_def slow_load_def Let_def by (simp only: numeral_le_iff semiring_norm simp_thms)

lemma load32_slow: "wf_state s \<Longrightarrow> load32 s a = slow_load s a 4 (a AND 3 = 0) word32_of"
  using fast_load_eq [of s 4 a "a AND 3 = 0" word32_of]
  unfolding load32_def slow_load_def Let_def by (simp only: numeral_le_iff semiring_norm simp_thms)

lemma store8_slow:
  assumes wf: "wf_state s"
  shows "store8 s a v = slow_store s a True [v]"
proof -
  have "store8 s a v =
      (if memory s \<noteq> None \<and>
          unat ((a AND 0x1fffffff) - memory_base s) \<le> size_sub (memory_size s) (length [v]) \<and> True
       then fast_write s (unat ((a AND 0x1fffffff) - memory_base s)) [v]
       else slow_store s a True [v])"
    using byte_in_range [OF wf] by (auto simp: store8_def slow_store_def Let_def split: option.splits)
  also have "\<dots> = slow_store s a True [v]"
    by (rule fast_store_eq [OF wf]) simp
  finally show ?thesis .
qed

lemma store16_slow: "wf_state s \<Longrightarrow> store16 s a v = slow_store s a (a AND 1 = 0) (bytes16 v)"
  using fast_store_eq [of s "bytes16 v" a "a AND 1 = 0"]
  unfolding store16_def slow_store_def Let_def length_bytes
  by (simp only: numeral_le_iff semiring_norm simp_thms)

lemma store32_slow: "wf_state s \<Longrightarrow> store32 s a v = slow_store s a (a AND 3 = 0) (bytes32 v)"
  using fast_store_eq [of s "bytes32 v" a "a AND 3 = 0"]
  unfolding store32_def slow_store_def Let_def length_bytes
  by (simp only: numeral_le_iff semiring_norm simp_thms)

lemmas load_slow = load8_slow load16_slow load32_slow
lemmas store_slow = store8_slow store16_slow store32_slow

interpretation acc8: guest_access load8 store8 1 "\<lambda>_. True" "\<lambda>v. [v]" "\<lambda>bs. bs ! 0"
  by unfold_locales (simp_all add: load_slow store_slow slow_load_laws slow_store_laws)

interpretation acc16: guest_access load16 store16 2 "\<lambda>a. a AND 1 = 0" bytes16 word16_of
  by unfold_locales (simp_all add: load_slow store_slow slow_load_laws slow_store_laws)

interpretation acc32: guest_access load32 store32 4 "\<lambda>a. a AND 3 = 0" bytes32 word32_of
  by unfold_locales (simp_all add: load_slow store_slow slow_load_laws slow_store_laws)

section \<open>What guest memory promises\<close>

text \<open>A machine with RAM at the address where a PSP user partition starts, for the witnesses.\<close>

definition sample_state :: "u8 list \<Rightarrow> State" where
  "sample_state ram = initial_state\<lparr>memory := Some ram, memory_base := 0x08800000\<rparr>"

lemma sample_state_wf: "4 \<le> length ram \<Longrightarrow> length ram \<le> 2 ^ 32 \<Longrightarrow> wf_state (sample_state ram)"
  by (simp add: wf_state_def memory_size_def sample_state_def buffer_def buffer_of_def)

lemma sample_state_mapped:
  assumes "unat ((a AND 0x1fffffff) - 0x08800000) = i" "i + w \<le> length ram"
  shows "mapped_address (sample_state ram) a w = Some (Ram, i)"
  using assms mapped_Ram [of "sample_state ram" a w]
  by (simp add: sample_state_def memory_size_def buffer_def buffer_of_def)



text \<open>
  The fast path of the 32-bit load subtracts four from the buffer size without a
  guard. With a RAM buffer of fewer than four bytes the difference wraps, so an aligned
  access at any offset, however far past the end, indexes the buffer: the lower bound of
  \<open>wf_state\<close> is needed, and nothing in the runtime enforces it.
\<close>

theorem load32_small_buffer_unsafe:
  assumes "memory s = Some ram" "length ram < 4" "a AND 3 = 0"
  shows "host_fault (snd (load32 s a))"
proof -
  have sz: "memory_size s = length ram" using assms(1) by (simp add: memory_size_def buffer_def buffer_of_def)
  have "size_sub (length ram) 4 \<ge> 2 ^ 64 - 4"
  proof -
    have "length ram + 2 ^ 64 - 4 < 2 ^ 64" using assms(2) by simp
    then show ?thesis by (simp only: size_sub_def mod_less)
  qed
  moreover have "unat ((a AND 0x1fffffff) - memory_base s) < 2 ^ 32"
    using unsigned_less [of "(a AND 0x1fffffff) - memory_base s"] by simp
  ultimately have "unat ((a AND 0x1fffffff) - memory_base s) \<le> size_sub (memory_size s) 4"
    unfolding sz by simp
  then show ?thesis
    using assms sz by (simp add: load32_def Let_def fast_read_def note_host_fault_def)
qed

lemma load32_small_buffer_unsafe_witness:
  "host_fault (snd (load32 (sample_state [1, 2]) 0x0a000000))"
  using load32_small_buffer_unsafe [of "sample_state [1, 2]" "[1, 2]" "0x0a000000"]
  by (simp add: sample_state_def)

text \<open>
  Load after store. An aligned 32-bit store to a mapped address is read back by the
  32-bit load there, and by the byte loads at the four addresses it covers in little-endian
  order; the reads change nothing.
\<close>

theorem load_after_store:
  assumes wf: "wf_state s" and al: "a AND 3 = 0" and ok: "mapped_address s a 4 = Some (r, i)"
    and k: "k < 4" "mapped_address s (a + of_nat k) 1 = Some (r, i + k)"
  shows "load32 (store32 s a v) a = (v, store32 s a v) \<and>
         load8 (store32 s a v) (a + of_nat k) = (bytes32 v ! k, store32 s a v)"
proof
  show "load32 (store32 s a v) a = (v, store32 s a v)"
    using wf al ok by (intro acc32.load_store_same) (simp_all add: address_ok_def)
  have t: "store32 s a v = write_at s (r, i) (bytes32 v)"
    by (rule acc32.store_mapped [OF wf al ok])
  have "mapped_address (store32 s a v) (a + of_nat k) 1 = Some (r, i + k)"
    using k(2) wf by (simp add: acc32.store_mapped_address)
  then have "load8 (store32 s a v) (a + of_nat k) =
      (read_at (store32 s a v) (r, i + k) 1 ! 0, store32 s a v)"
    by (rule acc8.load_mapped [OF acc32.store_wf [OF wf] TrueI])
  moreover have "read_at (store32 s a v) (r, i + k) 1 ! 0 = bytes32 v ! k"
    using mapped_address_bounds [OF ok] k(1) by (simp add: t read_at_def write_at_def nth_overwrite)
  ultimately show "load8 (store32 s a v) (a + of_nat k) = (bytes32 v ! k, store32 s a v)"
    by simp
qed

lemma load_after_store_witness:
  "load8 (store32 (sample_state [0, 0, 0, 0, 0, 0, 0, 0]) 0x48800004 0x11223344) 0x48800006 =
     (0x22, store32 (sample_state [0, 0, 0, 0, 0, 0, 0, 0]) 0x48800004 0x11223344)"
  using load_after_store [of "sample_state [0, 0, 0, 0, 0, 0, 0, 0]" "0x48800004" Ram 4 2 "0x11223344"]
  by (simp add: sample_state_wf sample_state_mapped bytes32_def)

text \<open>
  Stores are local. A store that maps to one place leaves every aligned 32-bit load
  that maps to a disjoint place (another buffer, or bytes before or after) unchanged.
\<close>

theorem store_elsewhere_invisible:
  assumes "wf_state s" "a AND 3 = 0" "b AND 3 = 0"
    and "mapped_address s a 4 = Some (r, i)" "mapped_address s b 4 = Some (r', j)"
    and "r' \<noteq> r \<or> j + 4 \<le> i \<or> i + 4 \<le> j"
  shows "load32 (store32 s a v) b = (fst (load32 s b), store32 s a v)"
  by (rule acc32.load_store_other [OF assms])

lemma store_elsewhere_invisible_witness:
  "fst (load32 (store32 (sample_state [1, 0, 0, 0, 2, 0, 0, 0]) 0x08800004 9) 0x08800000) =
     fst (load32 (sample_state [1, 0, 0, 0, 2, 0, 0, 0]) 0x08800000)"
  using store_elsewhere_invisible [of "sample_state [1, 0, 0, 0, 2, 0, 0, 0]" "0x08800004" "0x08800000" Ram 4 Ram 0 9]
  by (simp add: sample_state_wf sample_state_mapped)



end
