(* ===== verification/Guest_Unaligned.thy ===== *)
theory Guest_Unaligned
  imports Guest_Access
begin

text \<open>
  The unaligned accesses LWL, LWR, SWL and SWR of \<open>runtime.hpp\<close>
  (\<open>load_word_left\<close> .. \<open>store_word_right\<close>) and the fetch of relocated instruction fields
  (\<open>instruction_word\<close> and its derivatives), with what a compiler relies on: an LWR/LWL pair
  reads, and an SWR/SWL pair writes, four consecutive bytes at any address.
\<close>

section \<open>Definitions\<close>

definition load_word_left :: "State \<Rightarrow> u32 \<Rightarrow> u32 \<Rightarrow> u32 \<times> State" where
  "load_word_left s address v =
     (let offset = address AND 3; aligned = address AND NOT 3; count = unat offset + 1 in
      case mapped_address s aligned count of
        Some p \<Rightarrow> (word32_of (take (4 - count) (bytes32 v) @ read_at s p count), s)
      | None \<Rightarrow>
          if direct_memory_access s then
            (case direct_address_ok s aligned count of
               (False, s') \<Rightarrow> (v, s')
             | (True, s') \<Rightarrow>
                 (word32_of (take (4 - count) (bytes32 v) @ native_bytes s' aligned count), s'))
          else (v, note_memory_fault s aligned))"

definition load_word_right :: "State \<Rightarrow> u32 \<Rightarrow> u32 \<Rightarrow> u32 \<times> State" where
  "load_word_right s address v =
     (let offset = address AND 3; count = 4 - unat offset in
      case mapped_address s address count of
        Some p \<Rightarrow> (word32_of (read_at s p count @ drop count (bytes32 v)), s)
      | None \<Rightarrow>
          if direct_memory_access s then
            (case direct_address_ok s address count of
               (False, s') \<Rightarrow> (v, s')
             | (True, s') \<Rightarrow>
                 (word32_of (native_bytes s' address count @ drop count (bytes32 v)), s'))
          else (v, note_memory_fault s address))"

definition store_word_left :: "State \<Rightarrow> u32 \<Rightarrow> u32 \<Rightarrow> State" where
  "store_word_left s address v =
     (let offset = address AND 3; aligned = address AND NOT 3; count = unat offset + 1 in
      case mapped_address s aligned count of
        Some p \<Rightarrow> write_at s p (drop (4 - count) (bytes32 v))
      | None \<Rightarrow>
          if direct_memory_access s then
            (case direct_address_ok s aligned count of
               (False, s') \<Rightarrow> s'
             | (True, s') \<Rightarrow> set_native_bytes s' aligned (drop (4 - count) (bytes32 v)))
          else note_memory_fault s aligned)"

definition store_word_right :: "State \<Rightarrow> u32 \<Rightarrow> u32 \<Rightarrow> State" where
  "store_word_right s address v =
     (let offset = address AND 3; count = 4 - unat offset in
      case mapped_address s address count of
        Some p \<Rightarrow> write_at s p (take count (bytes32 v))
      | None \<Rightarrow>
          if direct_memory_access s then
            (case direct_address_ok s address count of
               (False, s') \<Rightarrow> s'
             | (True, s') \<Rightarrow> set_native_bytes s' address (take count (bytes32 v)))
          else note_memory_fault s address)"

text \<open>Fields of the instruction word at the current program counter, or of a fallback.\<close>

definition instruction_word :: "State \<Rightarrow> u32 \<Rightarrow> u32 \<Rightarrow> u32" where
  "instruction_word s current_pc fallback =
     (if current_pc AND 3 \<noteq> 0 then fallback
      else case mapped_address s current_pc 4 of
        None \<Rightarrow> fallback
      | Some p \<Rightarrow> word32_of (read_at s p 4))"

definition instruction_immediate :: "State \<Rightarrow> u32 \<Rightarrow> u32 \<Rightarrow> u32" where
  "instruction_immediate s current_pc fallback = instruction_word s current_pc fallback AND 0xffff"

definition instruction_signed_immediate :: "State \<Rightarrow> u32 \<Rightarrow> u32 \<Rightarrow> u32" where
  "instruction_signed_immediate s current_pc fallback =
     scast (ucast (instruction_immediate s current_pc fallback) :: u16)"

definition instruction_signed_immediate_s32 :: "State \<Rightarrow> u32 \<Rightarrow> u32 \<Rightarrow> int" where
  "instruction_signed_immediate_s32 s current_pc fallback =
     sint (ucast (instruction_immediate s current_pc fallback) :: u16)"

definition instruction_branch_target :: "State \<Rightarrow> u32 \<Rightarrow> u32 \<Rightarrow> u32" where
  "instruction_branch_target s current_pc fallback =
     current_pc + 4 + instruction_signed_immediate s current_pc fallback * 4"

definition instruction_jump_target :: "State \<Rightarrow> u32 \<Rightarrow> u32 \<Rightarrow> u32" where
  "instruction_jump_target s current_pc fallback =
     (let instruction = instruction_word s current_pc fallback in
      ((current_pc + 4) AND 0xf0000000) OR push_bit 2 (instruction AND 0x03ffffff))"

section \<open>Addresses inside a word\<close>

lemma word_lt_4_cases:
  fixes k :: u32
  assumes "k < 4"
  obtains "k = 0" | "k = 1" | "k = 2" | "k = 3"
proof -
  have "unat k < 4" using assms by (simp add: word_less_nat_alt)
  then have "unat k = unat (0 :: u32) \<or> unat k = unat (1 :: u32) \<or>
             unat k = unat (2 :: u32) \<or> unat k = unat (3 :: u32)"
    by simp linarith
  then show thesis using that by (simp only: word_unat_eq_iff [symmetric]) blast
qed

lemma aligned_and_small:
  fixes b k :: u32
  assumes "b AND 3 = 0" "k < 4"
  shows "b AND k = 0"
proof -
  have "3 AND k = k" using assms(2) by (cases rule: word_lt_4_cases) simp_all
  then have "b AND k = (b AND 3) AND k" by (simp add: and.assoc)
  then show ?thesis using assms(1) by simp
qed

lemma aligned_plus_or:
  fixes b k :: u32
  assumes "b AND 3 = 0" "k < 4"
  shows "b + k = b OR k"
  using aligned_and_small [OF assms] by (rule disjunctive_add_eq_or)

lemma aligned_plus_and_3:
  fixes b k :: u32
  assumes "b AND 3 = 0" "k < 4"
  shows "(b + k) AND 3 = k" "(b + k) AND NOT 3 = b" "(b + k) AND - 4 = b"
proof -
  have k3: "k AND 3 = k" "k AND - 4 = 0" using assms(2) by (cases rule: word_lt_4_cases; simp)+
  have "b AND - 4 = (b AND - 4) OR (b AND 3)" using assms(1) by simp
  also have "\<dots> = b AND (- 4 OR 3)" by (simp only: bit.conj_disj_distrib)
  finally have b4: "b AND - 4 = b" by simp
  show "(b + k) AND 3 = k" and m4: "(b + k) AND - 4 = b"
    by (simp_all only: aligned_plus_or [OF assms] bit.conj_disj_distrib2 k3 assms(1) b4
                       or.left_neutral or.right_neutral)
  show "(b + k) AND NOT 3 = b" using m4 by simp
qed

lemma canonical_plus_small:
  fixes b k :: u32
  assumes "b AND 3 = 0" "k < 4"
  shows "(b + k) AND 0x1fffffff = (b AND 0x1fffffff) + k"
proof -
  have k: "k AND 0x1fffffff = k" using assms(2) by (cases rule: word_lt_4_cases) simp_all
  have "(b AND 0x1fffffff) AND 3 = (b AND 3) AND 0x1fffffff"
    by (simp only: and.assoc and.commute and.left_commute)
  then have "(b AND 0x1fffffff) + k = (b AND 0x1fffffff) OR k"
    using assms by (intro aligned_plus_or) simp_all
  then show ?thesis
    by (simp add: aligned_plus_or [OF assms] bit.conj_disj_distrib2 k)
qed

lemma mapped_RamD:
  assumes "mapped_address s a w = Some (Ram, i)"
  shows "memory s \<noteq> None" "i = unat ((a AND 0x1fffffff) - memory_base s)" "i + w \<le> memory_size s"
  using assms
  by (auto simp: mapped_address_def region_address_def Let_def split: if_splits)

lemma mapped_Ram_plus:
  assumes wf: "wf_state s" and p: "mapped_address s b w = Some (Ram, i)"
    and al: "b AND 3 = 0" "k < 4" and n: "unat k + n \<le> w" "0 < n"
  shows "mapped_address s (b + k) n = Some (Ram, i + unat k)"
proof -
  note D = mapped_RamD [OF p]
  have size: "memory_size s \<le> 2 ^ 32" using wf D(1) by (auto simp: wf_state_def)
  have "((b + k) AND 0x1fffffff) - memory_base s = ((b AND 0x1fffffff) - memory_base s) + k"
    by (simp add: canonical_plus_small [OF al])
  then have "unat (((b + k) AND 0x1fffffff) - memory_base s) =
      (unat ((b AND 0x1fffffff) - memory_base s) + unat k) mod 2 ^ LENGTH(32)"
    by (simp only: unat_word_ariths)
  also have "\<dots> = i + unat k"
    unfolding D(2) [symmetric] using D(3) size n by (intro mod_less) simp
  finally have off: "unat (((b + k) AND 0x1fffffff) - memory_base s) = i + unat k" .
  have "mapped_address s (b + k) n = Some (Ram, unat (((b + k) AND 0x1fffffff) - memory_base s))"
    using D n by (intro mapped_Ram) (simp_all add: off)
  then show ?thesis by (simp add: off)
qed

section \<open>Pairs of unaligned accesses\<close>

lemma slice_bytes_append:
  "i + m + n \<le> length b \<Longrightarrow> slice_bytes b i m @ slice_bytes b (i + m) n = slice_bytes b i (m + n)"
  by (simp add: slice_bytes_def take_add add.commute)

lemma overwrite_adjacent:
  "i + length xs + length ys \<le> length b \<Longrightarrow>
   overwrite (overwrite b i xs) (i + length xs) ys = overwrite b i (xs @ ys)"
  by (simp add: overwrite_def ac_simps)

lemma overwrite_again:
  "i + length xs \<le> length b \<Longrightarrow> length ys = length xs \<Longrightarrow> overwrite (overwrite b i xs) i ys = overwrite b i ys"
  by (simp add: overwrite_def)

lemma load_word_right_mapped:
  assumes "b AND 3 = 0" "k < 4" "mapped_address s (b + k) (4 - unat k) = Some p"
  shows "load_word_right s (b + k) v =
           (word32_of (read_at s p (4 - unat k) @ drop (4 - unat k) (bytes32 v)), s)"
  by (simp add: load_word_right_def aligned_plus_and_3 [OF assms(1,2)] assms(3) Let_def)

lemma load_word_left_mapped:
  assumes "b AND 3 = 0" "k < 4" "mapped_address s b (unat k + 1) = Some p"
  shows "load_word_left s (b + k) v =
           (word32_of (take (3 - unat k) (bytes32 v) @ read_at s p (unat k + 1)), s)"
  using assms(3) by (simp add: load_word_left_def aligned_plus_and_3 [OF assms(1,2)] Let_def)

lemma store_word_right_mapped:
  assumes "b AND 3 = 0" "k < 4" "mapped_address s (b + k) (4 - unat k) = Some p"
  shows "store_word_right s (b + k) v = write_at s p (take (4 - unat k) (bytes32 v))"
  by (simp add: store_word_right_def aligned_plus_and_3 [OF assms(1,2)] assms(3) Let_def)

lemma store_word_left_mapped:
  assumes "b AND 3 = 0" "k < 4" "mapped_address s b (unat k + 1) = Some p"
  shows "store_word_left s (b + k) v = write_at s p (drop (3 - unat k) (bytes32 v))"
  using assms(3) by (simp add: store_word_left_def aligned_plus_and_3 [OF assms(1,2)] Let_def)

lemma and_3_take_bit: "(x :: u32) AND 3 = take_bit 2 x"
  by (simp add: take_bit_eq_mask mask_eq_exp_minus_1)

lemma plus_4_and_3: "((b :: u32) + 4) AND 3 = b AND 3"
  unfolding and_3_take_bit by transfer (simp add: take_bit_eq_mod)

lemma second_word_prefix:
  assumes "wf_state s" "b AND 3 = 0" "mapped_address s (b + 4) 4 = Some (Ram, j)" "0 < n" "n \<le> 4"
  shows "mapped_address s (b + 4) n = Some (Ram, j)"
  using mapped_Ram_plus [OF assms(1,3), of 0 n] assms(2,4,5) by (simp add: plus_4_and_3)

text \<open>
  The byte position of the pair: LWR covers the bytes from the address to the end of its
  word, LWL the rest, in the next word unless the address is aligned.
\<close>

lemma left_half_mapped:
  assumes "wf_state s" "b AND 3 = 0" "k < 4" "k \<noteq> 0"
    and "mapped_address s (b + 4) 4 = Some (Ram, j)"
  shows "b + k + 3 = (b + 4) + (k - 1)" "unat (k - 1) + 1 = unat k" "k - 1 < 4"
    and "mapped_address s (b + 4) (unat (k - 1) + 1) = Some (Ram, j)"
    and "(b + 4) AND 3 = 0"
proof -
  show "b + k + 3 = (b + 4) + (k - 1)" by simp
  show u: "unat (k - 1) + 1 = unat k" using assms(4) by (simp add: unat_minus_one)
       (metis Suc_pred unat_gt_0)
  have "unat k < 4" using assms(3) by (simp add: word_less_nat_alt)
  then show "k - 1 < 4" using u by (simp add: word_less_nat_alt)
  show "mapped_address s (b + 4) (unat (k - 1) + 1) = Some (Ram, j)"
    using second_word_prefix [OF assms(1,2,5), of "unat k"] \<open>unat k < 4\<close> u by simp
  show "(b + 4) AND 3 = 0" using assms(2) by (simp add: plus_4_and_3)
qed

lemma right_half_mapped:
  assumes "wf_state s" "b AND 3 = 0" "k < 4" "mapped_address s b 4 = Some (Ram, i)"
  shows "mapped_address s (b + k) (4 - unat k) = Some (Ram, i + unat k)" "unat k < 4"
proof -
  show k: "unat k < 4" using assms(3) by (simp add: word_less_nat_alt)
  then show "mapped_address s (b + k) (4 - unat k) = Some (Ram, i + unat k)"
    by (intro mapped_Ram_plus [OF assms(1,4,2,3)]) simp_all
qed

section \<open>What the pairs compute\<close>

text \<open>
  LWR at an address and LWL three bytes further, the pair a MIPS compiler emits for an
  unaligned 32-bit read, return the little-endian word of the four bytes at that address,
  whatever its alignment, and change nothing. \<open>b\<close> is the aligned word, \<open>k\<close> the offset of
  the address in it; both words that hold the bytes are in guest RAM, side by side.
\<close>

theorem load_unaligned_pair:
  assumes wf: "wf_state s" and al: "b AND 3 = 0" "k < 4"
    and lo: "mapped_address s b 4 = Some (Ram, i)"
    and hi: "mapped_address s (b + 4) 4 = Some (Ram, i + 4)"
  shows "load_word_left s (b + k + 3) (fst (load_word_right s (b + k) v)) =
           (word32_of (read_at s (Ram, i + unat k) 4), s)"
proof -
  note right = right_half_mapped [OF wf al lo]
  note bounds = mapped_address_bounds(2) [OF lo] mapped_address_bounds(2) [OF hi]
  let ?R = "read_at s (Ram, i + unat k) (4 - unat k)"
  have lenR: "length ?R = 4 - unat k" using right(2) bounds by (simp add: read_at_def)
  have r: "fst (load_word_right s (b + k) v) = word32_of (?R @ drop (4 - unat k) (bytes32 v))"
    by (simp add: load_word_right_mapped [OF al right(1)])
  show ?thesis
  proof (cases "k = 0")
    case True
    then show ?thesis using load_word_left_mapped [OF al(1), of 3 s "(Ram, i)"] lo by simp
  next
    case False
    note left = left_half_mapped [OF wf al False hi]
    have "length (?R @ drop (4 - unat k) (bytes32 v)) = 4" using lenR right(2) by simp
    then have b: "bytes32 (word32_of (?R @ drop (4 - unat k) (bytes32 v))) =
        ?R @ drop (4 - unat k) (bytes32 v)"
      by (rule bytes32_word32_of)
    have "take (3 - unat (k - 1)) (?R @ drop (4 - unat k) (bytes32 v)) = ?R"
      using lenR left(2) by simp
    moreover have "?R @ read_at s (Ram, i + 4) (unat k) = read_at s (Ram, i + unat k) 4"
      using slice_bytes_append [of "i + unat k" "4 - unat k" "unat k" "buffer s Ram"]
        right(2) bounds by (simp add: read_at_def)
    ultimately show ?thesis
      unfolding r left(1) load_word_left_mapped [OF left(5,3,4)] b left(2) by simp
  qed
qed

lemma load_unaligned_pair_witness:
  "fst (load_word_left (sample_state [1, 2, 3, 4, 5, 6, 7, 8]) (0x08800000 + 3 + 3)
     (fst (load_word_right (sample_state [1, 2, 3, 4, 5, 6, 7, 8]) (0x08800000 + 3) 0))) = 0x07060504"
  using load_unaligned_pair [of "sample_state [1, 2, 3, 4, 5, 6, 7, 8]" "0x08800000" 3 0 0]
  by (simp add: sample_state_wf sample_state_mapped) (simp add: read_at_def slice_bytes_def word32_of_def le32_def sample_state_def buffer_def buffer_of_def)

text \<open>
  SWR at an address and SWL three bytes further write exactly the four little-endian
  bytes of the value there: the pair equals one four-byte copy into guest RAM.
\<close>

theorem store_unaligned_pair:
  assumes wf: "wf_state s" and al: "b AND 3 = 0" "k < 4"
    and lo: "mapped_address s b 4 = Some (Ram, i)"
    and hi: "mapped_address s (b + 4) 4 = Some (Ram, i + 4)"
  shows "store_word_left (store_word_right s (b + k) v) (b + k + 3) v =
           write_at s (Ram, i + unat k) (bytes32 v)"
proof -
  note right = right_half_mapped [OF wf al lo]
  note bounds = mapped_address_bounds [OF lo] mapped_address_bounds(2) [OF hi]
  let ?lo = "take (4 - unat k) (bytes32 v)"
  let ?t = "write_at s (Ram, i + unat k) ?lo"
  have t: "store_word_right s (b + k) v = ?t"
    by (rule store_word_right_mapped [OF al right(1)])
  have lay: "same_layout s ?t" using bounds right(2) by (intro write_at_layout) simp
  have wf': "wf_state ?t" by (rule wf_state_layout [OF wf lay])
  have buf: "buffer ?t Ram = overwrite (buffer s Ram) (i + unat k) ?lo"
    using bounds(1) by (simp add: write_at_def)
  show ?thesis
  proof (cases "k = 0")
    case True
    have "mapped_address ?t b 4 = Some (Ram, i)" using lo by (simp add: same_layout_mapped [OF lay])
    with True show ?thesis unfolding t
      using store_word_left_mapped [OF al(1), of 3 ?t "(Ram, i)"] buf bounds
      by (simp add: write_at_def overwrite_again)
  next
    case False
    have hi': "mapped_address ?t (b + 4) 4 = Some (Ram, i + 4)"
      using hi by (simp add: same_layout_mapped [OF lay])
    note left = left_half_mapped [OF wf' al False hi']
    have "overwrite (overwrite (buffer s Ram) (i + unat k) ?lo) (i + 4) (drop (4 - unat k) (bytes32 v)) =
        overwrite (buffer s Ram) (i + unat k) (bytes32 v)"
      using overwrite_adjacent [of "i + unat k" ?lo "drop (4 - unat k) (bytes32 v)" "buffer s Ram"]
        right(2) bounds by simp
    moreover have "3 - unat (k - 1) = 4 - unat k" using left(2) right(2) by linarith
    ultimately show ?thesis
      unfolding t left(1) store_word_left_mapped [OF left(5,3,4)]
      by (simp add: write_at_def [of ?t] buf) (simp add: write_at_def)
  qed
qed

lemma store_unaligned_pair_witness:
  "buffer (store_word_left (store_word_right (sample_state [1, 2, 3, 4, 5, 6, 7, 8]) (0x08800000 + 3)
     0x44332211) (0x08800000 + 3 + 3) 0x44332211) Ram = [1, 2, 3, 0x11, 0x22, 0x33, 0x44, 8]"
  using store_unaligned_pair [of "sample_state [1, 2, 3, 4, 5, 6, 7, 8]" "0x08800000" 3 0 "0x44332211"]
  by (simp add: sample_state_wf sample_state_mapped) (simp add: write_at_def overwrite_def bytes32_def sample_state_def buffer_def buffer_of_def set_buffer_def)

end
