(* ===== verification/Interpreter.thy ===== *)
theory Interpreter
  imports Vfpu Guest_Unaligned "HOL-Library.Signed_Division"
begin

text \<open>
  The reference interpreter \<open>interpret_allegrex\<close> of \<open>include/psprecomp/interpreter.hpp\<close>: it
  fetches the word at an address, decodes it, executes it on the \<open>State\<close> and handles the
  delay slot of a pending branch. One definition per group of cases of the switch; each
  takes the state after the prologue, the decoded instruction and the address it is at.

  Two things are parameters. \<open>HostFpu\<close> (theory \<open>Cpu_Ops\<close>) stands for what C++ leaves to the
  host, \<open>HostMath\<close> (theory \<open>Vfpu\<close>) for the functions of the C library. The 64-bit signed
  additions of \<open>madd\<close> and \<open>msub\<close> wrap here, which is what the hosts do.
\<close>

section \<open>Registers\<close>

definition reg :: "State \<Rightarrow> u32 \<Rightarrow> u32" where
  "reg s i = gpr s (unat i)"

definition set_gpr :: "State \<Rightarrow> u32 \<Rightarrow> u32 \<Rightarrow> State" where
  "set_gpr s i v = s\<lparr>gpr := (gpr s)(unat i := v)\<rparr>"

definition set_fpr :: "State \<Rightarrow> u32 \<Rightarrow> u32 \<Rightarrow> State" where
  "set_fpr s i v = s\<lparr>fpr := (fpr s)(unat i := v)\<rparr>"

definition of_flag :: "bool \<Rightarrow> u32" where
  "of_flag b = (if b then 1 else 0)"

definition immediate :: "DecodedInstruction \<Rightarrow> u32" where
  "immediate d = word d AND 0xffff"

definition signed_immediate :: "DecodedInstruction \<Rightarrow> u32" where
  "signed_immediate d = scast (ucast (immediate d) :: u16)"

definition sign_extend8 :: "u8 \<Rightarrow> u32" where
  "sign_extend8 b = scast b"

definition sign_extend16 :: "u16 \<Rightarrow> u32" where
  "sign_extend16 h = scast h"

definition effective_address :: "State \<Rightarrow> DecodedInstruction \<Rightarrow> u32" where
  "effective_address s d = reg s (rs d) + signed_immediate d"

section \<open>Branches and failure\<close>

definition branch :: "State \<Rightarrow> DecodedInstruction \<Rightarrow> u32 \<Rightarrow> bool \<Rightarrow> bool \<Rightarrow> State" where
  "branch s d current_pc condition likely =
     (if condition then
        s\<lparr>branch_pending := True, branch_target := current_pc + 4 + signed_immediate d * 4\<rparr>
      else if likely then s\<lparr>pc := current_pc + 8\<rparr>
      else s)"

definition fail :: "State \<Rightarrow> DecodedInstruction \<Rightarrow> u32 \<Rightarrow> State" where
  "fail s d current_pc =
     s\<lparr>stop_reason := Unsupported_instruction, fault_pc := current_pc,
       fault_address := current_pc, fault_instruction := word d\<rparr>"

section \<open>SPECIAL\<close>

definition set_hi_lo :: "State \<Rightarrow> u64 \<Rightarrow> State" where
  "set_hi_lo s v = s\<lparr>lo := ucast v, hi := ucast (drop_bit 32 v)\<rparr>"

definition accumulator :: "State \<Rightarrow> u64" where
  "accumulator s = ucast (lo s) OR push_bit 32 (ucast (hi s))"

definition signed_product :: "State \<Rightarrow> DecodedInstruction \<Rightarrow> u64" where
  "signed_product s d = of_int (as_s32 (reg s (rs d)) * as_s32 (reg s (rt d)))"

definition unsigned_product :: "State \<Rightarrow> DecodedInstruction \<Rightarrow> u64" where
  "unsigned_product s d = ucast (reg s (rs d)) * ucast (reg s (rt d))"

definition exec_mult :: "State \<Rightarrow> DecodedInstruction \<Rightarrow> State" where
  "exec_mult s d = set_hi_lo s (signed_product s d)"

definition exec_multu :: "State \<Rightarrow> DecodedInstruction \<Rightarrow> State" where
  "exec_multu s d = set_hi_lo s (unsigned_product s d)"

definition exec_div :: "State \<Rightarrow> DecodedInstruction \<Rightarrow> State" where
  "exec_div s d =
     (let left = as_s32 (reg s (rs d)); right = as_s32 (reg s (rt d)) in
      if right = 0 then
        s\<lparr>lo := (if left < 0 then 1 else 0xffffffff), hi := reg s (rs d)\<rparr>
      else if left = - (2 ^ 31) \<and> right = -1 then s\<lparr>lo := of_int left, hi := 0xffffffff\<rparr>
      else s\<lparr>lo := of_int (left sdiv right), hi := of_int (left smod right)\<rparr>)"

definition exec_divu :: "State \<Rightarrow> DecodedInstruction \<Rightarrow> State" where
  "exec_divu s d =
     (if reg s (rt d) = 0 then
        s\<lparr>lo := (if reg s (rs d) \<le> 0xffff then 0xffff else 0xffffffff), hi := reg s (rs d)\<rparr>
      else s\<lparr>lo := reg s (rs d) div reg s (rt d), hi := reg s (rs d) mod reg s (rt d)\<rparr>)"

definition exec_madd :: "State \<Rightarrow> DecodedInstruction \<Rightarrow> State" where
  "exec_madd s d = set_hi_lo s (accumulator s + signed_product s d)"

definition exec_maddu :: "State \<Rightarrow> DecodedInstruction \<Rightarrow> State" where
  "exec_maddu s d = set_hi_lo s (accumulator s + unsigned_product s d)"

definition exec_msub :: "State \<Rightarrow> DecodedInstruction \<Rightarrow> State" where
  "exec_msub s d = set_hi_lo s (accumulator s - signed_product s d)"

definition exec_msubu :: "State \<Rightarrow> DecodedInstruction \<Rightarrow> State" where
  "exec_msubu s d = set_hi_lo s (accumulator s - unsigned_product s d)"

definition countl_zero :: "u32 \<Rightarrow> u32" where
  "countl_zero v = of_nat (32 - bit_length (unat v))"

definition countl_one :: "u32 \<Rightarrow> u32" where
  "countl_one v = countl_zero (NOT v)"

definition signed_max :: "u32 \<Rightarrow> u32 \<Rightarrow> u32" where
  "signed_max a b = (if as_s32 a > as_s32 b then a else b)"

definition signed_min :: "u32 \<Rightarrow> u32 \<Rightarrow> u32" where
  "signed_min a b = (if as_s32 a < as_s32 b then a else b)"

definition exec_special :: "State \<Rightarrow> DecodedInstruction \<Rightarrow> u32 \<Rightarrow> State" where
  "exec_special s d current_pc =
     (let f = function_field d; a = reg s (rs d); b = reg s (rt d) in
      if f = 0x00 then set_gpr s (rd d) (push_bit (unat (shift d)) b)
      else if f = 0x02 then
        set_gpr s (rd d) (if rs d = 1 then rotate_right b (shift d) else drop_bit (unat (shift d)) b)
      else if f = 0x03 then set_gpr s (rd d) (arithmetic_shift_right b (shift d))
      else if f = 0x04 then set_gpr s (rd d) (push_bit (unat (a AND 31)) b)
      else if f = 0x06 then
        set_gpr s (rd d) (if shift d = 1 then rotate_right b a else drop_bit (unat (a AND 31)) b)
      else if f = 0x07 then set_gpr s (rd d) (arithmetic_shift_right b a)
      else if f = 0x08 then s\<lparr>branch_pending := True, branch_target := a\<rparr>
      else if f = 0x09 then
        (if rd d \<noteq> 0 then set_gpr s (rd d) (current_pc + 8) else s)
          \<lparr>branch_pending := True, branch_target := a\<rparr>
      else if f = 0x0a then (if b = 0 then set_gpr s (rd d) a else s)
      else if f = 0x0b then (if b \<noteq> 0 then set_gpr s (rd d) a else s)
      else if f = 0x0c then s\<lparr>stop_reason := Syscall\<rparr>
      else if f = 0x0d then s
      else if f = 0x0f then s
      else if f = 0x10 then set_gpr s (rd d) (hi s)
      else if f = 0x11 then s\<lparr>hi := a\<rparr>
      else if f = 0x12 then set_gpr s (rd d) (lo s)
      else if f = 0x13 then s\<lparr>lo := a\<rparr>
      else if f = 0x16 then set_gpr s (rd d) (countl_zero a)
      else if f = 0x17 then set_gpr s (rd d) (countl_one a)
      else if f = 0x18 then exec_mult s d
      else if f = 0x19 then exec_multu s d
      else if f = 0x1a then exec_div s d
      else if f = 0x1b then exec_divu s d
      else if f = 0x1c then exec_madd s d
      else if f = 0x1d then exec_maddu s d
      else if f = 0x2e then exec_msub s d
      else if f = 0x2f then exec_msubu s d
      else if f = 0x20 \<or> f = 0x21 then set_gpr s (rd d) (a + b)
      else if f = 0x22 \<or> f = 0x23 then set_gpr s (rd d) (a - b)
      else if f = 0x24 then set_gpr s (rd d) (a AND b)
      else if f = 0x25 then set_gpr s (rd d) (a OR b)
      else if f = 0x26 then set_gpr s (rd d) (a XOR b)
      else if f = 0x27 then set_gpr s (rd d) (NOT (a OR b))
      else if f = 0x2a then set_gpr s (rd d) (of_flag (as_s32 a < as_s32 b))
      else if f = 0x2b then set_gpr s (rd d) (of_flag (a < b))
      else if f = 0x2c then set_gpr s (rd d) (signed_max a b)
      else if f = 0x2d then set_gpr s (rd d) (signed_min a b)
      else fail s d current_pc)"

section \<open>REGIMM, jumps, branches and immediates\<close>

definition exec_regimm :: "State \<Rightarrow> DecodedInstruction \<Rightarrow> u32 \<Rightarrow> State" where
  "exec_regimm s d current_pc =
     (let t = rt d;
          ge = (t = 0x01 \<or> t = 0x03 \<or> t = 0x11 \<or> t = 0x13);
          likely = (t = 0x02 \<or> t = 0x03 \<or> t = 0x12 \<or> t = 0x13);
          link = (0x10 \<le> t \<and> t \<le> 0x13) in
      if t \<noteq> 0x00 \<and> t \<noteq> 0x01 \<and> t \<noteq> 0x02 \<and> t \<noteq> 0x03 \<and>
         t \<noteq> 0x10 \<and> t \<noteq> 0x11 \<and> t \<noteq> 0x12 \<and> t \<noteq> 0x13
      then fail s d current_pc
      else let s = (if link then set_gpr s 31 (current_pc + 8) else s) in
        branch s d current_pc
          (if ge then 0 \<le> as_s32 (reg s (rs d)) else as_s32 (reg s (rs d)) < 0) likely)"

definition exec_jump :: "State \<Rightarrow> DecodedInstruction \<Rightarrow> u32 \<Rightarrow> State" where
  "exec_jump s d current_pc =
     (let s = (if op d = 0x03 then set_gpr s 31 (current_pc + 8) else s) in
      s\<lparr>branch_pending := True,
        branch_target := ((current_pc + 4) AND 0xf0000000) OR push_bit 2 (word d AND 0x03ffffff)\<rparr>)"

definition exec_branch :: "State \<Rightarrow> DecodedInstruction \<Rightarrow> u32 \<Rightarrow> State" where
  "exec_branch s d current_pc =
     (let a = reg s (rs d); b = reg s (rt d) in
      if op d = 0x04 then branch s d current_pc (a = b) False
      else if op d = 0x05 then branch s d current_pc (a \<noteq> b) False
      else if op d = 0x06 then branch s d current_pc (as_s32 a \<le> 0) False
      else branch s d current_pc (as_s32 a > 0) False)"

definition exec_branch_likely :: "State \<Rightarrow> DecodedInstruction \<Rightarrow> u32 \<Rightarrow> State" where
  "exec_branch_likely s d current_pc =
     (let a = reg s (rs d); b = reg s (rt d) in
      if op d = 0x14 then branch s d current_pc (a = b) True
      else if op d = 0x15 then branch s d current_pc (a \<noteq> b) True
      else if op d = 0x16 then branch s d current_pc (as_s32 a \<le> 0) True
      else branch s d current_pc (as_s32 a > 0) True)"

definition exec_immediate :: "State \<Rightarrow> DecodedInstruction \<Rightarrow> State" where
  "exec_immediate s d =
     (let a = reg s (rs d) in
      if op d = 0x08 \<or> op d = 0x09 then set_gpr s (rt d) (a + signed_immediate d)
      else if op d = 0x0a then set_gpr s (rt d) (of_flag (as_s32 a < as_s32 (signed_immediate d)))
      else if op d = 0x0b then set_gpr s (rt d) (of_flag (a < signed_immediate d))
      else if op d = 0x0c then set_gpr s (rt d) (a AND immediate d)
      else if op d = 0x0d then set_gpr s (rt d) (a OR immediate d)
      else if op d = 0x0e then set_gpr s (rt d) (a XOR immediate d)
      else set_gpr s (rt d) (push_bit 16 (immediate d)))"

section \<open>The floating-point unit\<close>

definition exec_fpu_operation :: "HostFpu \<Rightarrow> State \<Rightarrow> DecodedInstruction \<Rightarrow> u32 \<Rightarrow> State" where
  "exec_fpu_operation h s d current_pc =
     (let f = function_field d; fs = rd d; fd = shift d;
          left = f32 s fs; right = f32 s (rt d);
          m = f32_significand left; e = f32_scale left in
      if f = 0x00 then set_f32 s fd (f32_add h left right)
      else if f = 0x01 then set_f32 s fd (f32_sub h left right)
      else if f = 0x02 then set_f32 s fd (f32_mul h left right)
      else if f = 0x03 then set_f32 s fd (f32_div h left right)
      else if f = 0x04 then set_f32 s fd (f32_sqrt h left)
      else if f = 0x05 then set_f32 s fd (f32_abs left)
      else if f = 0x06 then set_f32 s fd left
      else if f = 0x07 then set_f32 s fd (f32_negative left)
      else if f = 0x0c then set_fpr s fd (unchecked_s32 h left (dyadic_round m e))
      else if f = 0x0d then set_fpr s fd (unchecked_s32 h left (dyadic_trunc m e))
      else if f = 0x0e then set_fpr s fd (rounded_word left 2)
      else if f = 0x0f then set_fpr s fd (rounded_word left 3)
      else if f = 0x11 then
        (let cc = drop_bit 2 (rt d) AND 7; move_true = (rt d AND 1 \<noteq> 0) in
         if fpu_condition s cc = move_true then set_fpr s fd (fpr s (unat fs)) else s)
      else if f = 0x20 then set_fpr s fd (fpr s (unat fs))
      else if f = 0x24 then set_fpr s fd (rounded_word left (fcr31 s AND 3))
      else if 0x30 \<le> f then
        compare_f32 s (drop_bit 8 (word d) AND 7) left right (f AND 15)
      else fail s d current_pc)"

definition exec_cop1 :: "HostFpu \<Rightarrow> State \<Rightarrow> DecodedInstruction \<Rightarrow> u32 \<Rightarrow> State" where
  "exec_cop1 h s d current_pc =
     (let fmt = rs d; fs = rd d; fd = shift d in
      if fmt = 0x00 then set_gpr s (rt d) (fpr s (unat fs))
      else if fmt = 0x04 then set_fpr s fs (reg s (rt d))
      else if fmt = 0x02 then
        set_gpr s (rt d) (if fs = 0 then 0x00003351 else if fs = 31 then fcr31 s else 0)
      else if fmt = 0x06 then (if fs = 31 then s\<lparr>fcr31 := reg s (rt d)\<rparr> else s)
      else if fmt = 0x08 then
        (let cc = drop_bit 18 (word d) AND 7;
             condition = (drop_bit (if cc = 0 then 23 else 24 + unat cc) (fcr31 s) AND 1 =
                          drop_bit 16 (word d) AND 1)
         in branch s d current_pc condition (drop_bit 17 (word d) AND 1 \<noteq> 0))
      else if fmt = 0x10 then exec_fpu_operation h s d current_pc
      else if fmt = 0x14 \<and> function_field d = 0x20 then
        set_f32 s fd (f32_of_s32 (as_s32 (fpr s (unat fs))))
      else fail s d current_pc)"

section \<open>SPECIAL2 and SPECIAL3\<close>

definition exec_special2 :: "State \<Rightarrow> DecodedInstruction \<Rightarrow> u32 \<Rightarrow> State" where
  "exec_special2 s d current_pc =
     (let f = function_field d; a = reg s (rs d); b = reg s (rt d) in
      if f = 0x20 then set_gpr s (rd d) (countl_zero a)
      else if f = 0x21 then set_gpr s (rd d) (countl_one a)
      else if f = 0x2c then set_gpr s (rd d) (signed_max a b)
      else if f = 0x2d then set_gpr s (rd d) (signed_min a b)
      else fail s d current_pc)"

definition field_mask :: "u32 \<Rightarrow> u32" where
  "field_mask width = (if width = 32 then 0xffffffff else push_bit (unat width) 1 - 1)"

definition exec_special3 :: "State \<Rightarrow> DecodedInstruction \<Rightarrow> u32 \<Rightarrow> State" where
  "exec_special3 s d current_pc =
     (let f = function_field d; a = reg s (rs d); b = reg s (rt d) in
      if f = 0x00 then
        set_gpr s (rt d) (drop_bit (unat (shift d)) a AND field_mask (rd d + 1))
      else if f = 0x04 then
        (let positioned = push_bit (unat (shift d)) (field_mask (rd d - shift d + 1)) in
         set_gpr s (rt d)
           ((b AND NOT positioned) OR (push_bit (unat (shift d)) a AND positioned)))
      else if f = 0x20 \<and> shift d = 0x14 then set_gpr s (rd d) (reverse_bits b)
      else if f = 0x20 \<and> shift d = 0x02 then
        set_gpr s (rd d) (drop_bit 8 (b AND 0xff00ff00) OR push_bit 8 (b AND 0x00ff00ff))
      else if f = 0x20 \<and> shift d = 0x03 then set_gpr s (rd d) (byteswap32 b)
      else if f = 0x20 \<and> shift d = 0x10 then set_gpr s (rd d) (sign_extend8 (ucast b))
      else if f = 0x20 \<and> shift d = 0x18 then set_gpr s (rd d) (sign_extend16 (ucast b))
      else fail s d current_pc)"

section \<open>Loads and stores\<close>

definition load_gpr :: "DecodedInstruction \<Rightarrow> ('v \<Rightarrow> u32) \<Rightarrow> 'v \<times> State \<Rightarrow> State" where
  "load_gpr d convert r = set_gpr (snd r) (rt d) (convert (fst r))"

definition exec_load :: "State \<Rightarrow> DecodedInstruction \<Rightarrow> State" where
  "exec_load s d =
     (let address = effective_address s d; b = reg s (rt d) in
      if op d = 0x20 then load_gpr d sign_extend8 (load8 s address)
      else if op d = 0x21 then load_gpr d sign_extend16 (load16 s address)
      else if op d = 0x22 then load_gpr d id (load_word_left s address b)
      else if op d = 0x23 then load_gpr d id (load32 s address)
      else if op d = 0x24 then load_gpr d ucast (load8 s address)
      else if op d = 0x25 then load_gpr d ucast (load16 s address)
      else load_gpr d id (load_word_right s address b))"

definition exec_store :: "State \<Rightarrow> DecodedInstruction \<Rightarrow> State" where
  "exec_store s d =
     (let address = effective_address s d; b = reg s (rt d) in
      if op d = 0x28 then store8 s address (ucast b)
      else if op d = 0x29 then store16 s address (ucast b)
      else if op d = 0x2a then store_word_left s address b
      else if op d = 0x2b then store32 s address b
      else store_word_right s address b)"

definition exec_linked :: "State \<Rightarrow> DecodedInstruction \<Rightarrow> u32 \<Rightarrow> State" where
  "exec_linked s d current_pc =
     (let address = effective_address s d in
      if op d = 0x2f \<or> op d = 0x33 then s
      else if op d = 0x30 then load_gpr d id (load32 s address)
      else if op d = 0x31 then (let (v, s') = load32 s address in set_fpr s' (rt d) v)
      else if op d = 0x38 then set_gpr (store32 s address (reg s (rt d))) (rt d) 1
      else if op d = 0x39 then store32 s address (fpr s (unat (rt d)))
      else fail s d current_pc)"

section \<open>The interpreter\<close>

definition vfpu_opcode :: "u32 \<Rightarrow> bool" where
  "vfpu_opcode opc \<longleftrightarrow> opc \<in> {0x12, 0x18, 0x19, 0x1b, 0x32, 0x34, 0x35, 0x36, 0x37, 0x3a, 0x3c,
     0x3d, 0x3e, 0x3f}"

definition exec_instruction ::
  "HostFpu \<Rightarrow> HostMath \<Rightarrow> State \<Rightarrow> DecodedInstruction \<Rightarrow> u32 \<Rightarrow> State" where
  "exec_instruction h m s d current_pc =
     (if op d = 0x00 then exec_special s d current_pc
      else if op d = 0x01 then exec_regimm s d current_pc
      else if op d = 0x02 \<or> op d = 0x03 then exec_jump s d current_pc
      else if 0x04 \<le> op d \<and> op d \<le> 0x07 then exec_branch s d current_pc
      else if 0x08 \<le> op d \<and> op d \<le> 0x0f then exec_immediate s d
      else if op d = 0x11 then exec_cop1 h s d current_pc
      else if vfpu_opcode (op d) then execute_vfpu h m s (word d) current_pc
      else if 0x14 \<le> op d \<and> op d \<le> 0x17 then exec_branch_likely s d current_pc
      else if op d = 0x1c then exec_special2 s d current_pc
      else if op d = 0x1f then exec_special3 s d current_pc
      else if 0x20 \<le> op d \<and> op d \<le> 0x26 then exec_load s d
      else if op d \<in> {0x28, 0x29, 0x2a, 0x2b, 0x2e} then exec_store s d
      else exec_linked s d current_pc)"

definition finish_instruction :: "State \<Rightarrow> bool \<Rightarrow> u32 \<Rightarrow> State" where
  "finish_instruction s apply_delayed_branch delayed_target =
     (let s = set_gpr s 0 0 in
      if stop_reason s = Running \<and> apply_delayed_branch then s\<lparr>pc := delayed_target\<rparr> else s)"

definition interpret_allegrex ::
  "HostFpu \<Rightarrow> HostMath \<Rightarrow> State \<Rightarrow> u32 \<Rightarrow> bool \<times> State" where
  "interpret_allegrex h m s current_pc =
     (if current_pc AND 3 \<noteq> 0 then (False, s)
      else let (instruction, s) = load32 s current_pc in
        if stop_reason s \<noteq> Running then (True, s)
        else let d = decode_allegrex instruction;
                 apply_delayed_branch = branch_pending s;
                 delayed_target = branch_target s;
                 s = s\<lparr>branch_pending := False, pc := current_pc + 4\<rparr> in
          if \<not> valid d then (True, fail s d current_pc)
          else (True, finish_instruction (exec_instruction h m s d current_pc)
                 apply_delayed_branch delayed_target))"

end
