(* ===== verification/Machine_Step.thy ===== *)
theory Machine_Step
  imports Cpu_Ops Guest_Unaligned
begin

text \<open>
  The relation between the machine before and after one instruction that the interpreter and
  the vector unit both keep: the buffers stay where they are and as long as they are, and
  nothing outside them is touched.
\<close>

section \<open>What one instruction may do to the machine\<close>

text \<open>
  \<open>step_ok can_fail s t\<close>: the buffers keep their places and sizes, no host byte outside them
  was touched, and the machine either runs on as before or stops for a reason an instruction
  can give, \<open>Unsupported_instruction\<close> only when \<open>can_fail\<close>.
\<close>

definition step_ok :: "bool \<Rightarrow> State \<Rightarrow> State \<Rightarrow> bool" where
  "step_ok can_fail s t \<longleftrightarrow> same_layout s t \<and> host_fault t = host_fault s \<and>
     (stop_reason t = stop_reason s \<or> stop_reason t = Memory_fault \<or> stop_reason t = Syscall \<or>
      can_fail \<and> stop_reason t = Unsupported_instruction)"

definition same_frame :: "State \<Rightarrow> State \<Rightarrow> bool" where
  "same_frame s t \<longleftrightarrow> memory t = memory s \<and> memory_base t = memory_base s \<and>
     scratchpad t = scratchpad s \<and> video_memory t = video_memory s \<and>
     volatile_memory t = volatile_memory s \<and> host_fault t = host_fault s \<and>
     stop_reason t = stop_reason s"

lemma same_frame_refl [simp]: "same_frame s s"
  by (simp add: same_frame_def)

lemma same_frame_buffer_of: "same_frame s t \<Longrightarrow> buffer_of t = buffer_of s"
  by (auto simp: same_frame_def buffer_of_def fun_eq_iff split: region.splits)

lemma same_frame_ok: "same_frame s t \<Longrightarrow> step_ok c s t"
  using same_frame_buffer_of [of s t] by (simp add: step_ok_def same_layout_def same_frame_def)

lemma step_ok_refl [simp]: "step_ok c s s"
  by (simp add: step_ok_def)

lemma step_ok_trans: "step_ok c s t \<Longrightarrow> step_ok c t u \<Longrightarrow> step_ok c s u"
  by (auto simp: step_ok_def intro: same_layout_trans)

lemma step_ok_then: "step_ok c s t \<Longrightarrow> same_frame t u \<Longrightarrow> step_ok c s u"
  by (blast intro: step_ok_trans same_frame_ok)

lemma step_ok_weaken: "step_ok False s t \<Longrightarrow> step_ok c s t"
  by (auto simp: step_ok_def)

lemma step_ok_wf: "wf_state s \<Longrightarrow> step_ok c s t \<Longrightarrow> wf_state t"
  by (auto simp: step_ok_def intro: wf_state_layout)

lemma step_ok_if: "(b \<Longrightarrow> step_ok c s x) \<Longrightarrow> (\<not> b \<Longrightarrow> step_ok c s y) \<Longrightarrow> step_ok c s (if b then x else y)"
  by simp

lemma same_frame_updates [simp]:
  "same_frame s (s\<lparr>hi := v\<rparr>)" "same_frame s (s\<lparr>lo := v\<rparr>)" "same_frame s (s\<lparr>lo := v, hi := w\<rparr>)"
  "same_frame s (s\<lparr>branch_pending := b, branch_target := v\<rparr>)" "same_frame s (s\<lparr>fcr31 := v\<rparr>)"
  "same_frame s (s\<lparr>branch_pending := b, pc := v\<rparr>)" "same_frame s (s\<lparr>pc := v\<rparr>)"
  by (simp_all add: same_frame_def)

lemma same_frame_trans: "same_frame s t \<Longrightarrow> same_frame t u \<Longrightarrow> same_frame s u"
  by (simp add: same_frame_def)

lemma step_ok_memory [simp]:
  "step_ok c s (note_memory_fault s a)" "step_ok c s (snd (direct_address_ok s a w))"
  "step_ok c s (set_native_bytes s a bs)"
  "snd p + length bs \<le> length (buffer s (fst p)) \<Longrightarrow> step_ok c s (write_at s p bs)"
proof -
  show *: "step_ok c s (note_memory_fault s a)"
    by (simp add: step_ok_def) (simp add: note_memory_fault_def)
  show "step_ok c s (snd (direct_address_ok s a w))"
    using direct_address_ok_cases [of s a w] * by auto
  show "step_ok c s (set_native_bytes s a bs)"
    by (simp add: step_ok_def) (simp add: set_native_bytes_def)
  show "snd p + length bs \<le> length (buffer s (fst p)) \<Longrightarrow> step_ok c s (write_at s p bs)"
    by (simp add: step_ok_def write_at_layout)
qed

lemma step_ok_slow:
  "step_ok c s (snd (slow_load s a w al dec))" "step_ok c s (slow_store s a al bs)"
  using direct_address_ok_cases [of s a w] direct_address_ok_cases [of s a "length bs"]
  by (auto simp: slow_load_def slow_store_def dest!: mapped_address_bounds(2) split: option.splits)

lemma step_ok_unaligned:
  "step_ok c s (snd (load_word_left s a v))" "step_ok c s (snd (load_word_right s a v))"
  "step_ok c s (store_word_left s a v)" "step_ok c s (store_word_right s a v)"
proof -
  have k: "unat (a AND 3) \<le> 3"
    using and_mask_small(1) [of a 2] by (simp add: mask_eq_exp_minus_1)
  note cases = direct_address_ok_cases [of s "a AND NOT 3" "unat (a AND 3) + 1"]
    direct_address_ok_cases [of s a "4 - unat (a AND 3)"]
  show "step_ok c s (snd (load_word_left s a v))" "step_ok c s (snd (load_word_right s a v))"
    using cases by (auto simp: load_word_left_def load_word_right_def Let_def split: option.splits)
  show "step_ok c s (store_word_left s a v)"
    using cases k unfolding store_word_left_def Let_def
    by (auto dest!: mapped_address_bounds(2) split: option.splits)
  show "step_ok c s (store_word_right s a v)"
    using cases k unfolding store_word_right_def Let_def
    by (auto dest!: mapped_address_bounds(2) split: option.splits)
qed

lemma step_ok_accesses:
  assumes "wf_state s"
  shows "step_ok c s (snd (load8 s a))" "step_ok c s (snd (load16 s a))"
    "step_ok c s (snd (load32 s a))" "step_ok c s (store8 s a b)" "step_ok c s (store16 s a h)"
    "step_ok c s (store32 s a v)"
  unfolding load_slow [OF assms] store_slow [OF assms] by (rule step_ok_slow)+

end
