(* ===== verification/Vfpu_Properties.thy ===== *)
theory Vfpu_Properties
  imports Vfpu Machine_Step
begin

text \<open>
  What the vector unit guarantees: the short path translated code takes when no prefix is set
  computes what \<open>execute_vfpu\<close> computes; every instruction stays inside guest memory and the
  register file; an arithmetic instruction uses its prefixes up; vectors and matrices are read
  back as they were written, and a transposed register number shows the transposed matrix.
\<close>

section \<open>Vectors and the state\<close>

lemma set_vfpu_sel [simp]:
  "vfpu_ctrl (set_vfpu s i v) = vfpu_ctrl s" "gpr (set_vfpu s i v) = gpr s"
  "vfpu (set_vfpu s i v) = (vfpu s)(unat i := v)"
  by (simp_all add: set_vfpu_def)

lemma vfpu_frames [simp]:
  "same_frame s (set_vfpu s i v)" "same_frame s (vfpu_eat_prefixes s)"
  by (simp_all add: same_frame_def set_vfpu_def vfpu_eat_prefixes_def)

lemma same_frame_fold: "(\<And>x t. same_frame t (f x t)) \<Longrightarrow> same_frame s (fold f xs s)"
proof (induction xs arbitrary: s)
  case (Cons x xs)
  have "same_frame s (f x s)" by (rule Cons.prems)
  moreover have "same_frame (f x s) (fold f xs (f x s))" by (rule Cons.IH) (rule Cons.prems)
  ultimately show ?case by (simp add: same_frame_trans)
qed simp

lemma write_vector_frame [simp]: "same_frame s (vfpu_write_vector s r n values)"
  unfolding vfpu_write_vector_def by (rule same_frame_fold) simp

lemma write_matrix_frame [simp]: "same_frame s (vfpu_write_matrix s r n values)"
  unfolding vfpu_write_matrix_def by (rule same_frame_fold) (simp split: prod.splits)

lemma write_vector_ctrl [simp]: "vfpu_ctrl (vfpu_write_vector s r n values) = vfpu_ctrl s"
proof -
  have "vfpu_ctrl (fold (\<lambda>lane s. if vfpu_ctrl s 2 AND push_bit (8 + lane) 1 = 0
      then set_vfpu s (vfpu_index r n lane) (values ! lane) else s) ls s) = vfpu_ctrl s" for ls
    by (induction ls arbitrary: s) auto
  then show ?thesis by (simp add: vfpu_write_vector_def)
qed

lemma finish_frame [simp]: "same_frame s (vfpu_finish s vd n b result)"
  unfolding vfpu_finish_def by (rule same_frame_trans [OF write_vector_frame vfpu_frames(2)])

section \<open>The path without prefixes\<close>

lemma length_read_vector [simp]: "n \<le> 4 \<Longrightarrow> length (vfpu_read_vector s r n) = 4"
  by (simp add: vfpu_read_vector_def)

lemma length_lanes [simp]: "length (lanes n f) = 4"
  by (simp add: lanes_def)

lemma vfpu_size_range: "1 \<le> vfpu_size i" "vfpu_size i \<le> 4"
proof -
  have a: "unat (drop_bit 7 i AND 1) < 2" by (rule unat_and_bounds)
  have b: "unat (drop_bit 14 i AND 2) \<le> 2"
    using word_and_le1 [of "drop_bit 14 i" 2] by (simp add: word_le_nat_alt)
  have "vfpu_size i = unat (drop_bit 7 i AND 1) + unat (drop_bit 14 i AND 2) + 1"
    using a b by (simp add: vfpu_size_def unat_word_ariths)
  then show "1 \<le> vfpu_size i" "vfpu_size i \<le> 4" using a b by linarith+
qed

lemma type_of_masked: "drop_bit 23 (i :: u32) AND 7 = drop_bit 23 (i AND 0xff808080) AND 7"
  by (simp add: drop_bit_and and.assoc)

lemma no_prefix [simp]: "vfpu_apply_prefix values n 0xe4 = values"
  by (simp add: vfpu_apply_prefix_def)

lemma no_destination_prefix:
  "vfpu_ctrl s 2 = 0 \<Longrightarrow> vfpu_apply_destination_prefix s values n b = values"
  by (auto simp: vfpu_apply_destination_prefix_def saturated_lane_def intro: nth_equalityI)

lemma finish_no_prefix:
  "vfpu_ctrl s 2 = 0 \<Longrightarrow> vfpu_finish s vd n b result = vfpu_eat_prefixes (vfpu_write_vector s vd n result)"
  by (simp add: vfpu_finish_def no_destination_prefix)

lemma prefix_free_agrees:
  assumes "vfpu_prefixes_identity s" "vfpu_static_operation i \<noteq> Vfpu_none"
  shows "execute_vfpu_prefix_free h (vfpu_static_operation i) (vfpu_size i) s (vd_of i) (vs_of i) (vt_of i) =
    execute_vfpu h m s i current_pc"
proof -
  define opc where "opc = drop_bit 26 i"
  define type where "type = drop_bit 23 i AND 7"
  have c: "vfpu_ctrl s 0 = 0xe4" "vfpu_ctrl s 1 = 0xe4" "vfpu_ctrl s 2 = 0"
    using assms(1) by (simp_all add: vfpu_prefixes_identity_def)
  have cross: "type = 5" if "i AND 0xff808080 = 0x66808000"
    unfolding type_def by (subst type_of_masked) (simp add: that)
  note c = c c(2) [unfolded One_nat_def]
  have *: "opc \<in> {0x18, 0x19, 0x34} \<Longrightarrow> execute_vfpu h m s i current_pc = vfpu_arithmetic h m s i"
    by (auto simp: execute_vfpu_def Let_def opc_def)
  consider (add) "opc = 0x18" "type = 0" | (sub) "opc = 0x18" "type = 1" | (mul) "opc = 0x19" "type = 0"
    | (dot) "opc = 0x19" "type = 1" | (move) "opc = 0x34" "drop_bit 21 i AND 31 = 0" "drop_bit 16 i AND 31 = 0"
    using assms(2) by (auto simp: vfpu_static_operation_def Let_def opc_def type_def split: if_splits)
  then show ?thesis
  proof cases
    case add
    then have "vfpu_static_operation i = Vfpu_add" by (simp add: vfpu_static_operation_def Let_def opc_def type_def)
    then show ?thesis using add *
      by (simp add: execute_vfpu_prefix_free_def vfpu_arithmetic_def vfpu_add_group_def Let_def c
          finish_no_prefix fast_vectors opc_def [symmetric] type_def [symmetric])
  next
    case sub
    then have "vfpu_static_operation i = Vfpu_subtract" by (simp add: vfpu_static_operation_def Let_def opc_def type_def)
    then show ?thesis using sub *
      by (simp add: execute_vfpu_prefix_free_def vfpu_arithmetic_def vfpu_add_group_def Let_def c
          finish_no_prefix fast_vectors opc_def [symmetric] type_def [symmetric])
  next
    case mul
    then have "vfpu_static_operation i = Vfpu_multiply" by (simp add: vfpu_static_operation_def Let_def opc_def type_def)
    moreover have "i AND 0xff808080 \<noteq> 0x66808000" using cross mul by auto
    ultimately show ?thesis using mul *
      by (simp add: execute_vfpu_prefix_free_def vfpu_arithmetic_def vfpu_multiply_group_def Let_def c
          finish_no_prefix fast_vectors opc_def [symmetric] type_def [symmetric])
  next
    case dot
    then have "vfpu_static_operation i = Vfpu_dot" by (simp add: vfpu_static_operation_def Let_def opc_def type_def)
    moreover have "i AND 0xff808080 \<noteq> 0x66808000" using cross dot by auto
    ultimately show ?thesis using dot *
      by (simp add: execute_vfpu_prefix_free_def vfpu_arithmetic_def vfpu_multiply_group_def Let_def c
          finish_no_prefix fast_vectors opc_def [symmetric] type_def [symmetric])
  next
    case move
    then have "vfpu_static_operation i = Vfpu_move" by (simp add: vfpu_static_operation_def Let_def opc_def type_def)
    then show ?thesis using move *
      by (simp add: execute_vfpu_prefix_free_def vfpu_arithmetic_def vfpu_unary_group_def vfpu_unary_def Let_def c
          finish_no_prefix fast_vectors opc_def [symmetric])
  qed
qed

text \<open>
  C5. Translated code calls the short path, with the operation and the size fixed when it is
  generated, whenever the three prefixes are the identity at run time.
\<close>

theorem vfpu_static_path_equivalent:
  assumes "vfpu_prefixes_identity s" "vfpu_static_operation i \<noteq> Vfpu_none"
  shows "execute_vfpu_prefix_free h (vfpu_static_operation i) (vfpu_size i) s (vd_of i) (vs_of i) (vt_of i) =
    execute_vfpu h m s i current_pc"
  using assms by (rule prefix_free_agrees)

section \<open>Memory safety\<close>

text \<open>\<open>vsocp\<close> on three or four lanes, which writes past the end of its array.\<close>

definition vsocp_overflow :: "u32 \<Rightarrow> bool" where
  "vsocp_overflow i \<longleftrightarrow> drop_bit 26 i = 0x34 \<and> drop_bit 21 i AND 31 = 2 \<and>
     drop_bit 16 i AND 31 = 5 \<and> 2 < vfpu_size i"

lemma half_to_float_some: "vfpu_half_to_float v \<noteq> None"
proof -
  let ?f = "ucast (v AND 0x3ff) :: u32"
  have "unat ?f < 2 ^ 11" using half_fields(3,4) [of v] by simp
  then have "?f \<noteq> 0 \<Longrightarrow> normalise_half ?f 0 \<noteq> None"
    using normalise_half_ends [of ?f 0] unat_gt_0 [of ?f] by auto
  then show ?thesis unfolding vfpu_half_to_float_def Let_def by (auto split: option.splits)
qed

lemma same_frame_more [simp]:
  "same_frame s (s\<lparr>gpr := g\<rparr>)" "same_frame s (s\<lparr>vfpu_ctrl := c\<rparr>)"
  "same_frame s (s\<lparr>branch_pending := b, branch_target := v\<rparr>)"
  by (simp_all add: same_frame_def)

lemma vfpu_move_frame: "same_frame s (vfpu_move s i p)"
  unfolding vfpu_move_def Let_def by simp

lemma vfpu_immediate_frame: "same_frame s (vfpu_immediate s i)"
  unfolding vfpu_immediate_def Let_def
  using half_to_float_some [of "ucast i"] by (auto split: option.splits)

lemma groups_frame:
  "vfpu_multiply_group h s i n a b = Inl t \<Longrightarrow> same_frame s t"
  "vfpu_compare_group s i n a b = Inl t \<Longrightarrow> same_frame s t"
  "vfpu_pack_group s i ty n a = Inl t \<Longrightarrow> same_frame s t"
  "\<not> (ty = 5 \<and> 2 < n) \<Longrightarrow> vfpu_reduce_group h s i ty n a = Inl t \<Longrightarrow> same_frame s t"
  "vfpu_matrix_group h m s i n a b = Inl t \<Longrightarrow> same_frame s t"
proof -
  have ev: "same_frame s u \<Longrightarrow> same_frame s (vfpu_eat_prefixes u)" for u
    by (erule same_frame_trans) simp
  show "vfpu_multiply_group h s i n a b = Inl t \<Longrightarrow> same_frame s t"
    by (auto simp: vfpu_multiply_group_def Let_def split: if_splits)
  show "vfpu_compare_group s i n a b = Inl t \<Longrightarrow> same_frame s t"
    by (auto simp: vfpu_compare_group_def vfpu_compare_def Let_def split: if_splits intro: ev)
  show "vfpu_pack_group s i ty n a = Inl t \<Longrightarrow> same_frame s t"
    by (auto simp: vfpu_pack_group_def Let_def split: if_splits)
  show "\<not> (ty = 5 \<and> 2 < n) \<Longrightarrow> vfpu_reduce_group h s i ty n a = Inl t \<Longrightarrow> same_frame s t"
    by (auto simp: vfpu_reduce_group_def Let_def split: if_splits intro: ev)
  show "vfpu_matrix_group h m s i n a b = Inl t \<Longrightarrow> same_frame s t"
    by (auto simp: vfpu_matrix_group_def Let_def split: if_splits intro: ev)
qed

lemma vfpu_unary_frame:
  assumes "\<not> vsocp_overflow i" "drop_bit 26 i = 0x34" "vfpu_unary_group h m s i (vfpu_size i) a = Inl t"
  shows "same_frame s t"
  using assms groups_frame(3) [of s i _ _ a t] groups_frame(4) [of "drop_bit 16 i AND 31" "vfpu_size i" h s i a t]
  by (auto simp: vfpu_unary_group_def vsocp_overflow_def Let_def split: if_splits)

lemma vfpu_arithmetic_frame:
  assumes "\<not> vsocp_overflow i" shows "same_frame s (vfpu_arithmetic h m s i)"
  unfolding vfpu_arithmetic_def Let_def
  using groups_frame vfpu_unary_frame [OF assms]
  by (auto split: sum.splits if_splits)

lemma load_places_ok:
  "wf_state s \<Longrightarrow> step_ok c s (snd (load_places ps xs s))"
proof (induction ps arbitrary: xs s)
  case (Cons p ps)
  obtain lane a where p: "p = (lane, a)" by force
  obtain v t where l: "load32 s a = (v, t)" by force
  have ok: "step_ok c s t" using step_ok_accesses(3) [OF Cons.prems, of c a] l by simp
  have "step_ok c t (snd (load_places ps (xs[lane := v]) t))"
    by (rule Cons.IH) (rule step_ok_wf [OF Cons.prems ok])
  then show ?case using step_ok_trans [OF ok] by (simp add: load_places_def p l)
qed (simp add: load_places_def)

lemma store_places_ok:
  "wf_state s \<Longrightarrow> step_ok c s (store_places ps xs s)"
proof (induction ps arbitrary: s)
  case (Cons p ps)
  obtain lane a where p: "p = (lane, a)" by force
  have ok: "step_ok c s (store32 s a (xs ! lane))" by (rule step_ok_accesses(6) [OF Cons.prems])
  have "step_ok c (store32 s a (xs ! lane)) (store_places ps xs (store32 s a (xs ! lane)))"
    by (rule Cons.IH) (rule step_ok_wf [OF Cons.prems ok])
  then show ?case using step_ok_trans [OF ok] by (simp add: store_places_def p)
qed (simp add: store_places_def)

lemma loaded_ok:
  assumes "wf_state s"
  shows "step_ok c s (set_vfpu (snd (load32 s a)) r v)"
    "step_ok c s (vfpu_write_vector (snd (load_places ps xs s)) r n ys)"
proof -
  show "step_ok c s (set_vfpu (snd (load32 s a)) r v)"
    by (rule step_ok_then [OF step_ok_accesses(3) [OF assms, of _ a]]) simp
  show "step_ok c s (vfpu_write_vector (snd (load_places ps xs s)) r n ys)"
    by (rule step_ok_then [OF load_places_ok [OF assms, of _ ps xs]]) simp
qed

lemma vfpu_memory_ok:
  assumes "wf_state s"
  shows "step_ok c s (vfpu_single s i)" "step_ok c s (vfpu_partial s i)" "step_ok c s (vfpu_quad s i)"
  unfolding vfpu_single_def vfpu_partial_def vfpu_quad_def Let_def case_prod_unfold
  by (simp_all add: loaded_ok step_ok_accesses(6) store_places_ok assms)

lemma execute_vfpu_ok:
  assumes "wf_state s" "\<not> vsocp_overflow i"
  shows "step_ok c s (execute_vfpu h m s i p)"
  unfolding execute_vfpu_def Let_def
  using vfpu_memory_ok [OF assms(1)] vfpu_move_frame vfpu_immediate_frame vfpu_arithmetic_frame [OF assms(2)]
  by (auto intro: same_frame_ok)

section \<open>Prefixes are used up\<close>

text \<open>The instructions that compute, as opposed to moves, loads, stores and the prefixes.\<close>

definition vfpu_computes :: "u32 \<Rightarrow> bool" where
  "vfpu_computes i \<longleftrightarrow> (let opc = drop_bit 26 i in
     opc \<in> {0x18, 0x19, 0x1b, 0x34, 0x3c} \<or> opc = 0x37 \<and> 5 < drop_bit 23 i AND 7)"

lemma eaten [simp]: "vfpu_prefixes_identity (vfpu_eat_prefixes s)" "vfpu_prefixes_identity (vfpu_finish s r n b vs)"
  by (simp_all add: vfpu_prefixes_identity_def vfpu_eat_prefixes_def vfpu_finish_def)

text \<open>
  An instruction that computes takes its prefixes from the three control words and leaves
  the identity in all of them, whatever path through the function it takes.
\<close>

theorem vfpu_prefixes_used_up:
  assumes "vfpu_computes i" "\<not> vsocp_overflow i"
  shows "vfpu_prefixes_identity (execute_vfpu h m s i current_pc)"
proof -
  have e: "vfpu_multiply_group h s i n a b = Inl t \<Longrightarrow> vfpu_prefixes_identity t"
    "vfpu_compare_group s i n a b = Inl t \<Longrightarrow> vfpu_prefixes_identity t"
    "vfpu_matrix_group h m s i n a b = Inl t \<Longrightarrow> vfpu_prefixes_identity t" for a b n t
    by (auto simp: vfpu_multiply_group_def vfpu_compare_group_def vfpu_compare_def vfpu_matrix_group_def Let_def
        split: if_splits)
  have u: "drop_bit 26 i = 0x34 \<Longrightarrow> vfpu_unary_group h m s i (vfpu_size i) a = Inl t \<Longrightarrow> vfpu_prefixes_identity t" for a t
    using assms(2)
    by (auto simp: vfpu_unary_group_def vfpu_reduce_group_def vfpu_pack_group_def vsocp_overflow_def Let_def
        split: if_splits)
  have ar: "vfpu_prefixes_identity (vfpu_arithmetic h m s i)"
    unfolding vfpu_arithmetic_def Let_def using e u by (auto split: sum.splits if_splits)
  have im: "5 < drop_bit 23 i AND 7 \<Longrightarrow> vfpu_prefixes_identity (vfpu_immediate s i)"
    using half_to_float_some [of "ucast i"] by (auto simp: vfpu_immediate_def Let_def split: option.splits)
  from assms(1) show ?thesis
    using ar im by (auto simp: vfpu_computes_def execute_vfpu_def Let_def)
qed

section \<open>Registers are read back as written\<close>

lemma fold_set_vfpu:
  assumes "distinct (map (\<lambda>k. unat (f k)) ks)"
  shows "vfpu (fold (\<lambda>k s. set_vfpu s (f k) (g k)) ks s) i =
    (case map_of (map (\<lambda>k. (unat (f k), g k)) ks) i of None \<Rightarrow> vfpu s i | Some v \<Rightarrow> v)"
  using assms
proof (induction ks arbitrary: s)
  case (Cons k ks)
  have "map_of (map (\<lambda>k. (unat (f k), g k)) ks) (unat (f k)) = None"
    using Cons.prems by (auto simp: map_of_eq_None_iff)
  then show ?case using Cons by (auto split: option.splits)
qed simp

lemma fold_set_vfpu_at:
  assumes "distinct (map (\<lambda>k. unat (f k)) ks)" "k \<in> set ks"
  shows "vfpu (fold (\<lambda>k s. set_vfpu s (f k) (g k)) ks s) (unat (f k)) = g k"
proof -
  have "map_of (map (\<lambda>k. (unat (f k), g k)) ks) (unat (f k)) = Some (g k)"
    using assms by (intro map_of_is_SomeI) (auto simp: comp_def image_iff)
  then show ?thesis by (simp add: fold_set_vfpu [OF assms(1)])
qed

lemma unat_lane: "unat ((a + of_nat i) AND 3 :: u32) = (unat a + i) mod 4"
proof -
  have "unat ((a + of_nat i) AND mask 2) = unat (a + of_nat i) mod 4"
    by (simp only: take_bit_eq_mask [symmetric] unsigned_take_bit_eq take_bit_eq_mod [of 2 "unat (a + of_nat i)"]) simp
  also have "unat (a + of_nat i) mod 4 = (unat a + i) mod 4"
    by (simp add: unat_word_ariths unsigned_of_nat take_bit_eq_mod mod_mod_cancel mod_simps)
  finally show ?thesis by (simp add: mask_eq_exp_minus_1)
qed

lemma lanes_apart: "a < 4 \<Longrightarrow> b < 4 \<Longrightarrow> (x + a) mod 4 = (x + b) mod (4 :: nat) \<longleftrightarrow> a = b"
proof
  assume ab: "a < 4" "b < 4" and e: "(x + a) mod 4 = (x + b) mod 4"
  have "c = d" if "c \<le> d" "d < 4" "(x + c) mod 4 = (x + d) mod 4" for c d
  proof -
    have "4 dvd (x + d) - (x + c)" using mod_eq_dvd_iff_nat [of "x + c" "x + d" 4] that by simp
    then have "4 dvd d - c" by simp
    then show ?thesis using that(1,2) dvd_imp_le [of 4 "d - c"] by fastforce
  qed
  from this [of a b] this [of b a] show "a = b" using ab e by (cases "a \<le> b") simp_all
qed simp

lemma digits: "a < n \<Longrightarrow> c < n \<Longrightarrow> a + b * n = c + d * (n :: nat) \<longleftrightarrow> a = c \<and> b = d"
proof
  assume s: "a < n" "c < n" and e: "a + b * n = c + d * n"
  have "(a + b * n) mod n = (c + d * n) mod n" "(a + b * n) div n = (c + d * n) div n" using e by simp_all
  then show "a = c \<and> b = d" using s by simp
qed simp

lemma unat_vfpu_index:
  "unat (vfpu_index r n lane) =
     (if n \<noteq> 1 \<and> drop_bit 5 r AND 1 \<noteq> 0
      then unat (drop_bit 2 r AND 7) * 4 + (unat (vfpu_row r n) + lane) mod 4 + unat (r AND 3) * 32
      else unat (drop_bit 2 r AND 7) * 4 + unat (r AND 3) + (unat (vfpu_row r n) + lane) mod 4 * 32)"
  unfolding vfpu_index_def Let_def
  by (simp add: unat_index_sum unat_and_bounds unat_lane)

lemma vfpu_index_apart:
  "a < 4 \<Longrightarrow> b < 4 \<Longrightarrow> unat (vfpu_index r n a) = unat (vfpu_index r n b) \<longleftrightarrow> a = b"
  unfolding unat_vfpu_index by (simp add: lanes_apart)

text \<open>
  A vector that was written with no destination prefix is read back lane by lane, and the
  registers outside it are untouched.
\<close>

theorem vector_roundtrip:
  assumes "vfpu_ctrl s 2 = 0" "n \<le> 4" "length xs = 4"
  shows "vfpu_read_vector (vfpu_write_vector s r n xs) r n = take n xs @ replicate (4 - n) 0 \<and>
    (\<forall>k. k \<notin> (\<lambda>lane. unat (vfpu_index r n lane)) ` {0..<n} \<longrightarrow> vfpu (vfpu_write_vector s r n xs) k = vfpu s k)"
proof -
  let ?f = "vfpu_index r n"
  have "fold (\<lambda>lane s. if vfpu_ctrl s 2 AND push_bit (8 + lane) 1 = 0 then set_vfpu s (?f lane) (xs ! lane) else s) ls t =
      fold (\<lambda>lane s. set_vfpu s (?f lane) (xs ! lane)) ls t" if "vfpu_ctrl t 2 = 0" for ls t
    using that by (induction ls arbitrary: t) simp_all
  then have w: "vfpu_write_vector s r n xs = fold (\<lambda>lane s. set_vfpu s (?f lane) (xs ! lane)) [0..<n] s"
    using assms(1) by (simp add: vfpu_write_vector_def)
  have d: "distinct (map (\<lambda>k. unat (?f k)) [0..<n])"
    using assms(2) by (auto simp: distinct_map vfpu_index_apart inj_on_def)
  have "vfpu_float (vfpu_write_vector s r n xs) (?f lane) = xs ! lane" if "lane < n" for lane
    using fold_set_vfpu_at [OF d, of lane "\<lambda>k. xs ! k" s] that
    by (simp add: w vfpu_float_def mask_small_index [OF vfpu_index_bound])
  then have "vfpu_read_vector (vfpu_write_vector s r n xs) r n = take n xs @ replicate (4 - n) 0"
    using assms(2,3) by (auto simp: vfpu_read_vector_def intro: nth_equalityI)
  moreover have "vfpu (vfpu_write_vector s r n xs) k = vfpu s k" if "k \<notin> (\<lambda>lane. unat (?f lane)) ` {0..<n}" for k
  proof -
    have "map_of (map (\<lambda>k. (unat (?f k), xs ! k)) [0..<n]) k = None"
      using that by (auto simp: map_of_eq_None_iff image_image)
    then show ?thesis by (simp add: w fold_set_vfpu [OF d])
  qed
  ultimately show ?thesis by blast
qed

lemma unat_vfpu_matrix_index:
  "unat (vfpu_matrix_index r side j i) =
     (let row = (if side = 3 then unat (drop_bit 6 r AND 1) else unat (drop_bit 5 r AND 2)) in
      if drop_bit 5 r AND 1 \<noteq> 0
      then unat (drop_bit 2 r AND 7) * 4 + (row + i) mod 4 + (unat (r AND 3) + j) mod 4 * 32
      else unat (drop_bit 2 r AND 7) * 4 + (unat (r AND 3) + j) mod 4 + (row + i) mod 4 * 32)"
  unfolding vfpu_matrix_index_def Let_def
  by (simp add: unat_index_sum' unat_and_bounds unat_lane)

lemma matrix_digits: "a < 4 \<Longrightarrow> c < 4 \<Longrightarrow> m + a + b * 32 = m + c + d * (32 :: nat) \<longleftrightarrow> a = c \<and> b = d"
  using digits [of a 32 c b d] by simp

lemma vfpu_matrix_index_apart:
  assumes "i < 4" "j < 4" "i' < 4" "j' < 4"
  shows "unat (vfpu_matrix_index r side j i) = unat (vfpu_matrix_index r side j' i') \<longleftrightarrow> j = j' \<and> i = i'"
  using assms unfolding unat_vfpu_matrix_index Let_def
  by (auto simp: matrix_digits lanes_apart)

lemma set_matrix_places: "set (matrix_places side) = {0..<side} \<times> {0..<side}"
  by (auto simp: matrix_places_def)

lemma fold_list_update:
  assumes "distinct (map f ks)" "\<And>k. k \<in> set ks \<Longrightarrow> f k < length xs"
  shows "length (fold (\<lambda>k xs. xs[f k := g k]) ks xs) = length xs"
    "k \<in> set ks \<Longrightarrow> fold (\<lambda>k xs. xs[f k := g k]) ks xs ! f k = g k"
    "p \<notin> f ` set ks \<Longrightarrow> fold (\<lambda>k xs. xs[f k := g k]) ks xs ! p = xs ! p"
proof -
  show "length (fold (\<lambda>k xs. xs[f k := g k]) ks xs) = length xs"
    by (induction ks arbitrary: xs) simp_all
  show other: "p \<notin> f ` set ks \<Longrightarrow> fold (\<lambda>k xs. xs[f k := g k]) ks xs ! p = xs ! p" for ks p and xs :: "'b list"
    by (induction ks arbitrary: xs) simp_all
  show "k \<in> set ks \<Longrightarrow> fold (\<lambda>k xs. xs[f k := g k]) ks xs ! f k = g k"
    using assms
  proof (induction ks arbitrary: xs)
    case (Cons a ks)
    show ?case
    proof (cases "k \<in> set ks")
      case True
      then show ?thesis using Cons by simp
    next
      case False
      then have "k = a" using Cons.prems by simp
      then show ?thesis using Cons.prems other [of "f a" ks "xs[f a := g a]"] by simp
    qed
  qed simp
qed

lemma distinct_places: "distinct (matrix_places side)"
proof -
  have "matrix_places side = List.product [0..<side] [0..<side]"
    by (simp add: matrix_places_def product_concat_map)
  then show ?thesis by (simp add: distinct_product)
qed

lemma matrix_place: "j < 4 \<Longrightarrow> i < 4 \<Longrightarrow> j' < 4 \<Longrightarrow> i' < 4 \<Longrightarrow> j * 4 + i = j' * 4 + (i' :: nat) \<longleftrightarrow> j = j' \<and> i = i'"
  using digits [of i 4 i' j j'] by (simp add: add.commute) blast

lemma read_matrix:
  assumes "side \<le> 4"
  shows "length (vfpu_read_matrix s r side) = 16"
    "j < side \<Longrightarrow> i < side \<Longrightarrow> vfpu_read_matrix s r side ! (j * 4 + i) = vfpu s (unat (vfpu_matrix_index r side j i))"
proof -
  let ?f = "\<lambda>k. fst k * 4 + snd k" and ?g = "\<lambda>k. vfpu_float s (vfpu_matrix_index r side (fst k) (snd k))"
  have e: "vfpu_read_matrix s r side = fold (\<lambda>k xs. xs[?f k := ?g k]) (matrix_places side) (replicate 16 0)"
    by (simp add: vfpu_read_matrix_def case_prod_unfold)
  have d: "distinct (map ?f (matrix_places side))"
    using assms by (auto simp: distinct_map distinct_places set_matrix_places inj_on_def matrix_place)
  have b: "k \<in> set (matrix_places side) \<Longrightarrow> ?f k < length (replicate 16 (0 :: u32))" for k
    using assms by (auto simp: set_matrix_places)
  show "length (vfpu_read_matrix s r side) = 16" unfolding e using fold_list_update(1) [OF d b] by simp
  show "j < side \<Longrightarrow> i < side \<Longrightarrow> vfpu_read_matrix s r side ! (j * 4 + i) = vfpu s (unat (vfpu_matrix_index r side j i))"
    unfolding e using fold_list_update(2) [OF d b, of "(j, i)"]
    by (simp add: set_matrix_places vfpu_float_def mask_small_index [OF vfpu_matrix_index_bound])
qed

lemma write_matrix:
  assumes "side \<le> 4" "j < side" "i < side"
  shows "vfpu (vfpu_write_matrix s r side xs) (unat (vfpu_matrix_index r side j i)) = xs ! (j * 4 + i)"
proof -
  let ?f = "\<lambda>k. vfpu_matrix_index r side (fst k) (snd k)" and ?g = "\<lambda>k. xs ! (fst k * 4 + snd k)"
  have d: "distinct (map (\<lambda>k. unat (?f k)) (matrix_places side))"
    using assms by (auto simp: distinct_map distinct_places set_matrix_places inj_on_def vfpu_matrix_index_apart)
  show ?thesis
    using fold_set_vfpu_at [OF d, of "(j, i)" ?g s] assms
    by (simp add: vfpu_write_matrix_def case_prod_unfold set_matrix_places)
qed

lemma flips:
  fixes x :: u32
  shows "(x XOR 8) AND 7 = x AND 7" "(x XOR 32) AND 3 = x AND 3" "(x XOR 1) AND 2 = x AND 2"
    "(x XOR 1) AND 1 = 0 \<longleftrightarrow> x AND 1 \<noteq> 0"
proof -
  show "(x XOR 8) AND 7 = x AND 7" "(x XOR 32) AND 3 = x AND 3" "(x XOR 1) AND 2 = x AND 2"
    by (simp_all add: bit.conj_xor_distrib2)
  show "(x XOR 1) AND 1 = 0 \<longleftrightarrow> x AND 1 \<noteq> 0"
  proof -
    have "x AND 1 = 0 \<or> x AND 1 = 1" by (simp add: and_one_eq mod_2_eq_odd)
    moreover have "(x XOR 1) AND 1 = (x AND 1) XOR 1" by (simp only: bit.conj_xor_distrib2 and.idem)
    ultimately show ?thesis by (elim disjE) (simp_all only: xor_self_eq, simp_all)
  qed
qed

text \<open>
  A matrix that was written is read back, and flipping bit 5 of the register number shows
  its transpose.
\<close>

theorem matrix_views:
  assumes "r AND 3 = 0" "drop_bit 6 r AND 1 = 0" "length xs = 16"
  shows "vfpu_read_matrix (vfpu_write_matrix s r 4 xs) r 4 = xs \<and>
    (\<forall>j<4. \<forall>i<4. vfpu_read_matrix (vfpu_write_matrix s r 4 xs) (r XOR 0x20) 4 ! (j * 4 + i) = xs ! (i * 4 + j))"
proof -
  let ?t = "vfpu_write_matrix s r 4 xs"
  have at: "vfpu_read_matrix ?t r 4 ! (j * 4 + i) = xs ! (j * 4 + i)" if "j < 4" "i < 4" for j i
    using that by (simp add: read_matrix write_matrix)
  have "vfpu_read_matrix ?t r 4 ! k = xs ! k" if "k < 16" for k
    using at [of "k div 4" "k mod 4"] that by simp
  then have same: "vfpu_read_matrix ?t r 4 = xs" using assms(3) by (intro nth_equalityI) (simp_all add: read_matrix)
  have row: "drop_bit 5 r AND 2 = 0"
  proof -
    have "drop_bit 5 r AND 2 = push_bit 1 (drop_bit 6 r AND 1)"
    proof (rule bit_word_eqI)
      fix k show "bit (drop_bit 5 r AND 2) k = bit (push_bit 1 (drop_bit 6 r AND 1)) k"
        by (cases "k = 1") (auto simp: bit_simps bit_1_iff bit_2_iff bit_times_2)
    qed
    then show ?thesis using assms(2) by simp
  qed
  have "unat (vfpu_matrix_index (r XOR 0x20) 4 j i) = unat (vfpu_matrix_index r 4 i j)" if "j < 4" "i < 4" for j i
    using that unfolding unat_vfpu_matrix_index Let_def by (simp add: flips row assms(1))
  then show ?thesis using same by (simp add: read_matrix write_matrix)
qed

lemma vector_roundtrip_witness:
  "vfpu_read_vector (vfpu_write_vector initial_state 0x20 3 [1, 2, 3, 4]) 0x20 3 = [1, 2, 3, 0]"
  using vector_roundtrip [of initial_state 3 "[1, 2, 3, 4]" "0x20"]
  by (simp add: initial_state_def)

lemma matrix_views_witness:
  "vfpu_read_matrix (vfpu_write_matrix initial_state 4 4 (map of_nat [0..<16])) 0x24 4 ! 1 = 4"
  using matrix_views [of 4 "map of_nat [0..<16]" initial_state, THEN conjunct2, rule_format, of 0 1]
  by (simp add: upt_conv_Cons)

definition sample_math :: HostMath where
  "sample_math = \<lparr>sin_of = (\<lambda>x. x), cos_of = (\<lambda>_. f32_one), exp2_of = (\<lambda>_. f32_one),
     log2_of = (\<lambda>_. 0), asin_of = (\<lambda>x. x)\<rparr>"

definition sample_host :: HostFpu where
  "sample_host = \<lparr>bits_of_nan = (\<lambda>_ _. 0x7fc00000), cast = (\<lambda>_. 0x80000000)\<rparr>"

text \<open>\<open>vadd.q C000, C010, C020\<close>.\<close>

lemma vfpu_static_path_equivalent_witness:
  "execute_vfpu_prefix_free sample_host Vfpu_add 4 initial_state 0 1 2 =
   execute_vfpu sample_host sample_math initial_state 0x60028180 0"
  using vfpu_static_path_equivalent [of initial_state "0x60028180" sample_host sample_math 0]
  by (simp add: vfpu_prefixes_identity_def initial_state_def vfpu_static_operation_def vfpu_size_def)

lemma vfpu_prefixes_used_up_witness:
  "vfpu_prefixes_identity (execute_vfpu sample_host sample_math (initial_state\<lparr>vfpu_ctrl := (\<lambda>_. 1)\<rparr>) 0x60028180 0)"
  by (rule vfpu_prefixes_used_up) (simp_all add: vfpu_computes_def vsocp_overflow_def)

section \<open>A comparison that is lost\<close>

lemma top_bits: "drop_bit 26 (i :: u32) AND 63 = drop_bit 26 i"
proof -
  have m: "(63 :: u32) = mask 6" by (simp add: mask_eq_exp_minus_1)
  show ?thesis unfolding m by (rule bit_word_eqI) (auto simp: bit_simps dest: bit_imp_le_length)
qed

lemma lanes_nth: "k < 4 \<Longrightarrow> lanes n f ! k = (if k < n then f k else 0)"
  by (simp add: lanes_def)

lemma compare_group_max:
  assumes "drop_bit 23 i AND 7 \<noteq> 0" "drop_bit 23 i AND 7 \<noteq> 2"
  shows "vfpu_compare_group s i n a b = Inr (lanes n (\<lambda>k. f32_max (a ! k) (b ! k)))"
proof -
  have z: "[0, 0, 0, 0] ! k = (0 :: u32)" if "k < 4" for k
    using that by (auto simp: less_Suc_eq numeral_eq_Suc)
  show ?thesis
    using assms by (auto simp: vfpu_compare_group_def Let_def lanes_nth z intro!: nth_equalityI)
qed

text \<open>
  \<open>vscmp\<close> and \<open>vslt\<close> do what \<open>vmax\<close> does: their result is overwritten by the loop
  that follows.
\<close>

theorem compare_result_lost:
  assumes "i AND 0xff808080 = 0x6e808000 \<or> i AND 0xff808080 = 0x6f808080"
  defines "vmax \<equiv> (i AND 0xfc7fffff) OR 0x01800000"
  shows "execute_vfpu h m s i current_pc = execute_vfpu h m s vmax current_pc \<and> drop_bit 23 vmax AND 7 = 3"
proof -
  have opc: "drop_bit 26 i = 0x1b"
  proof -
    have "drop_bit 26 i = drop_bit 26 (i AND 0xff808080)" by (simp add: top_bits)
    also have "\<dots> = 0x1b" by (rule disjE [OF assms(1)]) simp_all
    finally show ?thesis .
  qed
  have "drop_bit 23 (i AND 0xff808080) AND 7 = 5 \<or> drop_bit 23 (i AND 0xff808080) AND 7 = 7"
    by (rule disjE [OF assms(1)]) simp_all
  then have ty: "drop_bit 23 i AND 7 = 5 \<or> drop_bit 23 i AND 7 = 7"
    by (simp only: type_of_masked [of i, symmetric])
  have v: "drop_bit 26 vmax = drop_bit 26 i" "drop_bit 23 vmax AND 7 = 3" "vmax AND 0x7f = i AND 0x7f"
    "drop_bit 8 vmax AND 0x7f = drop_bit 8 i AND 0x7f" "drop_bit 16 vmax AND 0x7f = drop_bit 16 i AND 0x7f"
    "vfpu_size vmax = vfpu_size i"
    by (simp_all add: vmax_def vfpu_size_def bit.conj_disj_distrib2 and.assoc top_bits)
  have "vfpu_arithmetic h m s i = vfpu_arithmetic h m s vmax"
    using ty compare_group_max [of i] compare_group_max [of vmax] v(2)
    by (auto simp: vfpu_arithmetic_def Let_def v opc)
  then show ?thesis by (simp add: execute_vfpu_def Let_def v opc)
qed

lemma compare_result_lost_witness:
  "execute_vfpu sample_host sample_math initial_state 0x6e818000 0 =
   execute_vfpu sample_host sample_math initial_state 0x6d818000 0"
  using compare_result_lost [of "0x6e818000" sample_host sample_math initial_state 0] by simp

end
