(* ===== verification/Interpreter_Properties.thy ===== *)
theory Interpreter_Properties
  imports Interpreter Vfpu_Properties
begin

text \<open>
  What the interpreter guarantees: it never leaves guest memory, register 0 stays zero,
  every word the decoder accepts is executed (no \<open>fail()\<close> behind a valid decode), delay
  slots and likely branches behave as the architecture prescribes.
\<close>

section \<open>What one instruction may do to the machine\<close>

lemma same_frame_sets [simp]:
  "same_frame s (set_gpr s i v)" "same_frame s (set_fpr s i v)" "same_frame s (set_f32 s i v)"
  "same_frame s (set_hi_lo s w)" "same_frame s (set_fpu_condition s i b)"
  "same_frame s (branch s d cur b b')" "same_frame s (compare_f32 s i v v' v'')"
  by (simp_all add: same_frame_def set_gpr_def set_fpr_def set_f32_def set_hi_lo_def
      set_fpu_condition_def branch_def compare_f32_def Let_def)

lemma step_ok_leaves [simp]:
  "step_ok c s (set_gpr s i v)" "step_ok c s (set_fpr s i v)" "step_ok c s (set_f32 s i v)"
  "step_ok c s (set_hi_lo s w)" "step_ok c s (branch s d cur b b')"
  "step_ok c s (compare_f32 s i v v' v'')"
  "step_ok c s (s\<lparr>hi := v\<rparr>)" "step_ok c s (s\<lparr>lo := v\<rparr>)" "step_ok c s (s\<lparr>lo := v, hi := v'\<rparr>)"
  "step_ok c s (s\<lparr>branch_pending := b, branch_target := v\<rparr>)" "step_ok c s (s\<lparr>fcr31 := v\<rparr>)"
  "step_ok c s (s\<lparr>stop_reason := Syscall\<rparr>)"
  "step_ok True s (fail s d cur)"
  by (auto intro: same_frame_ok)
    (auto simp: step_ok_def fail_def same_layout_def buffer_of_def split: region.splits)

section \<open>Every group of cases\<close>

lemma step_ok_linked [simp]:
  "step_ok c s (branch (set_gpr s i v) d cur b b')"
  "step_ok c s (set_gpr s i v\<lparr>branch_pending := b, branch_target := w\<rparr>)"
  by (rule step_ok_then [of _ _ "set_gpr s i v"]; simp)+

lemma step_ok_then_set [simp]:
  "step_ok c s t \<Longrightarrow> step_ok c s (set_gpr t i v)" "step_ok c s t \<Longrightarrow> step_ok c s (set_fpr t i v)"
  "step_ok c s (snd r) \<Longrightarrow> step_ok c s (load_gpr d f r)"
  by (simp_all add: load_gpr_def step_ok_then)

definition special_functions :: "u32 set" where
  "special_functions = {0x00, 0x02, 0x03, 0x04, 0x06, 0x07, 0x08, 0x09, 0x0a, 0x0b, 0x0c, 0x0d, 0x0f,
     0x10, 0x11, 0x12, 0x13, 0x16, 0x17, 0x18, 0x19, 0x1a, 0x1b, 0x1c, 0x1d, 0x20, 0x21, 0x22, 0x23,
     0x24, 0x25, 0x26, 0x27, 0x2a, 0x2b, 0x2c, 0x2d, 0x2e, 0x2f}"

definition fpu_functions :: "u32 \<Rightarrow> bool" where
  "fpu_functions f \<longleftrightarrow> f \<le> 7 \<or> (12 \<le> f \<and> f \<le> 15) \<or> f = 17 \<or> f = 32 \<or> f = 36 \<or> 0x30 \<le> f"

lemma fpu_functions_iff:
  "fpu_functions f \<longleftrightarrow> f \<in> {0, 1, 2, 3, 4, 5, 6, 7, 12, 13, 14, 15, 17, 32, 36} \<or> 0x30 \<le> f"
  by (simp add: fpu_functions_def word_le_nat_alt word_unat_eq_iff) arith

lemma exec_special_ok:
  "step_ok (function_field d \<notin> special_functions) s (exec_special s d cur)"
  unfolding exec_special_def Let_def
  by (intro step_ok_if)
    (simp_all add: exec_mult_def exec_multu_def exec_div_def exec_divu_def exec_madd_def
      exec_maddu_def exec_msub_def exec_msubu_def special_functions_def Let_def)

lemma exec_simple_ok:
  "step_ok c s (exec_jump s d cur)" "step_ok c s (exec_branch s d cur)"
  "step_ok c s (exec_branch_likely s d cur)" "step_ok c s (exec_immediate s d)"
  by (simp_all add: exec_jump_def exec_branch_def exec_branch_likely_def exec_immediate_def Let_def)

lemma exec_regimm_ok:
  "step_ok (rt d \<notin> {0, 1, 2, 3, 0x10, 0x11, 0x12, 0x13}) s (exec_regimm s d cur)"
  unfolding exec_regimm_def Let_def by (intro step_ok_if) auto

lemma exec_fpu_operation_ok:
  "step_ok (\<not> fpu_functions (function_field d)) s (exec_fpu_operation h s d cur)"
  unfolding exec_fpu_operation_def Let_def fpu_functions_iff
  by (intro step_ok_if) simp_all

lemma exec_cop1_ok:
  "step_ok (\<not> (rs d \<in> {0, 2, 4, 6, 8} \<or> rs d = 16 \<and> fpu_functions (function_field d) \<or>
             rs d = 20 \<and> function_field d = 32)) s (exec_cop1 h s d cur)"
  unfolding exec_cop1_def Let_def
  using exec_fpu_operation_ok [of d s h cur] by (intro step_ok_if) auto

lemma exec_special2_ok:
  "step_ok (function_field d \<notin> {0x20, 0x21, 0x2c, 0x2d}) s (exec_special2 s d cur)"
  unfolding exec_special2_def Let_def by (intro step_ok_if) auto

lemma exec_special3_ok:
  "step_ok (\<not> (function_field d = 0 \<or> function_field d = 4 \<or>
     function_field d = 0x20 \<and> shift d \<in> {0x02, 0x03, 0x10, 0x14, 0x18})) s (exec_special3 s d cur)"
  unfolding exec_special3_def Let_def by (intro step_ok_if) auto

lemma exec_memory_ok:
  assumes "wf_state s"
  shows "step_ok c s (exec_load s d)" "step_ok c s (exec_store s d)"
    "step_ok (op d \<notin> {0x2f, 0x30, 0x31, 0x33, 0x38, 0x39}) s (exec_linked s d cur)"
  using step_ok_accesses [OF assms] step_ok_unaligned
  unfolding exec_load_def exec_store_def exec_linked_def Let_def
  by (auto simp: case_prod_unfold step_ok_then)

section \<open>What the decoder accepts\<close>

lemma valid_special: "valid (decode_special (decode_fields w)) \<Longrightarrow> w AND 63 \<in> special_functions"
  by (rule ccontr) (simp add: special_functions_def decode_special_def valid_def)

lemma valid_regimm:
  "valid (decode_regimm (decode_fields w)) \<Longrightarrow> drop_bit 16 w AND 31 \<in> {0, 1, 2, 3, 0x10, 0x11, 0x12, 0x13}"
  by (rule ccontr) (simp add: decode_regimm_def valid_def)

lemma valid_cop1:
  "valid (decode_cop1 (decode_fields w)) \<Longrightarrow>
   (let r = drop_bit 21 w AND 31; f = w AND 63 in
    r \<in> {0, 2, 4, 6, 8} \<or> r = 16 \<and> fpu_functions f \<or> r = 20 \<and> f = 32)"
  by (rule ccontr) (auto simp: decode_cop1_def valid_def fpu_functions_def Let_def split: if_splits)

definition plain_opcodes :: "u32 set" where
  "plain_opcodes = {0x02, 0x03, 0x04, 0x05, 0x06, 0x07, 0x08, 0x09, 0x0a, 0x0b, 0x0c, 0x0d, 0x0e, 0x0f,
     0x14, 0x15, 0x16, 0x17, 0x20, 0x21, 0x22, 0x23, 0x24, 0x25, 0x26, 0x28, 0x29, 0x2a, 0x2b, 0x2e,
     0x2f, 0x30, 0x31, 0x38, 0x39}"

lemma valid_opcode:
  assumes "valid (decode_opcode (decode_fields w))"
  shows "drop_bit 26 w \<in> plain_opcodes \<or>
    drop_bit 26 w = 0x11 \<and> valid (decode_cop1 (decode_fields w)) \<or>
    drop_bit 26 w = 0x1c \<and> w AND 63 \<in> {0x20, 0x21, 0x2c, 0x2d} \<or>
    drop_bit 26 w = 0x1f \<and> (w AND 63 = 0 \<or> w AND 63 = 4 \<or>
      w AND 63 = 0x20 \<and> drop_bit 6 w AND 31 \<in> {0x02, 0x03, 0x10, 0x14, 0x18})"
proof (rule ccontr)
  assume "\<not> ?thesis"
  then show False
    using assms by (auto simp: plain_opcodes_def decode_opcode_def valid_def Let_def split: if_splits)
qed

lemma vfpu_supported_opcode: "vfpu_opcode_supported w \<Longrightarrow> vfpu_opcode (drop_bit 26 w)"
  by (auto simp: vfpu_opcode_supported_def vfpu_opcode_def Let_def split: if_splits)

lemma step_ok_cannot_fail: "step_ok c s t \<Longrightarrow> \<not> c \<Longrightarrow> step_ok False s t"
  by (cases c) simp_all

lemma exec_instruction_ok:
  assumes "wf_state s" "valid (decode_allegrex w)" "\<not> vfpu_opcode (drop_bit 26 w)"
  shows "step_ok False s (exec_instruction h m s (decode_allegrex w) cur)"
proof -
  define d where "d = decode_allegrex w"
  have [simp]: "word d = w" "op d = drop_bit 26 w" "rs d = drop_bit 21 w AND 31" "rt d = drop_bit 16 w AND 31"
     "function_field d = w AND 63" "shift d = drop_bit 6 w AND 31"
    by (simp_all add: d_def)
  note exec_memory_ok [OF assms(1), simp] exec_simple_ok [simp]
  have nv: "\<not> vfpu_opcode_supported w" using assms(3) vfpu_supported_opcode by blast
  consider "drop_bit 26 w = 0" "valid (decode_special (decode_fields w))"
    | "drop_bit 26 w = 1" "valid (decode_regimm (decode_fields w))"
    | "valid (decode_opcode (decode_fields w))"
    using assms(2) nv by (auto simp: decode_allegrex_def Let_def split: if_splits)
  then have "step_ok False s (exec_instruction h m s d cur)"
  proof cases
    case 1
    then show ?thesis using exec_special_ok [of d s cur] valid_special [of w] by (simp add: exec_instruction_def)
  next
    case 2
    then show ?thesis using step_ok_cannot_fail [OF exec_regimm_ok [of d s cur]] valid_regimm [of w]
      by (simp add: exec_instruction_def)
  next
    case 3
    then consider (p) "drop_bit 26 w \<in> plain_opcodes" | (c) "drop_bit 26 w = 0x11" "valid (decode_cop1 (decode_fields w))"
      | (2) "drop_bit 26 w = 0x1c" "w AND 63 \<in> {0x20, 0x21, 0x2c, 0x2d}"
      | (3) "drop_bit 26 w = 0x1f" "w AND 63 = 0 \<or> w AND 63 = 4 \<or>
      w AND 63 = 0x20 \<and> drop_bit 6 w AND 31 \<in> {0x02, 0x03, 0x10, 0x14, 0x18}" using valid_opcode by blast
    then show ?thesis
    proof cases
      case p
      show ?thesis
      proof (cases "drop_bit 26 w \<in> {0x2f, 0x30, 0x31, 0x38, 0x39}")
        case True
        have l: "step_ok False s (exec_linked s d cur)"
          by (rule step_ok_cannot_fail [OF exec_memory_ok(3) [OF assms(1)]]) (use True in auto)
        then show ?thesis using True assms(3)
          by (elim insertE emptyE; simp add: exec_instruction_def)
      next
        case False
        then show ?thesis using p assms(3)
        unfolding plain_opcodes_def by (elim insertE emptyE; simp add: exec_instruction_def)
      qed
    next
      case c then show ?thesis using step_ok_cannot_fail [OF exec_cop1_ok [of d s h cur]] valid_cop1 [of w]
        by (simp add: exec_instruction_def Let_def)
    next
      case 2 then show ?thesis using exec_special2_ok [of d s cur] by (simp add: exec_instruction_def vfpu_opcode_def)
    next
      case 3 then show ?thesis using exec_special3_ok [of d s cur] by (simp add: exec_instruction_def vfpu_opcode_def)
    qed
  qed
  then show ?thesis by (simp add: d_def)
qed

lemma step_ok_True: "step_ok c s t \<Longrightarrow> step_ok True s t" by (cases c) (auto intro: step_ok_weaken)

lemma exec_vfpu_eq:
  "vfpu_opcode (op d) \<Longrightarrow> exec_instruction h m s d cur = execute_vfpu h m s (word d) cur"
  by (auto simp: exec_instruction_def vfpu_opcode_def)

lemma exec_accepted_ok:
  assumes "wf_state s" "valid (decode_allegrex w)" "\<not> vsocp_overflow w"
  shows "step_ok False s (exec_instruction h m s (decode_allegrex w) cur)"
proof (cases "vfpu_opcode (drop_bit 26 w)")
  case True
  then show ?thesis by (simp add: exec_vfpu_eq execute_vfpu_ok assms)
next
  case False
  then show ?thesis by (rule exec_instruction_ok [OF assms(1,2)])
qed

section \<open>One step on a concrete machine\<close>

text \<open>A fetch from RAM, for the witnesses.\<close>

lemma load32_ram:
  assumes "memory s = Some ram" "memory_base s = 0x08800000" "a AND 3 = 0" "4 \<le> length ram" "length ram \<le> 2 ^ 32"
    and "unat ((a AND 0x1fffffff) - 0x08800000) = i" "i + 4 \<le> length ram"
  shows "load32 s a = (word32_of (slice_bytes ram i 4), s)"
proof -
  have b: "buffer s Ram = ram" using assms(1) by (simp add: buffer_def buffer_of_def)
  have "wf_state s" using assms(4,5) b by (simp add: wf_state_def memory_size_def)
  moreover have "mapped_address s a 4 = Some (Ram, i)"
    using mapped_Ram [of s a 4] assms b by (simp add: memory_size_def)
  ultimately show ?thesis using acc32.load_mapped assms(3) b by (simp add: read_at_def)
qed

lemma interpret_valid:
  "cur AND 3 = 0 \<Longrightarrow> load32 s cur = (w, s) \<Longrightarrow> stop_reason s = Running \<Longrightarrow> valid (decode_allegrex w) \<Longrightarrow>
   interpret_allegrex h m s cur = (True, finish_instruction
     (exec_instruction h m (s\<lparr>branch_pending := False, pc := cur + 4\<rparr>) (decode_allegrex w) cur)
     (branch_pending s) (branch_target s))"
  by (simp add: interpret_allegrex_def Let_def)

lemma nop_runs:
  assumes "cur AND 3 = 0" "load32 s cur = (0, s)" "stop_reason s = Running"
  shows "stop_reason (snd (interpret_allegrex h m s cur)) = Running"
proof -
  have d: "decode_allegrex 0 = native_lowering (decode_fields 0) ''sll'' 0"
    by (simp add: decode_allegrex_def Let_def vfpu_opcode_supported_def decode_special_def instruction_none_def)
  have v: "valid (decode_allegrex 0)" by (simp add: d valid_def)
  show ?thesis
    using assms(3) unfolding interpret_valid [OF assms v]
    by (simp add: exec_instruction_def exec_special_def Let_def set_gpr_def finish_instruction_def)
qed

lemma load32_registers: "gpr (snd (load32 s a)) = gpr s" "pc (snd (load32 s a)) = pc s"
  "branch_pending (snd (load32 s a)) = branch_pending s" "branch_target (snd (load32 s a)) = branch_target s"
  by (auto simp: load32_def fast_read_def note_host_fault_def note_memory_fault_def direct_address_ok_def Let_def
     split: option.splits)

section \<open>The interpreter\<close>

lemma same_frame_finish: "same_frame t (finish_instruction t b v)"
  by (simp add: finish_instruction_def same_frame_def set_gpr_def Let_def)

lemma finish_instruction_ok [simp]: "step_ok c s t \<Longrightarrow> step_ok c s (finish_instruction t b v)"
  by (rule step_ok_then [OF _ same_frame_finish])

text \<open>The step fails only when the decoder rejects the word.\<close>

lemma interpret_step_ok:
  assumes "wf_state s" "\<not> vsocp_overflow (fst (load32 s cur))"
  shows "step_ok (\<not> valid (decode_allegrex (fst (load32 s cur)))) s (snd (interpret_allegrex h m s cur))"
proof -
  let ?d = "decode_allegrex (fst (load32 s cur))"
  have load: "step_ok c s (snd (load32 s cur))" for c by (rule step_ok_accesses(3) [OF assms(1)])
  define t where "t = (snd (load32 s cur))\<lparr>branch_pending := False, pc := cur + 4\<rparr>"
  have t: "step_ok c s t" for c unfolding t_def by (rule step_ok_then [OF load]) simp
  have wf: "wf_state t" by (rule step_ok_wf [OF assms(1) t])
  have "valid ?d \<Longrightarrow> step_ok False s (finish_instruction (exec_instruction h m t ?d cur) b v)" for b v
    by (intro finish_instruction_ok step_ok_trans [OF t] exec_accepted_ok [OF wf] assms(2))
  moreover have "\<not> valid ?d \<Longrightarrow> step_ok True s (fail t ?d cur)"
    by (rule step_ok_trans [OF t]) simp
  ultimately show ?thesis
    using load by (auto simp: interpret_allegrex_def Let_def case_prod_unfold t_def)
qed



text \<open>
  C4. The interpreter implements what the decoder accepts. If the word fetched decodes to an
  instruction, the VFPU's included, the step never stops with
  \<open>Unsupported_instruction\<close>: the \<open>fail()\<close> calls inside the switch are unreachable, and
  the machine runs on, faults on memory or stops at a syscall.
\<close>

theorem interpreter_complete:
  assumes "wf_state s" "stop_reason s = Running" "cur AND 3 = 0"
    and "valid (decode_allegrex (fst (load32 s cur)))" "\<not> vsocp_overflow (fst (load32 s cur))"
  shows "fst (interpret_allegrex h m s cur) \<and>
     stop_reason (snd (interpret_allegrex h m s cur)) \<in> {Running, Memory_fault, Syscall}"
proof -
  have "step_ok False s (snd (interpret_allegrex h m s cur))"
    using interpret_step_ok [OF assms(1,5)] assms(4) by simp
  moreover have "fst (interpret_allegrex h m s cur)" using assms(3) by (simp add: interpret_allegrex_def Let_def case_prod_unfold)
  ultimately show ?thesis using assms(2) by (auto simp: step_ok_def)
qed

lemma interpreter_complete_witness:
  "stop_reason (snd (interpret_allegrex sample_host sample_math (sample_state [0x20, 0x20, 0xa6, 0]) 0x08800000))
     \<in> {Running, Memory_fault, Syscall}"
proof -
  define s where "s = sample_state [0x20, 0x20, 0xa6, 0]"
  have l: "load32 s 0x08800000 = (0x00a62020, s)"
    using load32_ram [of s "[0x20, 0x20, 0xa6, 0]" "0x08800000" 0]
    by (simp add: s_def sample_state_def slice_bytes_def word32_of_def le32_def)
  have "valid (decode_allegrex 0x00a62020)"
    by (simp add: decode_allegrex_def Let_def vfpu_opcode_supported_def decode_special_def valid_def)
  then show ?thesis
    using interpreter_complete [of s "0x08800000" sample_host sample_math] l
    by (simp add: s_def sample_state_wf vsocp_overflow_def) (simp add: sample_state_def initial_state_def)
qed

text \<open>
  Words the decoder rejects are reported precisely: the machine stops with the address and
  the word of the instruction, and no register and no memory has changed.
\<close>

theorem interpreter_rejects:
  assumes "cur AND 3 = 0" "load32 s cur = (w, s)" "stop_reason s = Running" "\<not> valid (decode_allegrex w)"
  shows "let t = snd (interpret_allegrex h m s cur) in
     stop_reason t = Unsupported_instruction \<and> fault_pc t = cur \<and> fault_instruction t = w \<and>
     gpr t = gpr s \<and> fpr t = fpr s \<and> hi t = hi s \<and> lo t = lo s \<and> buffer t = buffer s"
  using assms by (simp add: interpret_allegrex_def Let_def fail_def buffer_def buffer_of_def fun_eq_iff split: region.splits)

lemma interpreter_rejects_witness:
  "fault_instruction (snd (interpret_allegrex sample_host sample_math (sample_state [0xff, 0xff, 0xff, 0x4f]) 0x08800000))
     = 0x4fffffff"
proof -
  define s where "s = sample_state [0xff, 0xff, 0xff, 0x4f]"
  have l: "load32 s 0x08800000 = (0x4fffffff, s)" "stop_reason s = Running"
    using load32_ram [of s "[0xff, 0xff, 0xff, 0x4f]" "0x08800000" 0]
    by (simp_all add: s_def sample_state_def initial_state_def slice_bytes_def word32_of_def le32_def)
  have "\<not> valid (decode_allegrex 0x4fffffff)"
    by (simp add: decode_allegrex_def Let_def vfpu_opcode_supported_def decode_opcode_def valid_def)
  then show ?thesis
    using interpreter_rejects [OF _ l, of sample_host sample_math] by (simp add: Let_def s_def)
qed

text \<open>Register 0 reads zero after every step, also when the instruction names it as destination.\<close>

theorem interpreter_zero_register:
  assumes "gpr s 0 = 0" shows "gpr (snd (interpret_allegrex h m s cur)) 0 = 0"
  using assms load32_registers [of s cur]
  by (simp add: interpret_allegrex_def case_prod_unfold Let_def fail_def finish_instruction_def set_gpr_def)

lemma interpreter_zero_register_witness:
  "gpr (snd (interpret_allegrex sample_host sample_math (sample_state [0xff, 0, 0, 0x34]) 0x08800000)) 0 = 0"
  using interpreter_zero_register [of "sample_state [0xff, 0, 0, 0x34]"]
  by (simp add: sample_state_def initial_state_def)

lemma delay_slot:
  assumes "cur AND 3 = 0" "branch_pending s" "stop_reason s = Running" "stop_reason (snd (interpret_allegrex h m s cur)) = Running"
  shows "pc (snd (interpret_allegrex h m s cur)) = branch_target s"
  using assms load32_registers [of s cur]
  by (auto simp: interpret_allegrex_def case_prod_unfold Let_def fail_def finish_instruction_def set_gpr_def split: if_splits)


section \<open>Multiplication and division\<close>

lemma hi_lo_join: "ucast (lo (set_hi_lo s v)) OR push_bit 32 (ucast (hi (set_hi_lo s v))) = v"
proof (rule bit_word_eqI)
  fix n assume "n < LENGTH(64)"
  then show "bit (ucast (lo (set_hi_lo s v)) OR push_bit 32 (ucast (hi (set_hi_lo s v))) :: u64) n = bit v n"
    by (cases "n < 32") (auto simp: set_hi_lo_def bit_simps)
qed

lemma sint_s32_bounds: "- (2 ^ 31) \<le> sint (v :: u32)" "sint (v :: u32) < 2 ^ 31"
  using sint_greater_eq [of v] sint_less [of v] by simp_all

lemma sint_of_s64: "- (2 ^ 63) \<le> k \<Longrightarrow> k < 2 ^ 63 \<Longrightarrow> sint (of_int k :: u64) = k"
  by (simp add: signed_take_bit_int_eq_self sint_sbintrunc')

lemma mult_full:
  "sint (accumulator (exec_mult s d)) = sint (reg s (rs d)) * sint (reg s (rt d))"
proof -
  let ?a = "sint (reg s (rs d))" and ?b = "sint (reg s (rt d))"
  have "\<bar>?a\<bar> \<le> 2 ^ 31" "\<bar>?b\<bar> \<le> 2 ^ 31"
    using sint_s32_bounds [of "reg s (rs d)"] sint_s32_bounds [of "reg s (rt d)"] by linarith+
  then have "\<bar>?a * ?b\<bar> \<le> 2 ^ 31 * 2 ^ 31" unfolding abs_mult by (intro mult_mono) simp_all
  then have "- (2 ^ 63) \<le> ?a * ?b" "?a * ?b < 2 ^ 63" by simp_all
  then have "sint (of_int (?a * ?b) :: u64) = ?a * ?b" by (rule sint_of_s64)
  then show ?thesis
    by (simp only: accumulator_def exec_mult_def hi_lo_join signed_product_def as_s32_def)
qed

lemma multu_full:
  "unat (accumulator (exec_multu s d)) = unat (reg s (rs d)) * unat (reg s (rt d))"
proof -
  let ?a = "unat (reg s (rs d))" and ?b = "unat (reg s (rt d))"
  have "?a < 2 ^ 32" "?b < 2 ^ 32" using unsigned_less [of "reg s (rs d)"] unsigned_less [of "reg s (rt d)"] by simp_all
  then have "?a * ?b < 2 ^ 32 * 2 ^ 32" by (intro mult_strict_mono) simp_all
  then have "?a * ?b < 2 ^ LENGTH(64)" by simp
  moreover have "unat (ucast v :: u64) = unat v" for v :: u32
  proof -
    have "unat v < 2 ^ 64" using unsigned_less [of v, where 'a = nat] by simp
    then show ?thesis by (simp add: unsigned_ucast_eq take_bit_nat_eq_self)
  qed
  ultimately have "unat (ucast (reg s (rs d)) * ucast (reg s (rt d)) :: u64) = ?a * ?b"
    using unat_mult_lem [of "ucast (reg s (rs d)) :: u64" "ucast (reg s (rt d))"] by simp
  then show ?thesis
    by (simp only: accumulator_def exec_multu_def hi_lo_join unsigned_product_def)
qed

text \<open>
  MULT and MULTU leave the full 64-bit product in HI and LO, signed and unsigned.
\<close>

theorem multiply_full_product:
  "sint (accumulator (exec_mult s d)) = sint (reg s (rs d)) * sint (reg s (rt d)) \<and>
   unat (accumulator (exec_multu s d)) = unat (reg s (rs d)) * unat (reg s (rt d))"
  by (simp add: mult_full multu_full)

text \<open>
  DIV leaves the quotient rounded toward zero in LO and the remainder in HI, for every pair
  but division by zero and the one quotient that does not fit (-2^31 / -1).
\<close>

theorem div_exact:
  assumes "b = sint (reg s (rt d))" "a = sint (reg s (rs d))" "b \<noteq> 0" "\<not> (a = - (2 ^ 31) \<and> b = -1)"
  shows "sint (lo (exec_div s d)) * b + sint (hi (exec_div s d)) = a \<and>
    \<bar>sint (hi (exec_div s d))\<bar> < \<bar>b\<bar> \<and> (sint (hi (exec_div s d)) = 0 \<or> sgn (sint (hi (exec_div s d))) = sgn a)"
proof -
  have ab: "- (2 ^ 31) \<le> a" "a < 2 ^ 31" "- (2 ^ 31) \<le> b" "b < 2 ^ 31"
    using sint_s32_bounds assms(1,2) by auto
  have m: "in_s32 (a smod b)" using ab smod_int_range [OF assms(3), of a] unfolding in_s32_def by auto
  have "a sdiv b \<noteq> 2 ^ 31"
  proof
    assume *: "a sdiv b = 2 ^ 31"
    then have a: "a = - (2 ^ 31)" using sdiv_int_range [of a b] ab by auto
    then show False using * assms(4) int_sdiv_negated_is_minus1 [of a b] by simp
  qed
  then have q: "in_s32 (a sdiv b)" using sdiv_int_range [of a b] ab unfolding in_s32_def by auto
  have lo: "sint (lo (exec_div s d)) = a sdiv b" and hi: "sint (hi (exec_div s d)) = a smod b"
    using assms m q by (auto simp: exec_div_def Let_def as_s32_def sint_of_s32)
  have "\<bar>a smod b\<bar> < \<bar>b\<bar>" using smod_int_range [OF assms(3), of a] by auto
  moreover have "a smod b = 0 \<or> sgn (a smod b) = sgn a"
  proof (cases "\<bar>a\<bar> mod \<bar>b\<bar> = 0")
    case False
    moreover have "0 \<le> \<bar>a\<bar> mod \<bar>b\<bar>" using assms(3) by simp
    ultimately have "sgn (\<bar>a\<bar> mod \<bar>b\<bar>) = 1" by (simp add: sgn_if)
    then show ?thesis by (simp add: smod_int_alt_def sgn_mult)
  qed (simp add: smod_int_alt_def)
  ultimately show ?thesis unfolding lo hi by (simp add: sdiv_mult_smod_eq)
qed

lemma div_exact_witness:
  "let d = decode_fields 0x0085001a; s = initial_state\<lparr>gpr := (\<lambda>i. if i = 4 then -7 else 2)\<rparr> in
   sint (lo (exec_div s d)) * 2 + sint (hi (exec_div s d)) = -7"
  using div_exact [of 2 "initial_state\<lparr>gpr := (\<lambda>i. if i = 4 then -7 else 2)\<rparr>" "decode_fields 0x0085001a" "-7"]
  by (simp add: reg_def Let_def)


definition branch_destination :: "u32 \<Rightarrow> u32 \<Rightarrow> u32" where
  "branch_destination cur w = cur + 4 + signed_immediate (decode_allegrex w) * 4"

lemma exec_instruction_beq:
  "op d = 0x04 \<Longrightarrow> exec_instruction h m s d cur = branch s d cur (reg s (rs d) = reg s (rt d)) False"
  "op d = 0x14 \<Longrightarrow> exec_instruction h m s d cur = branch s d cur (reg s (rs d) = reg s (rt d)) True"
  by (simp_all add: exec_instruction_def exec_branch_def exec_branch_likely_def vfpu_opcode_def Let_def)

lemma valid_beq:
  assumes "drop_bit 26 w = 0x04 \<or> drop_bit 26 w = 0x14"
  shows "valid (decode_allegrex w)"
proof -
  have nv: "\<not> vfpu_opcode_supported w" using assms by (auto simp: vfpu_opcode_supported_def Let_def)
  then have d: "decode_allegrex w = decode_opcode (decode_fields w)"
    using assms by (auto simp: decode_allegrex_def Let_def)
  show ?thesis using assms unfolding d by (elim disjE; simp add: decode_opcode_def valid_def Let_def)
qed

lemma finish_branch:
  "finish_instruction (branch s d cur b l) False v =
     (branch s d cur b l)\<lparr>gpr := (gpr s)(0 := 0)\<rparr>"
  by (simp add: finish_instruction_def set_gpr_def branch_def)

lemma branch_equal_semantics:
  assumes "cur AND 3 = 0" "load32 s cur = (w, s)" "stop_reason s = Running" "\<not> branch_pending s"
    and op: "drop_bit 26 w = 0x04 \<or> drop_bit 26 w = 0x14"
    and taken: "taken \<longleftrightarrow> reg s (drop_bit 21 w AND 31) = reg s (drop_bit 16 w AND 31)"
    and t: "t = snd (interpret_allegrex h m s cur)"
  shows "branch_pending t = taken" "taken \<Longrightarrow> branch_target t = branch_destination cur w"
    "pc t = (if \<not> taken \<and> drop_bit 26 w = 0x14 then cur + 8 else cur + 4)" "stop_reason t = Running"
    "memory t = memory s" "memory_base t = memory_base s"
proof -
  let ?s = "s\<lparr>branch_pending := False, pc := cur + 4\<rparr>"
  have reg: "reg ?s i = reg s i" for i by (simp add: reg_def)
  have "t = (branch ?s (decode_allegrex w) cur taken (drop_bit 26 w = 0x14))\<lparr>gpr := (gpr s)(0 := 0)\<rparr>"
    using op exec_instruction_beq [of "decode_allegrex w" h m ?s cur] assms(4)
    unfolding t interpret_valid [OF assms(1-3) valid_beq [OF op]] taken
    by (elim disjE; simp add: finish_branch reg)
  then show "branch_pending t = taken" "taken \<Longrightarrow> branch_target t = branch_destination cur w"
    "pc t = (if \<not> taken \<and> drop_bit 26 w = 0x14 then cur + 8 else cur + 4)" "stop_reason t = Running"
    "memory t = memory s" "memory_base t = memory_base s"
    using assms(3) by (simp_all add: branch_def branch_destination_def)
qed

text \<open>
  C14. Branches and delay slots. BEQ and BEQL at an address, outside a delay slot: if the
  registers are equal, the next address is the delay slot's, and after executing whatever
  instruction is there (if the machine still runs) the program counter is the branch target.
  If they differ, execution continues at the delay slot for BEQ and past it for BEQL.
\<close>

theorem branch_then_delay_slot:
  assumes "cur AND 3 = 0" "load32 s cur = (w, s)" "stop_reason s = Running" "\<not> branch_pending s"
    and "drop_bit 26 w = 0x04 \<or> drop_bit 26 w = 0x14"
    and "t = snd (interpret_allegrex h m s cur)"
    and "u = snd (interpret_allegrex h m t (pc t))" "stop_reason u = Running"
  shows "if reg s (drop_bit 21 w AND 31) = reg s (drop_bit 16 w AND 31)
         then pc t = cur + 4 \<and> pc u = branch_destination cur w
         else \<not> branch_pending t \<and> pc t = (if drop_bit 26 w = 0x14 then cur + 8 else cur + 4)"
proof (cases "reg s (drop_bit 21 w AND 31) = reg s (drop_bit 16 w AND 31)")
  case True
  note b = branch_equal_semantics [OF assms(1-5) refl assms(6), unfolded True]
  have "pc t AND 3 = 0" using b(3) assms(1) True by (simp add: plus_4_and_3)
  then have "pc u = branch_target t"
    using delay_slot [of "pc t" t h m] b(1,4) True assms(7,8) by simp
  then show ?thesis using b True by simp
next
  case False
  then show ?thesis using branch_equal_semantics(1,3) [OF assms(1-5) refl assms(6)] by simp
qed

lemma branch_then_delay_slot_witness:
  "let s = sample_state [4, 0, 0, 16, 0, 0, 0, 0]; t = snd (interpret_allegrex sample_host sample_math s 0x08800000) in
   pc (snd (interpret_allegrex sample_host sample_math t (pc t))) = 0x08800014"
proof -
  define s where "s = sample_state [4, 0, 0, 16, 0, 0, 0, 0]"
  define t where "t = snd (interpret_allegrex sample_host sample_math s 0x08800000)"
  have s: "memory s = Some [4, 0, 0, 16, 0, 0, 0, 0]" "memory_base s = 0x08800000" "stop_reason s = Running" "\<not> branch_pending s"
    "reg s 0 = 0"
    by (simp_all add: s_def sample_state_def initial_state_def reg_def)
  have l: "load32 s 0x08800000 = (0x10000004, s)"
    using load32_ram [OF s(1,2), of "0x08800000" 0] by (simp add: slice_bytes_def word32_of_def le32_def)
  note b = branch_equal_semantics [OF _ l s(3,4) _ refl t_def, simplified]
  have l': "load32 t (pc t) = (0, t)"
    using load32_ram [OF b(5) [unfolded s] b(6) [unfolded s], of "0x08800004" 4] b(3)
    by (simp add: slice_bytes_def word32_of_def le32_def)
  have "stop_reason (snd (interpret_allegrex sample_host sample_math t (pc t))) = Running"
    using nop_runs [OF _ l' b(4)] b(3) by simp
  from branch_then_delay_slot [OF _ l s(3,4) _ t_def refl this]
  have "pc (snd (interpret_allegrex sample_host sample_math t (pc t))) = branch_destination 0x08800000 0x10000004"
    by auto
  then show ?thesis by (simp add: s_def t_def branch_destination_def signed_immediate_def immediate_def)
qed

end
