(* ===== verification/Relocation.thy ===== *)
theory Relocation
  imports Prelude
begin

text \<open>
  Load-time relocation, \<open>include/psprecomp/relocation.hpp\<close>: the PSP relocation types are
  applied to a copy of the module's memory, from an array of records
  (\<open>apply_psp_relocations\<close>) or from the delta-encoded byte stream the emitter writes
  (\<open>apply_compact_psp_relocations\<close>, theory \<open>Compact_Relocation\<close>). The two C++ functions
  have the same body around a different source of records; here the body is \<open>apply_stream\<close>,
  which takes the source as its operations \<open>next\<close> and \<open>finished\<close>, and the locale
  \<open>relocation_source\<close> states what a source promises: that it yields a list of records.
\<close>

section \<open>Records\<close>

record PspRelocationRecord =
  offset :: u32
  rtype :: u8
  patch_segment :: u8
  target_segment :: u8
  reserved :: u8

record PspLoadSegment =
  seg_address :: u32
  seg_memory_size :: u32
  program_index :: u8

datatype RelocationResult =
  Success | Invalid_segment | Invalid_patch | Invalid_stream | Missing_lo16 | Unsupported_type

section \<open>Words in memory\<close>

definition find_segment :: "PspLoadSegment list \<Rightarrow> u8 \<Rightarrow> PspLoadSegment option" where
  "find_segment segments index = find (\<lambda>s. program_index s = index) segments"

text \<open>Sizes and offsets are \<open>std::size_t\<close>; the sum of two 32-bit values cannot wrap there.\<close>

definition relocation_word_offset ::
  "PspRelocationRecord \<Rightarrow> PspLoadSegment list \<Rightarrow> nat \<Rightarrow> nat option" where
  "relocation_word_offset r segments memory_size =
     (case find_segment segments (patch_segment r) of
        None \<Rightarrow> None
      | Some segment \<Rightarrow>
          if offset r > seg_memory_size segment \<or> seg_memory_size segment - offset r < 4 then None
          else let result = unat (seg_address segment) + unat (offset r) in
            if result \<le> memory_size \<and> 4 \<le> memory_size - result then Some result else None)"

definition read_u32 :: "u8 list \<Rightarrow> nat \<Rightarrow> u32" where
  "read_u32 mem i = le32 (mem ! i) (mem ! (i + 1)) (mem ! (i + 2)) (mem ! (i + 3))"

definition write_u32 :: "u8 list \<Rightarrow> nat \<Rightarrow> u32 \<Rightarrow> u8 list" where
  "write_u32 mem i v =
     mem[i := ucast v, i + 1 := ucast (drop_bit 8 v), i + 2 := ucast (drop_bit 16 v),
         i + 3 := ucast (drop_bit 24 v)]"

section \<open>The relocation types\<close>

definition sign_extend_low :: "u32 \<Rightarrow> u32" where
  "sign_extend_low w = scast (ucast (w AND 0xffff) :: u16)"

definition relocate_26 :: "u32 \<Rightarrow> u32 \<Rightarrow> u32" where
  "relocate_26 w relocate_to =
     (w AND 0xfc000000) OR (((w AND 0x03ffffff) + drop_bit 2 relocate_to) AND 0x03ffffff)"

definition relocate_hi16 :: "u32 \<Rightarrow> u32 \<Rightarrow> u32 \<Rightarrow> u32" where
  "relocate_hi16 w low_word relocate_to =
     (let full = push_bit 16 (w AND 0xffff) + sign_extend_low low_word + relocate_to in
      (w AND 0xffff0000) OR drop_bit 16 (full + 0x8000))"

definition relocate_lo16 :: "u32 \<Rightarrow> u32 \<Rightarrow> u32" where
  "relocate_lo16 w relocate_to =
     (w AND 0xffff0000) OR ((sign_extend_low w + relocate_to) AND 0xffff)"

section \<open>The body of both functions\<close>

text \<open>
  The search for the LO16 record that completes a HI16: \<open>n\<close> records remain. An error is the
  result the C++ function returns at that point.
\<close>

fun find_lo16 ::
  "('d \<Rightarrow> (PspRelocationRecord \<times> 'd) option) \<Rightarrow> PspLoadSegment list \<Rightarrow> u8 list \<Rightarrow> u8 \<Rightarrow> nat \<Rightarrow> 'd \<Rightarrow>
   RelocationResult + u32" where
  "find_lo16 next segments mem target 0 lookahead = Inl Missing_lo16"
| "find_lo16 next segments mem target (Suc n) lookahead =
     (case next lookahead of
        None \<Rightarrow> Inl Invalid_stream
      | Some (low, lookahead') \<Rightarrow>
          if rtype low \<noteq> 6 \<or> target_segment low \<noteq> target
          then find_lo16 next segments mem target n lookahead'
          else case relocation_word_offset low segments (length mem) of
            None \<Rightarrow> Inl Invalid_patch
          | Some low_offset \<Rightarrow> Inr (read_u32 mem low_offset))"

definition relocated_word ::
  "PspRelocationRecord \<Rightarrow> u32 \<Rightarrow> u32 \<Rightarrow> RelocationResult + u32 \<Rightarrow> RelocationResult + u32" where
  "relocated_word r w relocate_to low =
     (if rtype r = 0 then Inr w
      else if rtype r = 2 then Inr (w + relocate_to)
      else if rtype r = 4 then Inr (relocate_26 w relocate_to)
      else if rtype r = 5 then
        (case low of Inl e \<Rightarrow> Inl e | Inr low_word \<Rightarrow> Inr (relocate_hi16 w low_word relocate_to))
      else if rtype r = 6 then Inr (relocate_lo16 w relocate_to)
      else Inl Unsupported_type)"

text \<open>
  One record: \<open>low\<close> is the result of the search, which only a HI16 looks at. A failure
  leaves the memory as it is.
\<close>

definition apply_record ::
  "u32 \<Rightarrow> PspLoadSegment list \<Rightarrow> u8 list \<Rightarrow> PspRelocationRecord \<Rightarrow> RelocationResult + u32 \<Rightarrow>
   RelocationResult + u8 list" where
  "apply_record guest_base segments mem r low =
     (case find_segment segments (target_segment r) of
        None \<Rightarrow> Inl Invalid_segment
      | Some target \<Rightarrow>
          (case relocation_word_offset r segments (length mem) of
             None \<Rightarrow> Inl Invalid_patch
           | Some patch_offset \<Rightarrow>
               (case relocated_word r (read_u32 mem patch_offset) (guest_base + seg_address target) low of
                  Inl e \<Rightarrow> Inl e
                | Inr w \<Rightarrow> Inr (write_u32 mem patch_offset w))))"

fun apply_stream ::
  "('d \<Rightarrow> (PspRelocationRecord \<times> 'd) option) \<Rightarrow> ('d \<Rightarrow> bool) \<Rightarrow> u32 \<Rightarrow> PspLoadSegment list \<Rightarrow>
   nat \<Rightarrow> 'd \<Rightarrow> u8 list \<Rightarrow> u8 list \<times> RelocationResult" where
  "apply_stream next finished guest_base segments 0 d mem =
     (mem, if finished d then Success else Invalid_stream)"
| "apply_stream next finished guest_base segments (Suc n) d mem =
     (case next d of
        None \<Rightarrow> (mem, Invalid_stream)
      | Some (r, d') \<Rightarrow>
          (case apply_record guest_base segments mem r
                  (find_lo16 next segments mem (target_segment r) n d') of
             Inl e \<Rightarrow> (mem, e)
           | Inr mem' \<Rightarrow> apply_stream next finished guest_base segments n d' mem'))"

section \<open>From an array of records\<close>

definition array_next ::
  "PspRelocationRecord list \<Rightarrow> nat \<Rightarrow> (PspRelocationRecord \<times> nat) option" where
  "array_next relocations i =
     (if i < length relocations then Some (relocations ! i, i + 1) else None)"

text \<open>A null pointer is \<open>None\<close>; the sizes are the lengths of the lists.\<close>

definition apply_psp_relocations ::
  "u8 list option \<Rightarrow> u32 \<Rightarrow> PspLoadSegment list option \<Rightarrow> PspRelocationRecord list option \<Rightarrow> nat \<Rightarrow>
   u8 list option \<times> RelocationResult" where
  "apply_psp_relocations mem guest_base segments relocations relocation_count =
     (case (mem, segments) of
        (Some m, Some segs) \<Rightarrow>
          (case relocations of
             None \<Rightarrow>
               if relocation_count \<noteq> 0 then (mem, Invalid_patch)
               else apfst Some (apply_stream (array_next []) (\<lambda>_. True) guest_base segs 0 0 m)
           | Some rs \<Rightarrow>
               apfst Some
                 (apply_stream (array_next rs) (\<lambda>_. True) guest_base segs relocation_count 0 m))
      | _ \<Rightarrow> (mem, Invalid_patch))"

section \<open>What a source of records promises\<close>

text \<open>The reference: the records are a list, the search is over the rest of it.\<close>

fun find_lo16_list ::
  "PspLoadSegment list \<Rightarrow> u8 list \<Rightarrow> u8 \<Rightarrow> PspRelocationRecord list \<Rightarrow> RelocationResult + u32" where
  "find_lo16_list segments mem target rs =
     (case find (\<lambda>low. rtype low = 6 \<and> target_segment low = target) rs of
        None \<Rightarrow> Inl Missing_lo16
      | Some low \<Rightarrow>
          (case relocation_word_offset low segments (length mem) of
             None \<Rightarrow> Inl Invalid_patch
           | Some low_offset \<Rightarrow> Inr (read_u32 mem low_offset)))"

fun apply_list ::
  "u32 \<Rightarrow> PspLoadSegment list \<Rightarrow> PspRelocationRecord list \<Rightarrow> u8 list \<Rightarrow> u8 list \<times> RelocationResult" where
  "apply_list guest_base segments [] mem = (mem, Success)"
| "apply_list guest_base segments (r # rs) mem =
     (case apply_record guest_base segments mem r
             (find_lo16_list segments mem (target_segment r) rs) of
        Inl e \<Rightarrow> (mem, e)
      | Inr mem' \<Rightarrow> apply_list guest_base segments rs mem')"

locale relocation_source =
  fixes "next" :: "'d \<Rightarrow> (PspRelocationRecord \<times> 'd) option"
    and finished :: "'d \<Rightarrow> bool"
    and yields :: "'d \<Rightarrow> PspRelocationRecord list \<Rightarrow> bool"
  assumes yields_Cons: "yields d (r # rs) \<Longrightarrow> \<exists>d'. next d = Some (r, d') \<and> yields d' rs"
    and yields_Nil: "yields d [] \<Longrightarrow> finished d"
begin

lemma find_lo16_yields:
  "yields d rs \<Longrightarrow> find_lo16 next segments mem target (length rs) d = find_lo16_list segments mem target rs"
proof (induction rs arbitrary: d)
  case (Cons r rs)
  then obtain d' where "next d = Some (r, d')" "yields d' rs" using yields_Cons by blast
  then show ?case using Cons.IH [of d'] by auto
qed simp

lemma apply_yields:
  "yields d rs \<Longrightarrow>
   apply_stream next finished guest_base segments (length rs) d mem = apply_list guest_base segments rs mem"
proof (induction rs arbitrary: d mem)
  case (Cons r rs)
  then obtain d' where d': "next d = Some (r, d')" "yields d' rs" using yields_Cons by blast
  then show ?case using Cons.IH [OF d'(2)] find_lo16_yields [OF d'(2)]
    by (simp del: find_lo16_list.simps split: sum.splits)
qed (simp add: yields_Nil)

end

interpretation array: relocation_source "array_next relocations" "\<lambda>_. True"
  "\<lambda>i rs. i \<le> length relocations \<and> rs = drop i relocations"
proof
  show "i \<le> length relocations \<and> r # rs = drop i relocations \<Longrightarrow>
      \<exists>i'. array_next relocations i = Some (r, i') \<and> i' \<le> length relocations \<and> rs = drop i' relocations"
    for i r rs
    by (cases "i < length relocations") (auto simp: array_next_def Cons_nth_drop_Suc [symmetric])
qed simp

lemma apply_psp_relocations_list:
  "apply_psp_relocations (Some mem) guest_base (Some segments) (Some rs) (length rs) =
     apfst Some (apply_list guest_base segments rs mem)"
  using array.apply_yields [of 0 rs rs] by (simp add: apply_psp_relocations_def)

section \<open>What relocation does to memory\<close>

lemma length_write_u32 [simp]: "length (write_u32 mem i v) = length mem"
  by (simp add: write_u32_def)

lemma write_u32_overwrite: "i + 4 \<le> length mem \<Longrightarrow> write_u32 mem i v = overwrite mem i (bytes32 v)"
  by (rule nth_equalityI)
    (auto simp: write_u32_def nth_overwrite bytes32_def nth_list_update nth_Cons' less_Suc_eq numeral_eq_Suc)

lemma read_u32_slice: "i + 4 \<le> length mem \<Longrightarrow> read_u32 mem i = word32_of (slice_bytes mem i 4)"
  by (simp add: read_u32_def word32_of_def)

lemma read_write_u32: "i + 4 \<le> length mem \<Longrightarrow> read_u32 (write_u32 mem i v) i = v"
  by (simp add: read_u32_slice write_u32_overwrite)

lemma read_write_u32_other:
  "i + 4 \<le> length mem \<Longrightarrow> j + 4 \<le> length mem \<Longrightarrow> j + 4 \<le> i \<or> i + 4 \<le> j \<Longrightarrow>
   read_u32 (write_u32 mem i v) j = read_u32 mem j"
  by (simp add: read_u32_slice write_u32_overwrite slice_overwrite_other)

lemma relocation_word_offset_bounds:
  "relocation_word_offset r segments n = Some i \<Longrightarrow> i + 4 \<le> n"
  by (auto simp: relocation_word_offset_def Let_def split: option.splits if_splits)

text \<open>
  The bytes a list of records may write: those of the words the records name.
\<close>

definition patched :: "PspLoadSegment list \<Rightarrow> nat \<Rightarrow> PspRelocationRecord list \<Rightarrow> nat set" where
  "patched segments n rs =
     (\<Union>r \<in> set rs. case relocation_word_offset r segments n of None \<Rightarrow> {} | Some i \<Rightarrow> {i..<i + 4})"

lemma patched_Cons: "patched segments n (r # rs) =
   (case relocation_word_offset r segments n of None \<Rightarrow> {} | Some i \<Rightarrow> {i..<i + 4}) \<union> patched segments n rs"
  by (simp add: patched_def)

lemma nth_write_u32:
  "k \<notin> {i..<i + 4} \<Longrightarrow> write_u32 mem i v ! k = mem ! k"
  by (auto simp: write_u32_def nth_list_update)

lemma apply_record_frame:
  assumes "apply_record guest_base segments mem r low = Inr mem'"
  obtains i where "relocation_word_offset r segments (length mem) = Some i" "length mem' = length mem"
    "\<And>k. k \<notin> {i..<i + 4} \<Longrightarrow> mem' ! k = mem ! k"
  using assms by (auto simp: apply_record_def nth_write_u32 split: option.splits sum.splits)

lemma apply_list_frame:
  "length (fst (apply_list guest_base segments rs mem)) = length mem \<and>
   (\<forall>k. k \<notin> patched segments (length mem) rs \<longrightarrow> fst (apply_list guest_base segments rs mem) ! k = mem ! k)"
proof (induction rs arbitrary: mem)
  case (Cons r rs)
  show ?case
  proof (cases "apply_record guest_base segments mem r (find_lo16_list segments mem (target_segment r) rs)")
    case (Inr mem')
    then obtain i where i: "relocation_word_offset r segments (length mem) = Some i" "length mem' = length mem"
      "\<And>k. k \<notin> {i..<i + 4} \<Longrightarrow> mem' ! k = mem ! k" by (rule apply_record_frame) blast
    then show ?thesis using Inr Cons.IH [of mem'] by (auto simp: patched_Cons simp del: find_lo16_list.simps)
  qed (simp del: find_lo16_list.simps)
qed simp

section \<open>Addresses built by a HI16 and a LO16\<close>

lemma low_mask: "(0xffff :: u32) = mask 16" "(0xffff0000 :: u32) = NOT (mask 16)"
  by (simp_all add: mask_eq_exp_minus_1)

lemma lo16_low: "relocate_lo16 w t AND 0xffff = (sign_extend_low w + t) AND 0xffff"
  unfolding relocate_lo16_def low_mask by (rule bit_word_eqI) (auto simp: bit_simps)

lemma hi16_low: "push_bit 16 (relocate_hi16 w l t AND 0xffff) = (push_bit 16 (w AND 0xffff) + sign_extend_low l + t + 0x8000) AND 0xffff0000"
  unfolding relocate_hi16_def Let_def low_mask by (rule bit_word_eqI) (auto simp: bit_simps)

lemma sign_extend_low_eq: "sign_extend_low x = take_bit 16 (x + 0x8000) - 0x8000"
proof -
  have "(ucast (x AND 0xffff) :: u16) = ucast x"
    unfolding low_mask by (rule bit_word_eqI) (auto simp: bit_simps)
  then have "sign_extend_low x = word_of_int (signed_take_bit 15 (uint x))"
    by (simp add: sign_extend_low_def) (transfer, simp add: signed_take_bit_take_bit)
  also have "signed_take_bit 15 (uint x) = take_bit 16 (uint x + 2 ^ 15) - 2 ^ 15"
    using signed_take_bit_eq_take_bit_shift [of 15 "uint x"] by simp
  also have "(word_of_int (take_bit 16 (uint x + 2 ^ 15) - 2 ^ 15) :: u32) = take_bit 16 (x + 0x8000) - 0x8000"
  proof -
    have "(k mod 4294967296 + 32768) mod 65536 = (k + 32768) mod (65536 :: int)" for k
      by (rule mod_add_cong [OF mod_mod_cancel refl]) simp
    then show ?thesis by (transfer, simp add: take_bit_eq_mod mod_simps)
  qed
  finally show ?thesis .
qed

lemma take_bit_16_add: "take_bit 16 (a + b :: u32) = take_bit 16 (take_bit 16 a + b)"
  by (transfer, simp add: take_bit_eq_mod mod_simps)

lemma take_bit_16_shift: "take_bit 16 (push_bit 16 a + b :: u32) = take_bit 16 b"
  by (transfer, simp add: take_bit_eq_mod push_bit_eq_mult mod_simps)

lemma hi_lo_pair:
  "push_bit 16 (relocate_hi16 h l t AND 0xffff) + sign_extend_low (relocate_lo16 l t) =
   push_bit 16 (h AND 0xffff) + sign_extend_low l + t"
proof -
  define y where "y = sign_extend_low l + t"
  define v where "v = push_bit 16 (h AND 0xffff) + y"
  have lo: "take_bit 16 (relocate_lo16 l t) = take_bit 16 y"
    using lo16_low [of l t] by (simp add: low_mask y_def flip: take_bit_eq_mask)
  then have "sign_extend_low (relocate_lo16 l t) = sign_extend_low y"
    unfolding sign_extend_low_eq
    using take_bit_16_add [of "relocate_lo16 l t" "0x8000"] take_bit_16_add [of y "0x8000"] by simp
  also have "\<dots> = sign_extend_low v"
    unfolding sign_extend_low_eq v_def using take_bit_16_shift [of "h AND 0xffff" "y + 0x8000"] by (simp add: add.assoc)
  also have "\<dots> = take_bit 16 (v + 0x8000) - 0x8000" by (rule sign_extend_low_eq)
  also have "\<dots> = v - ((v + 0x8000) AND 0xffff0000)"
  proof -
    have "(v + 0x8000) = ((v + 0x8000) AND 0xffff0000) + take_bit 16 (v + 0x8000)"
      unfolding low_mask take_bit_eq_mask
      by (subst disjunctive_add_eq_or) (auto intro!: bit_word_eqI simp: bit_simps)
    then show ?thesis by (simp add: algebra_simps)
  qed
  finally show ?thesis using hi16_low [of h l t] by (simp only: v_def y_def add.assoc) simp
qed

text \<open>The address a LUI and the instruction after it build from their two immediates.\<close>

definition pair_address :: "u8 list \<Rightarrow> nat \<Rightarrow> nat \<Rightarrow> u32" where
  "pair_address mem i j =
     push_bit 16 (read_u32 mem i AND 0xffff) + sign_extend_low (read_u32 mem j)"

text \<open>
  C34. A HI16 and its LO16 relocate the address the two instructions build together: the sum of
  the shifted high half and the sign-extended low half grows by exactly the address the
  target segment was loaded at, with the carry between the halves accounted for.
\<close>

theorem hi_lo_relocated:
  assumes "rtype hi = 5" "rtype lo = 6" "target_segment lo = target_segment hi"
    and "find_segment segments (target_segment hi) = Some target"
    and i: "relocation_word_offset hi segments (length mem) = Some i"
    and j: "relocation_word_offset lo segments (length mem) = Some j"
    and disjoint: "i + 4 \<le> j \<or> j + 4 \<le> i"
  shows "\<exists>mem'. apply_psp_relocations (Some mem) guest_base (Some segments) (Some [hi, lo]) 2 =
             (Some mem', Success) \<and>
           pair_address mem' i j = pair_address mem i j + (guest_base + seg_address target)"
proof -
  let ?t = "guest_base + seg_address target"
  let ?h = "relocate_hi16 (read_u32 mem i) (read_u32 mem j) ?t"
  let ?mem1 = "write_u32 mem i ?h"
  let ?mem2 = "write_u32 ?mem1 j (relocate_lo16 (read_u32 mem j) ?t)"
  note b = relocation_word_offset_bounds [OF i] relocation_word_offset_bounds [OF j]
  have r: "read_u32 ?mem1 j = read_u32 mem j" using b disjoint by (auto simp: read_write_u32_other)
  have "apply_psp_relocations (Some mem) guest_base (Some segments) (Some [hi, lo]) (length [hi, lo]) =
      (Some ?mem2, Success)"
    unfolding apply_psp_relocations_list using assms r
    by (simp add: apply_record_def relocated_word_def)
  then have "apply_psp_relocations (Some mem) guest_base (Some segments) (Some [hi, lo]) 2 =
      (Some ?mem2, Success)" by (simp add: numeral_2_eq_2)
  moreover have "read_u32 ?mem2 i = ?h" "read_u32 ?mem2 j = relocate_lo16 (read_u32 mem j) ?t"
    using b disjoint by (auto simp: read_write_u32_other read_write_u32)
  ultimately show ?thesis
    using hi_lo_pair [of "read_u32 mem i" "read_u32 mem j" ?t]
    by (intro exI [of _ ?mem2]) (simp add: pair_address_def add.assoc)
qed

lemma hi_lo_relocated_witness:
  "\<exists>mem'. apply_psp_relocations (Some [0x34, 0x12, 4, 60, 0, 0x80, 0x84, 0x24]) 0x08800000
       (Some [\<lparr>seg_address = 0, seg_memory_size = 8, program_index = 0\<rparr>])
       (Some [\<lparr>offset = 0, rtype = 5, patch_segment = 0, target_segment = 0, reserved = 0\<rparr>,
              \<lparr>offset = 4, rtype = 6, patch_segment = 0, target_segment = 0, reserved = 0\<rparr>]) 2 =
     (Some mem', Success) \<and> pair_address mem' 0 4 = 0x12338000 + 0x08800000"
  using hi_lo_relocated [of "\<lparr>offset = 0, rtype = 5, patch_segment = 0, target_segment = 0, reserved = 0\<rparr>"
      "\<lparr>offset = 4, rtype = 6, patch_segment = 0, target_segment = 0, reserved = 0\<rparr>"
      "[\<lparr>seg_address = 0, seg_memory_size = 8, program_index = 0\<rparr>]"
      "\<lparr>seg_address = 0, seg_memory_size = 8, program_index = 0\<rparr>"
      "[0x34, 0x12, 4, 60, 0, 0x80, 0x84, 0x24]" 0 4 "0x08800000"]
  by (simp add: relocation_word_offset_def find_segment_def pair_address_def read_u32_def le32_def
      sign_extend_low_def)

text \<open>
  Relocation stays inside the module. Whatever the records are and wherever it stops, it
  keeps the size of the memory and changes no byte outside the words the records name,
  which all lie inside the memory.
\<close>

theorem relocation_frame:
  assumes "apply_psp_relocations (Some mem) guest_base (Some segments) (Some rs) (length rs) = (Some mem', result)"
  shows "length mem' = length mem \<and> patched segments (length mem) rs \<subseteq> {..<length mem} \<and>
     (\<forall>k. k \<notin> patched segments (length mem) rs \<longrightarrow> mem' ! k = mem ! k)"
proof -
  have "mem' = fst (apply_list guest_base segments rs mem)"
    using assms unfolding apply_psp_relocations_list by (cases "apply_list guest_base segments rs mem") auto
  moreover have "patched segments (length mem) rs \<subseteq> {..<length mem}"
    by (fastforce simp: patched_def dest: relocation_word_offset_bounds split: option.splits)
  ultimately show ?thesis using apply_list_frame by simp
qed

lemma relocation_frame_witness:
  "\<exists>mem' result. apply_psp_relocations (Some [1, 2, 3, 4, 5]) 0
       (Some [\<lparr>seg_address = 0, seg_memory_size = 4, program_index = 0\<rparr>])
       (Some [\<lparr>offset = 0, rtype = 2, patch_segment = 0, target_segment = 0, reserved = 0\<rparr>]) 1 =
     (Some mem', result) \<and> length mem' = 5 \<and> mem' ! 4 = 5"
proof -
  let ?seg = "[\<lparr>seg_address = 0, seg_memory_size = 4, program_index = 0\<rparr>]"
  let ?r = "[\<lparr>offset = 0, rtype = 2, patch_segment = 0, target_segment = 0, reserved = 0\<rparr>]"
  obtain mem' result where a: "apply_psp_relocations (Some [1, 2, 3, 4, 5]) 0 (Some ?seg) (Some ?r) (length ?r) =
      (Some mem', result)"
    unfolding apply_psp_relocations_list by (cases "apply_list 0 ?seg ?r [1, 2, 3, 4, 5]") simp
  from relocation_frame [OF this] have "length mem' = 5 \<and> mem' ! 4 = 5"
    by (simp add: patched_def relocation_word_offset_def find_segment_def Let_def)
  then show ?thesis using a by auto
qed

end
