(* ===== verification/Compact_Relocation.thy ===== *)
theory Compact_Relocation
  imports Relocation
begin

text \<open>
  The compact relocation stream: the encoder of the emitter
  (\<open>compact_relocations\<close>, \<open>src/emitter/relocations.cpp\<close>), the decoder of
  \<open>include/psprecomp/relocation.hpp\<close> (\<open>CompactRelocationDecoder\<close>) and
  \<open>apply_compact_psp_relocations\<close>. The decoder is shown to be a source of records
  (\<open>relocation_source\<close>) that yields exactly what was encoded, so that a native wrapper that
  relocates from the stream does what the ordinary loader does with the records.
\<close>

section \<open>The decoder\<close>

text \<open>
  \<open>cursor\<close> counts the bytes read, \<open>decoded\<close> the records \<open>note_decoded\<close> was called for. After
  \<open>next\<close> returns false the decoder is only asked \<open>consumed\<close>, which is then false, so a failure
  is \<open>None\<close>.
\<close>

record Decoder_state =
  bytes :: "u8 list"
  cursor :: nat
  decoded :: nat
  previous_offsets :: "u8 \<Rightarrow> u32"
  dtype :: u8
  dpatch :: u8
  dtarget :: u8
  has_metadata :: bool

definition initial_decoder :: "u8 list \<Rightarrow> Decoder_state" where
  "initial_decoder bs = \<lparr>bytes = bs, cursor = 0, decoded = 0, previous_offsets = (\<lambda>_. 0),
     dtype = 0, dpatch = 0, dtarget = 0, has_metadata = False\<rparr>"

text \<open>
  The tag of a long entry: seven bits a byte, low bits first, at most nine bytes. The tag
  and \<open>magnitude + 1\<close> stay below \<open>2 ^ 64\<close>, so natural numbers are exact; the bits a byte
  adds lie above those already read, so \<open>+\<close> is the \<open>|=\<close> of the code.
\<close>

function read_tag :: "u8 list \<Rightarrow> nat \<Rightarrow> nat \<Rightarrow> nat \<Rightarrow> (nat \<times> nat) option" where
  "read_tag bs c shift tag =
     (if length bs \<le> c \<or> 63 \<le> shift then None
      else let byte = bs ! c; tag = tag + unat (byte AND 0x7f) * 2 ^ shift in
        if byte AND 0x80 = 0 then Some (tag, c + 1)
        else read_tag bs (c + 1) (shift + 7) tag)"
  by pat_completeness auto
termination by (relation "measure (\<lambda>(bs, c, shift, tag). 63 - shift)") auto

declare read_tag.simps [simp del]

definition short_type :: "u8 \<Rightarrow> u8" where
  "short_type code =
     (if code = 0 then 0 else if code = 1 then 2 else if code = 2 then 4 else if code = 3 then 5
      else if code = 4 then 6 else if code = 5 then 2 else if code = 6 then 4 else 6)"

text \<open>A one-byte entry: the metadata and the delta it stands for.\<close>

definition read_short :: "Decoder_state \<Rightarrow> u8 \<Rightarrow> int \<times> Decoder_state" where
  "read_short d first =
     (let code = first AND 7; d = d\<lparr>dtype := short_type code, has_metadata := True\<rparr> in
      if code \<le> 4 then
        (int (unat (drop_bit 5 first)) * 4,
         d\<lparr>dpatch := drop_bit 3 first AND 1, dtarget := drop_bit 4 first AND 1\<rparr>)
      else (int (unat (drop_bit 3 first)) * 4, d\<lparr>dpatch := 0, dtarget := 0\<rparr>))"

definition read_metadata :: "Decoder_state \<Rightarrow> Decoder_state option" where
  "read_metadata d =
     (if length (bytes d) \<le> cursor d then None
      else let packed = bytes d ! cursor d; d = d\<lparr>cursor := cursor d + 1\<rparr> in
        if packed \<noteq> 0xff then
          Some (d\<lparr>dtype := packed AND 0x0f, dpatch := drop_bit 4 packed AND 3,
                 dtarget := drop_bit 6 packed, has_metadata := True\<rparr>)
        else if cursor d > length (bytes d) \<or> length (bytes d) - cursor d < 3 then None
        else Some (d\<lparr>dtype := bytes d ! cursor d, dpatch := bytes d ! (cursor d + 1),
                    dtarget := bytes d ! (cursor d + 2), cursor := cursor d + 3,
                    has_metadata := True\<rparr>))"

definition unzigzag :: "nat \<Rightarrow> int" where
  "unzigzag zigzag =
     (let magnitude = zigzag div 2 in
      if odd zigzag then - int (magnitude + 1) else int magnitude)"

definition read_long :: "Decoder_state \<Rightarrow> (int \<times> Decoder_state) option" where
  "read_long d =
     (case read_tag (bytes d) (cursor d) 0 0 of
        None \<Rightarrow> None
      | Some (tag, c) \<Rightarrow>
          (case if odd tag then read_metadata (d\<lparr>cursor := c\<rparr>) else Some (d\<lparr>cursor := c\<rparr>) of
             None \<Rightarrow> None
           | Some d \<Rightarrow> if \<not> has_metadata d then None else Some (unzigzag (tag div 2), d)))"

definition finish_entry :: "int \<times> Decoder_state \<Rightarrow> (PspRelocationRecord \<times> Decoder_state) option" where
  "finish_entry e =
     (let (delta, d) = e; next_offset = int (unat (previous_offsets d (dpatch d))) + delta in
      if next_offset < 0 \<or> next_offset > 0xffffffff then None
      else Some (\<lparr>offset = of_int next_offset, rtype = dtype d, patch_segment = dpatch d,
                  target_segment = dtarget d, reserved = 0\<rparr>,
                 d\<lparr>previous_offsets := (previous_offsets d)(dpatch d := of_int next_offset)\<rparr>))"

definition compact_next :: "Decoder_state \<Rightarrow> (PspRelocationRecord \<times> Decoder_state) option" where
  "compact_next d =
     (if length (bytes d) \<le> cursor d then None
      else let first = bytes d ! cursor d; d = d\<lparr>cursor := cursor d + 1\<rparr> in
        if first \<noteq> 0xff then finish_entry (read_short d first)
        else case read_long d of None \<Rightarrow> None | Some e \<Rightarrow> finish_entry e)"

definition consumed :: "nat \<Rightarrow> Decoder_state \<Rightarrow> bool" where
  "consumed relocation_count d \<longleftrightarrow> decoded d = relocation_count \<and> cursor d = length (bytes d)"

definition note_decoded :: "Decoder_state \<Rightarrow> Decoder_state" where
  "note_decoded d = d\<lparr>decoded := decoded d + 1\<rparr>"

text \<open>The loop and the look-ahead copy both call \<open>next\<close> and then \<open>note_decoded\<close>.\<close>

definition counted_next :: "Decoder_state \<Rightarrow> (PspRelocationRecord \<times> Decoder_state) option" where
  "counted_next d = map_option (apsnd note_decoded) (compact_next d)"

definition apply_compact_psp_relocations ::
  "u8 list option \<Rightarrow> u32 \<Rightarrow> PspLoadSegment list option \<Rightarrow> u8 list option \<Rightarrow> nat \<Rightarrow>
   u8 list option \<times> RelocationResult" where
  "apply_compact_psp_relocations mem guest_base segments bs relocation_count =
     (case (mem, segments) of
        (Some m, Some segs) \<Rightarrow>
          apfst Some (apply_stream counted_next (consumed relocation_count) guest_base segs
            relocation_count (initial_decoder (case bs of None \<Rightarrow> [] | Some b \<Rightarrow> b)) m)
      | _ \<Rightarrow> (mem, Invalid_patch))"

section \<open>The encoder\<close>

record Relocation =
  roffset :: u32
  reltype :: u8
  rpatch :: u8
  rtarget :: u8

record Encoder_state =
  enc_offsets :: "u8 \<Rightarrow> u32"
  previous :: Relocation
  have_metadata :: bool

definition initial_encoder :: Encoder_state where
  "initial_encoder = \<lparr>enc_offsets = (\<lambda>_. 0),
     previous = \<lparr>roffset = 0, reltype = 0, rpatch = 0, rtarget = 0\<rparr>, have_metadata = False\<rparr>"

definition type_code :: "u8 \<Rightarrow> u8" where
  "type_code t = (if t = 0 then 0 else if t = 2 then 1 else if t = 4 then 2 else if t = 5 then 3
     else if t = 6 then 4 else 0xff)"

definition extended_short_code :: "u8 \<Rightarrow> u8" where
  "extended_short_code t = (if t = 2 then 5 else if t = 4 then 6 else if t = 6 then 7 else 0xff)"

function tag_bytes :: "nat \<Rightarrow> u8 list" where
  "tag_bytes tag =
     (let byte = of_nat (tag mod 128); tag = tag div 128 in
      if tag \<noteq> 0 then (byte OR 0x80) # tag_bytes tag else [byte])"
  by pat_completeness auto
termination by (relation "measure id") auto

declare tag_bytes.simps [simp del]

definition zigzag :: "int \<Rightarrow> nat" where
  "zigzag delta = (if 0 \<le> delta then nat delta * 2 else nat (- (delta + 1)) * 2 + 1)"

definition metadata_bytes :: "Relocation \<Rightarrow> u8 list" where
  "metadata_bytes r =
     (let can_pack = (reltype r < 16 \<and> rpatch r < 4 \<and> rtarget r < 4);
          packed = reltype r OR push_bit 4 (rpatch r) OR push_bit 6 (rtarget r) in
      if can_pack \<and> packed \<noteq> 0xff then [packed]
      else [0xff, reltype r, rpatch r, rtarget r])"

definition encode_delta :: "Encoder_state \<Rightarrow> Relocation \<Rightarrow> int" where
  "encode_delta e r = int (unat (roffset r)) - int (unat (enc_offsets e (rpatch r)))"

definition encode_entry :: "Encoder_state \<Rightarrow> Relocation \<Rightarrow> u8 list" where
  "encode_entry e r =
     (let delta = encode_delta e r; code = type_code (reltype r);
          can_use_short = (code \<noteq> 0xff \<and> rpatch r < 2 \<and> rtarget r < 2 \<and> 0 \<le> delta \<and>
                           delta mod 4 = 0 \<and> delta \<le> 28);
          extended = extended_short_code (reltype r);
          can_use_extended_short = (extended \<noteq> 0xff \<and> rpatch r = 0 \<and> rtarget r = 0 \<and> 0 \<le> delta \<and>
                           delta mod 4 = 0 \<and> delta \<le> 124 \<and> \<not> (extended = 7 \<and> delta = 124))
      in if can_use_short then
           [push_bit 5 (of_int (delta div 4)) OR push_bit 4 (rtarget r) OR push_bit 3 (rpatch r) OR code]
         else if can_use_extended_short then [push_bit 3 (of_int (delta div 4)) OR extended]
         else let metadata_changed = (\<not> have_metadata e \<or> reltype r \<noteq> reltype (previous e) \<or>
                     rpatch r \<noteq> rpatch (previous e) \<or> rtarget r \<noteq> rtarget (previous e));
                  tag = zigzag delta * 2 + (if metadata_changed then 1 else 0)
           in 0xff # tag_bytes tag @ (if metadata_changed then metadata_bytes r else []))"

definition encode_next :: "Encoder_state \<Rightarrow> Relocation \<Rightarrow> Encoder_state" where
  "encode_next e r =
     e\<lparr>enc_offsets := (enc_offsets e)(rpatch r := roffset r), previous := r, have_metadata := True\<rparr>"

fun encode_all :: "Encoder_state \<Rightarrow> Relocation list \<Rightarrow> u8 list" where
  "encode_all e [] = []"
| "encode_all e (r # rs) = encode_entry e r @ encode_all (encode_next e r) rs"

definition compact_relocations :: "Relocation list \<Rightarrow> u8 list" where
  "compact_relocations rs = encode_all initial_encoder rs"

section \<open>Entries and their bytes\<close>

lemma byte_masks: "(0x7f :: u8) = mask 7" "(0x80 :: u8) = push_bit 7 1" "(7 :: u8) = mask 3"
  "(0x0f :: u8) = mask 4" "(3 :: u8) = mask 2" "(1 :: u8) = mask 1"
  by (simp_all add: mask_eq_exp_minus_1)

lemma byte_eqI:
  fixes x y :: u8
  assumes "bit x 0 = bit y 0" "bit x 1 = bit y 1" "bit x 2 = bit y 2" "bit x 3 = bit y 3"
    "bit x 4 = bit y 4" "bit x 5 = bit y 5" "bit x 6 = bit y 6" "bit x 7 = bit y 7"
  shows "x = y"
proof (rule bit_word_eqI)
  fix n assume "n < LENGTH(8)"
  then have "n = 0 \<or> n = 1 \<or> n = 2 \<or> n = 3 \<or> n = 4 \<or> n = 5 \<or> n = 6 \<or> n = 7"
    by (simp, arith)
  then show "bit x n = bit y n" using assms by auto
qed

lemma byte_bit_beyond [simp]: "8 \<le> m \<Longrightarrow> \<not> bit (x :: u8) m"
  using bit_imp_le_length [of x m] by auto

lemma bit_small_nat: "bit (k :: nat) m \<Longrightarrow> 2 ^ m \<le> k"
proof -
  assume "bit k m"
  then have "odd (k div 2 ^ m)" by (simp add: bit_iff_odd)
  then have "k div 2 ^ m \<noteq> 0" by (intro notI) simp
  then show ?thesis by (simp add: div_eq_0_iff not_less)
qed

lemma bit_small: "bit (x :: u8) m \<Longrightarrow> unat x < 2 ^ n \<Longrightarrow> m < n"
proof -
  assume "bit x m" "unat x < 2 ^ n"
  then have "2 ^ m \<le> unat x" by (intro bit_small_nat) (simp add: bit_unsigned_iff)
  then have "(2::nat) ^ m < 2 ^ n" using \<open>unat x < 2 ^ n\<close> by linarith
  then show "m < n" by simp
qed

lemma tag_byte:
  assumes "k < 128"
  shows "unat ((of_nat k :: u8) AND 0x7f) = k" "(of_nat k :: u8) AND 0x80 = 0"
    "unat ((of_nat k OR 0x80 :: u8) AND 0x7f) = k" "(of_nat k OR 0x80 :: u8) AND 0x80 \<noteq> 0"
proof -
  have u: "unat (of_nat k :: u8) = k" using assms by (simp add: unat_of_nat)
  have b: "\<not> bit (of_nat k :: u8) 7" using bit_small [of "of_nat k" 7 7] u assms by auto
  have 1: "(of_nat k :: u8) AND 0x7f = of_nat k"
    unfolding byte_masks(1) by (rule bit_word_eqI) (use b in \<open>auto simp: bit_simps less_Suc_eq numeral_eq_Suc\<close>)
  show "unat ((of_nat k :: u8) AND 0x7f) = k"
    unfolding 1 using assms by (simp add: unat_of_nat)
  show "(of_nat k :: u8) AND 0x80 = 0" unfolding byte_masks(2) push_bit_of_1 and_exp_eq_0_iff_not_bit by (rule b)
  have "(of_nat k OR 0x80 :: u8) AND 0x7f = of_nat k AND 0x7f"
    by (rule byte_eqI) (simp_all add: bit_simps)
  then show "unat ((of_nat k OR 0x80 :: u8) AND 0x7f) = k" unfolding 1 using assms by (simp add: unat_of_nat)
  show "(of_nat k OR 0x80 :: u8) AND 0x80 \<noteq> 0"
    unfolding byte_masks(2) push_bit_of_1 and_exp_eq_0_iff_not_bit by (simp add: bit_simps)
qed

lemma tag_bytes_not_Nil [simp]: "tag_bytes t \<noteq> []"
  by (subst tag_bytes.simps) (simp add: Let_def)

lemma read_tag_tag_bytes:
  "t < 2 ^ (63 - shift) \<Longrightarrow> shift < 63 \<Longrightarrow>
   read_tag (pre @ tag_bytes t @ post) (length pre) shift tag =
     Some (tag + t * 2 ^ shift, length pre + length (tag_bytes t))"
proof (induction t arbitrary: pre shift tag rule: tag_bytes.induct)
  case (1 t)
  have lt: "t mod 128 < 128" by simp
  show ?case
  proof (cases "t div 128 = 0")
    case True
    then have "tag_bytes t = [of_nat (t mod 128)]" by (subst tag_bytes.simps) (simp add: Let_def)
    moreover have "t mod 128 = t" using True by (auto simp: div_eq_0_iff)
    ultimately have "tag_bytes t = [of_nat (t mod 128)]" "t mod 128 = t" by simp_all
    then show ?thesis using 1(3) tag_byte(1,2) [OF lt] by (subst read_tag.simps) (simp add: Let_def)
  next
    case False
    then have tb: "tag_bytes t = (of_nat (t mod 128) OR 0x80) # tag_bytes (t div 128)"
      by (subst tag_bytes.simps) (simp add: Let_def)
    have "128 \<le> t" using False by auto
    have s7: "shift + 7 < 63"
    proof (rule ccontr)
      assume "\<not> shift + 7 < 63"
      then have "(2::nat) ^ (63 - shift) \<le> 2 ^ 7" by (intro power_increasing) simp_all
      then show False using 1(2) \<open>128 \<le> t\<close> by simp
    qed
    then have "63 - shift = (63 - (shift + 7)) + 7" by simp
    then have "t < 2 ^ (63 - (shift + 7)) * 128" using 1(2) by (simp only: power_add) simp
    then have "t div 128 < 2 ^ (63 - (shift + 7))" by (simp add: less_mult_imp_div_less)
    from 1(1) [OF refl refl False this s7, of "pre @ [of_nat (t mod 128) OR 0x80]"
        "tag + t mod 128 * 2 ^ shift"]
    have "read_tag ((pre @ [of_nat (t mod 128) OR 0x80]) @ tag_bytes (t div 128) @ post)
       (length pre + 1) (shift + 7) (tag + t mod 128 * 2 ^ shift) =
       Some (tag + t mod 128 * 2 ^ shift + t div 128 * 2 ^ (shift + 7), length pre + 1 + length (tag_bytes (t div 128)))"
      by simp
    moreover have "t mod 128 * 2 ^ shift + t div 128 * 2 ^ (shift + 7) = t * 2 ^ shift"
    proof -
      have "r * 2 ^ shift + q * 2 ^ (shift + 7) = (q * 128 + r) * 2 ^ shift" for q r :: nat
        by (simp add: power_add distrib_right)
      from this [of "t mod 128" "t div 128"] show ?thesis by (simp only: div_mult_mod_eq)
    qed
    ultimately show ?thesis
      using 1(3) tag_byte(3,4) [OF lt] unfolding tb by (subst read_tag.simps) (simp add: Let_def add.assoc)
  qed
qed

lemma unzigzag_zigzag [simp]: "unzigzag (zigzag delta) = delta"
  by (auto simp: unzigzag_def zigzag_def Let_def)

lemma zigzag_bound: "- (2 ^ 32) < delta \<Longrightarrow> delta < 2 ^ 32 \<Longrightarrow> zigzag delta < 2 ^ 33"
  by (auto simp: zigzag_def)

lemma high_bits:
  fixes x :: u8
  shows "x < 32 \<Longrightarrow> \<not> bit x 5 \<and> \<not> bit x 6 \<and> \<not> bit x 7"
    "x < 16 \<Longrightarrow> \<not> bit x 4 \<and> \<not> bit x 5 \<and> \<not> bit x 6 \<and> \<not> bit x 7"
    "x < 8 \<Longrightarrow> \<not> bit x 3 \<and> \<not> bit x 4 \<and> \<not> bit x 5 \<and> \<not> bit x 6 \<and> \<not> bit x 7"
    "x < 4 \<Longrightarrow> \<not> bit x 2 \<and> \<not> bit x 3 \<and> \<not> bit x 4 \<and> \<not> bit x 5 \<and> \<not> bit x 6 \<and> \<not> bit x 7"
    "x < 2 \<Longrightarrow> \<not> bit x (Suc 0) \<and> \<not> bit x 2 \<and> \<not> bit x 3 \<and> \<not> bit x 4 \<and> \<not> bit x 5 \<and> \<not> bit x 6 \<and> \<not> bit x 7"
  using bit_small [of x _ 5] bit_small [of x _ 4] bit_small [of x _ 3] bit_small [of x _ 2] bit_small [of x _ 1]
  by (fastforce simp: word_less_nat_alt)+

lemma metadata_fields:
  fixes t p q :: u8
  assumes "t < 16" "p < 4" "q < 4"
  shows "(t OR push_bit 4 p OR push_bit 6 q) AND 0x0f = t"
    "drop_bit 4 (t OR push_bit 4 p OR push_bit 6 q) AND 3 = p"
    "drop_bit 6 (t OR push_bit 4 p OR push_bit 6 q) = q"
  using high_bits(2) [OF assms(1)] high_bits(4) [OF assms(2)] high_bits(4) [OF assms(3)]
  by (rule_tac [!] byte_eqI) (simp_all add: bit_simps)

lemma short_fields:
  fixes k t p c :: u8
  assumes "k < 8" "t < 2" "p < 2" "c < 5" "b = push_bit 5 k OR push_bit 4 t OR push_bit 3 p OR c"
  shows "b AND 7 = c" "drop_bit 3 b AND 1 = p" "drop_bit 4 b AND 1 = t" "drop_bit 5 b = k" "b \<noteq> 0xff"
proof -
  have "c < 8" using assms(4) by (simp add: word_less_nat_alt)
  note h = high_bits(3) [OF assms(1)] high_bits(5) [OF assms(2)] high_bits(5) [OF assms(3)] high_bits(3) [OF this]
  show c: "b AND 7 = c" and "drop_bit 3 b AND 1 = p" "drop_bit 4 b AND 1 = t" "drop_bit 5 b = k"
    using h unfolding assms(5) by (rule_tac [!] byte_eqI) (simp_all add: bit_simps)
  show "b \<noteq> 0xff" using c assms(4) by auto
qed

lemma extended_fields:
  fixes k c :: u8
  assumes "k < 32" "c < 8" "b = push_bit 3 k OR c"
  shows "b AND 7 = c" "drop_bit 3 b = k" "b = 0xff \<Longrightarrow> k = 31 \<and> c = 7"
proof -
  note h = high_bits(1) [OF assms(1)] high_bits(3) [OF assms(2)]
  show c: "b AND 7 = c" and k: "drop_bit 3 b = k"
    using h unfolding assms(3) by (rule_tac [!] byte_eqI) (simp_all add: bit_simps)
  show "b = 0xff \<Longrightarrow> k = 31 \<and> c = 7" using c k by auto
qed


section \<open>The decoder follows the encoder\<close>

definition to_record :: "Relocation \<Rightarrow> PspRelocationRecord" where
  "to_record r = \<lparr>offset = roffset r, rtype = reltype r, patch_segment = rpatch r,
     target_segment = rtarget r, reserved = 0\<rparr>"

text \<open>
  The decoder's memory of earlier records is the encoder's, and what is left of the stream
  is what the encoder has still to write.
\<close>

definition in_step :: "Encoder_state \<Rightarrow> Decoder_state \<Rightarrow> bool" where
  "in_step e d \<longleftrightarrow> previous_offsets d = enc_offsets e \<and> has_metadata d = have_metadata e \<and>
     (have_metadata e \<longrightarrow> dtype d = reltype (previous e) \<and> dpatch d = rpatch (previous e) \<and>
        dtarget d = rtarget (previous e))"

definition reads :: "Decoder_state \<Rightarrow> u8 list \<Rightarrow> bool" where
  "reads d rest \<longleftrightarrow> cursor d \<le> length (bytes d) \<and> drop (cursor d) (bytes d) = rest"

lemma reads_Cons:
  assumes "reads d (x # rest)"
  shows "\<not> length (bytes d) \<le> cursor d" "bytes d ! cursor d = x" "reads (d\<lparr>cursor := cursor d + 1\<rparr>) rest"
proof -
  have d: "drop (cursor d) (bytes d) = x # rest" using assms by (simp add: reads_def)
  then show *: "\<not> length (bytes d) \<le> cursor d" by auto
  then show "bytes d ! cursor d = x" using d by (metis Cons_nth_drop_Suc list.inject not_le)
  show "reads (d\<lparr>cursor := cursor d + 1\<rparr>) rest"
    using * d by (simp add: reads_def) (metis drop_Suc tl_drop list.sel(3) drop_Suc_Cons)
qed

lemma reads_append: "reads d (xs @ rest) \<Longrightarrow> reads (d\<lparr>cursor := cursor d + length xs\<rparr>) rest"
proof (induction xs arbitrary: d)
  case (Cons x xs)
  then show ?case using Cons.IH [OF reads_Cons(3)] by fastforce
qed (simp add: reads_def)

lemma reads_prefix: "reads d rest \<Longrightarrow> bytes d = take (cursor d) (bytes d) @ rest \<and> length (take (cursor d) (bytes d)) = cursor d"
  by (simp add: reads_def) (metis append_take_drop_id)

lemma finish_entry_record:
  assumes "in_step e d" "dtype d' = reltype r" "dpatch d' = rpatch r" "dtarget d' = rtarget r"
    "previous_offsets d' = enc_offsets e"
  shows "finish_entry (encode_delta e r, d') =
    Some (to_record r, d'\<lparr>previous_offsets := (enc_offsets e)(rpatch r := roffset r)\<rparr>)"
proof -
  have "uint (roffset r) \<le> 0xffffffff" "0 \<le> uint (roffset r)"
    using unsigned_less [of "roffset r", where 'a = int] by simp_all
  then show ?thesis using assms
    by (simp add: finish_entry_def encode_delta_def to_record_def Let_def)
qed

lemma encode_delta_bounds: "- (2 ^ 32) < encode_delta e r" "encode_delta e r < 2 ^ 32"
proof -
  have "0 \<le> int (unat x)" "int (unat x) < 2 ^ 32" for x :: u32
    using unsigned_less [of x, where 'a = int] by simp_all
  from this [of "roffset r"] this [of "enc_offsets e (rpatch r)"]
  show "- (2 ^ 32) < encode_delta e r" "encode_delta e r < 2 ^ 32"
    unfolding encode_delta_def by linarith+
qed

lemma read_metadata_bytes:
  assumes "reads d (metadata_bytes r @ post)"
  shows "\<exists>d'. read_metadata d = Some d' \<and> reads d' post \<and> bytes d' = bytes d \<and> decoded d' = decoded d \<and>
    previous_offsets d' = previous_offsets d \<and> has_metadata d' \<and>
    dtype d' = reltype r \<and> dpatch d' = rpatch r \<and> dtarget d' = rtarget r"
proof -
  let ?packed = "reltype r OR push_bit 4 (rpatch r) OR push_bit 6 (rtarget r)"
  show ?thesis
  proof (cases "reltype r < 16 \<and> rpatch r < 4 \<and> rtarget r < 4 \<and> ?packed \<noteq> 0xff")
    case True
    then have "reads d (?packed # post)" using assms by (simp add: metadata_bytes_def Let_def)
    then show ?thesis using True metadata_fields [of "reltype r" "rpatch r" "rtarget r"] reads_Cons [of d ?packed post]
      by (auto simp: read_metadata_def Let_def reads_def)
  next
    case False
    then have r: "reads d (0xff # reltype r # rpatch r # rtarget r # post)"
      using assms by (auto simp: metadata_bytes_def Let_def)
    note 1 = reads_Cons [OF r]
    note 2 = reads_Cons [OF 1(3)]
    note 3 = reads_Cons [OF 2(3)]
    note 4 = reads_Cons [OF 3(3)]
    show ?thesis using 1 2 3 4 by (auto simp: read_metadata_def Let_def reads_def numeral_eq_Suc)
  qed
qed

lemma read_long_entry:
  assumes r: "reads d (tag_bytes (zigzag delta * 2 + (if changed then 1 else 0)) @ (if changed then metadata_bytes r else []) @ post)"
    and "- (2 ^ 32) < delta" "delta < 2 ^ 32"
    and same: "\<not> changed \<Longrightarrow> has_metadata d \<and> dtype d = reltype r \<and> dpatch d = rpatch r \<and> dtarget d = rtarget r"
  shows "\<exists>d'. read_long d = Some (delta, d') \<and> reads d' post \<and> bytes d' = bytes d \<and> decoded d' = decoded d \<and>
    previous_offsets d' = previous_offsets d \<and> has_metadata d' \<and>
    dtype d' = reltype r \<and> dpatch d' = rpatch r \<and> dtarget d' = rtarget r"
proof -
  let ?tag = "zigzag delta * 2 + (if changed then 1 else 0)"
  let ?rest = "(if changed then metadata_bytes r else []) @ post"
  have "zigzag delta < 2 ^ 33" by (rule zigzag_bound) fact+
  then have lt: "?tag < 2 ^ (63 - 0)" by simp
  have "read_tag (bytes d) (cursor d) 0 0 = Some (?tag, cursor d + length (tag_bytes ?tag))"
    using reads_prefix [OF r] read_tag_tag_bytes [OF lt, of "take (cursor d) (bytes d)" ?rest 0] by auto
  moreover have d1: "reads (d\<lparr>cursor := cursor d + length (tag_bytes ?tag)\<rparr>) ?rest"
    by (rule reads_append) (use r in simp)
  moreover have "odd ?tag = changed" "?tag div 2 = zigzag delta" by simp_all
  ultimately show ?thesis
    using read_metadata_bytes [of "d\<lparr>cursor := cursor d + length (tag_bytes ?tag)\<rparr>" r post] same
    by (cases changed) (auto simp: read_long_def)
qed

lemma type_code_short: "type_code t \<noteq> 0xff \<Longrightarrow> type_code t < 5 \<and> short_type (type_code t) = t"
  by (auto simp: type_code_def short_type_def split: if_splits)

lemma extended_code_short:
  "extended_short_code t \<noteq> 0xff \<Longrightarrow> extended_short_code t < 8 \<and> \<not> extended_short_code t \<le> 4 \<and> short_type (extended_short_code t) = t"
  by (auto simp: extended_short_code_def short_type_def split: if_splits)

lemma delta_byte:
  assumes "0 \<le> delta" "delta mod 4 = 0" "delta < 4 * n" "n \<le> 256"
  shows "int (unat (of_int (delta div 4) :: u8)) * 4 = delta" "unat (of_int (delta div 4) :: u8) < nat n"
proof -
  have "0 \<le> delta div 4" "delta div 4 < n" using assms by auto
  then have u: "uint (of_int (delta div 4) :: u8) = delta div 4"
    using assms(4) by (simp add: uint_word_of_int_eq take_bit_int_eq_self)
  then show "int (unat (of_int (delta div 4) :: u8)) * 4 = delta" using assms(2) by (simp add: dvd_eq_mod_eq_0 [symmetric])
  show "unat (of_int (delta div 4) :: u8) < nat n" using u \<open>delta div 4 < n\<close> \<open>0 \<le> delta div 4\<close> by (simp flip: nat_uint_eq)
qed

lemma finish_entry_step:
  assumes "in_step e d" "dtype d' = reltype r" "dpatch d' = rpatch r" "dtarget d' = rtarget r"
    "previous_offsets d' = previous_offsets d" "has_metadata d'" "reads d' post" "bytes d' = bytes d" "decoded d' = decoded d"
  shows "\<exists>d''. finish_entry (encode_delta e r, d') = Some (to_record r, d'') \<and> in_step (encode_next e r) d'' \<and>
    reads d'' post \<and> bytes d'' = bytes d \<and> decoded d'' = decoded d"
  using finish_entry_record [OF assms(1-4)] assms by (auto simp: in_step_def encode_next_def reads_def)

lemma short_entry:
  assumes "in_step e d" and r: "reads d (first # post)" and "first \<noteq> 0xff"
    and f: "first AND 7 = code" "short_type code = reltype r"
      "int (unat (drop_bit (if code \<le> 4 then 5 else 3) first)) * 4 = encode_delta e r"
      "rpatch r = (if code \<le> 4 then drop_bit 3 first AND 1 else 0)"
      "rtarget r = (if code \<le> 4 then drop_bit 4 first AND 1 else 0)"
  shows "\<exists>d'. compact_next d = Some (to_record r, d') \<and> in_step (encode_next e r) d' \<and> reads d' post \<and>
    bytes d' = bytes d \<and> decoded d' = decoded d"
proof -
  note c = reads_Cons [OF r]
  let ?d = "d\<lparr>cursor := cursor d + 1\<rparr>"
  obtain d' where d': "read_short ?d first = (encode_delta e r, d')"
     "dtype d' = reltype r" "dpatch d' = rpatch r" "dtarget d' = rtarget r"
    "previous_offsets d' = previous_offsets d" "has_metadata d'" "reads d' post" "bytes d' = bytes d" "decoded d' = decoded d"
    using f c(3) by (cases "code \<le> 4") (simp_all add: read_short_def Let_def reads_def)
  then show ?thesis
    using c(1,2) assms(3) finish_entry_step [OF assms(1) d'(2-)] by (simp add: compact_next_def Let_def)
qed

lemma compact_next_entry:
  assumes "in_step e d" "reads d (encode_entry e r @ post)"
  shows "\<exists>d'. compact_next d = Some (to_record r, d') \<and> in_step (encode_next e r) d' \<and> reads d' post \<and>
    bytes d' = bytes d \<and> decoded d' = decoded d"
proof -
  define delta where "delta = encode_delta e r"
  define k :: u8 where "k = of_int (delta div 4)"
  define code where "code = type_code (reltype r)"
  define ext where "ext = extended_short_code (reltype r)"
  define changed where "changed \<longleftrightarrow> \<not> have_metadata e \<or> reltype r \<noteq> reltype (previous e) \<or>
    rpatch r \<noteq> rpatch (previous e) \<or> rtarget r \<noteq> rtarget (previous e)"
  note defs = delta_def [symmetric] k_def [symmetric] code_def [symmetric] ext_def [symmetric] changed_def [symmetric]
  define can_short where "can_short \<longleftrightarrow> code \<noteq> 0xff \<and> rpatch r < 2 \<and> rtarget r < 2 \<and> 0 \<le> delta \<and>
    delta mod 4 = 0 \<and> delta \<le> 28"
  define can_extend where "can_extend \<longleftrightarrow> ext \<noteq> 0xff \<and> rpatch r = 0 \<and> rtarget r = 0 \<and> 0 \<le> delta \<and>
    delta mod 4 = 0 \<and> delta \<le> 124 \<and> \<not> (ext = 7 \<and> delta = 124)"
  have e: "encode_entry e r =
     (if can_short then [push_bit 5 k OR push_bit 4 (rtarget r) OR push_bit 3 (rpatch r) OR code]
      else if can_extend then [push_bit 3 k OR ext]
      else 0xff # tag_bytes (zigzag delta * 2 + (if changed then 1 else 0)) @
        (if changed then metadata_bytes r else []))"
    unfolding encode_entry_def Let_def defs can_short_def can_extend_def by (rule refl)
  consider (short) "can_short"
      "encode_entry e r = [push_bit 5 k OR push_bit 4 (rtarget r) OR push_bit 3 (rpatch r) OR code]"
    | (extended) "can_extend" "encode_entry e r = [push_bit 3 k OR ext]"
    | (long) "encode_entry e r = 0xff # tag_bytes (zigzag delta * 2 + (if changed then 1 else 0)) @
        (if changed then metadata_bytes r else [])"
    using e by (cases can_short; cases can_extend) simp_all
  then show ?thesis
  proof cases
    case short
    note short = short(1) [unfolded can_short_def, THEN conjunct1] short(1) [unfolded can_short_def] short(2)
    have k: "int (unat k) * 4 = delta" "k < 8"
      using delta_byte [of delta 8] short(2) by (simp_all add: k_def word_less_nat_alt)
    have c: "code < 5" "short_type code = reltype r" using type_code_short [of "reltype r"] short(1) by (simp_all add: code_def)
    then have "code \<le> 4" by (simp add: word_less_nat_alt word_le_nat_alt)
    have "rpatch r < 2" "rtarget r < 2" using short(2) by simp_all
    note f = short_fields [OF k(2) this(2,1) c(1) refl]
    show ?thesis
      using short_entry [OF assms(1) assms(2) [unfolded short(3), simplified] f(5) f(1) c(2)] f k \<open>code \<le> 4\<close>
      by (simp add: delta_def)
  next
    case extended
    note extended = extended(1) [unfolded can_extend_def, THEN conjunct1] extended(1) [unfolded can_extend_def] extended(2)
    have k: "int (unat k) * 4 = delta" "k < 32"
      using delta_byte [of delta 32] extended(2) by (simp_all add: k_def word_less_nat_alt)
    have c: "ext < 8" "\<not> ext \<le> 4" "short_type ext = reltype r"
      using extended_code_short [of "reltype r"] extended(1) by (simp_all add: ext_def)
    note f = extended_fields [OF k(2) c(1) refl]
    have "push_bit 3 k OR ext \<noteq> 0xff" using f(3) extended(2) k(1) by auto
    then show ?thesis
      using short_entry [OF assms(1) assms(2) [unfolded extended(3), simplified] _ f(1) c(3)] f k c(2) extended(2)
      by (simp add: delta_def)
  next
    case long
    note r = assms(2) [unfolded long, simplified append_Cons append_assoc]
    note c = reads_Cons [OF r]
    let ?d = "d\<lparr>cursor := cursor d + 1\<rparr>"
    have "\<not> changed \<Longrightarrow> has_metadata ?d \<and> dtype ?d = reltype r \<and> dpatch ?d = rpatch r \<and> dtarget ?d = rtarget r"
      using assms(1) by (auto simp: in_step_def changed_def)
    from read_long_entry [OF c(3) _ _ this] encode_delta_bounds [of e r]
    obtain d' where "read_long ?d = Some (delta, d')" "reads d' post" "bytes d' = bytes d" "decoded d' = decoded d"
      "previous_offsets d' = previous_offsets d" "has_metadata d'" "dtype d' = reltype r" "dpatch d' = rpatch r" "dtarget d' = rtarget r"
      unfolding delta_def by auto
    then show ?thesis using finish_entry_step [OF assms(1), of d' r post] c(1,2)
      by (simp add: compact_next_def Let_def delta_def)
  qed
qed


section \<open>The decoder is a source of the encoded records\<close>

definition decodes :: "nat \<Rightarrow> Decoder_state \<Rightarrow> PspRelocationRecord list \<Rightarrow> bool" where
  "decodes n d records \<longleftrightarrow> (\<exists>e rs. records = map to_record rs \<and> in_step e d \<and>
     reads d (encode_all e rs) \<and> decoded d + length rs = n)"

lemma decodes_Cons:
  assumes "decodes n d (r # rs)"
  shows "\<exists>d'. counted_next d = Some (r, d') \<and> decodes n d' rs"
proof -
  obtain e q qs where q: "r = to_record q" "rs = map to_record qs" "in_step e d"
    "reads d (encode_entry e q @ encode_all (encode_next e q) qs)" "decoded d + Suc (length qs) = n"
    using assms by (auto simp: decodes_def Cons_eq_map_conv)
  obtain d' where d': "compact_next d = Some (to_record q, d')" "in_step (encode_next e q) d'"
    "reads d' (encode_all (encode_next e q) qs)" "decoded d' = decoded d"
    using compact_next_entry [OF q(3,4)] by auto
  then have "decodes n (note_decoded d') rs"
    unfolding decodes_def using q(2,5)
    by (intro exI [of _ "encode_next e q"] exI [of _ qs]) (auto simp: in_step_def reads_def note_decoded_def)
  then show ?thesis using d'(1) q(1) by (simp add: counted_next_def)
qed

interpretation compact: relocation_source counted_next "consumed n" "decodes n"
proof
  show "decodes n d (r # rs) \<Longrightarrow> \<exists>d'. counted_next d = Some (r, d') \<and> decodes n d' rs" for d r rs
    by (rule decodes_Cons)
  show "decodes n d [] \<Longrightarrow> consumed n d" for d
    by (auto simp: decodes_def consumed_def reads_def)
qed

lemma decodes_initial: "decodes (length rs) (initial_decoder (compact_relocations rs)) (map to_record rs)"
  unfolding decodes_def
  by (intro exI [of _ initial_encoder] exI [of _ rs])
    (simp add: in_step_def initial_encoder_def initial_decoder_def reads_def compact_relocations_def)

text \<open>
  C11. The compact stream is a faithful stand-in for the records. For every list of relocations,
  applying the stream the emitter encodes does to any memory exactly what applying the
  records does: the same bytes change and the same result is returned, success or the same
  error at the same record.
\<close>

theorem compact_relocation_equivalent:
  "apply_compact_psp_relocations (Some mem) guest_base (Some segments) (Some (compact_relocations rs)) (length rs) =
   apply_psp_relocations (Some mem) guest_base (Some segments) (Some (map to_record rs)) (length rs)"
proof -
  have "apply_psp_relocations (Some mem) guest_base (Some segments) (Some (map to_record rs)) (length rs) =
      apfst Some (apply_list guest_base segments (map to_record rs) mem)"
    using apply_psp_relocations_list [of mem guest_base segments "map to_record rs"] by simp
  then show ?thesis
    using compact.apply_yields [OF decodes_initial] by (simp add: apply_compact_psp_relocations_def)
qed

fun next_records :: "nat \<Rightarrow> Decoder_state \<Rightarrow> (PspRelocationRecord list \<times> Decoder_state) option" where
  "next_records 0 d = Some ([], d)"
| "next_records (Suc n) d =
     (case counted_next d of
        None \<Rightarrow> None
      | Some (r, d') \<Rightarrow> map_option (apfst (Cons r)) (next_records n d'))"

lemma next_records_decodes:
  "decodes n d rs \<Longrightarrow> \<exists>d'. next_records (length rs) d = Some (rs, d') \<and> consumed n d'"
proof (induction rs arbitrary: d)
  case Nil then show ?case using compact.yields_Nil by simp
next
  case (Cons r rs)
  then obtain d' where "counted_next d = Some (r, d')" "decodes n d' rs" using decodes_Cons by blast
  then show ?case using Cons.IH [of d'] by auto
qed

text \<open>
  C28. Encoding and decoding are inverse. Calling the decoder once per record on the encoder's
  output yields the records in order, and the stream is then consumed to its last byte.
\<close>

theorem compact_relocation_roundtrip:
  "\<exists>d. next_records (length rs) (initial_decoder (compact_relocations rs)) = Some (map to_record rs, d) \<and>
       consumed (length rs) d"
  using next_records_decodes [OF decodes_initial [of rs]] by simp

section \<open>Arbitrary streams\<close>

lemma read_tag_cursor: "read_tag bs c shift tag = Some (t, c') \<Longrightarrow> c < c' \<and> c' \<le> length bs"
proof (induction bs c shift tag rule: read_tag.induct)
  case (1 bs c shift tag)
  let ?tag = "tag + unat (bs ! c AND 0x7f) * 2 ^ shift"
  have ih: "read_tag bs (c + 1) (shift + 7) ?tag = Some (t, c') \<Longrightarrow> c + 1 < c' \<and> c' \<le> length bs"
    if "\<not> (length bs \<le> c \<or> 63 \<le> shift)" "bs ! c AND 0x80 \<noteq> 0"
    using 1(1) [OF that(1) refl refl that(2)] by simp
  show ?case using 1(2) ih by (subst (asm) read_tag.simps) (auto simp: Let_def split: if_splits)
qed

lemma read_metadata_cursor:
  "read_metadata d = Some d' \<Longrightarrow> bytes d' = bytes d \<and> cursor d < cursor d' \<and> cursor d' \<le> length (bytes d)"
  by (auto simp: read_metadata_def Let_def split: if_splits)

lemma read_long_cursor:
  "read_long d = Some (x, d') \<Longrightarrow> bytes d' = bytes d \<and> cursor d < cursor d' \<and> cursor d' \<le> length (bytes d)"
  by (fastforce simp: read_long_def split: option.splits if_splits prod.splits
      dest!: read_tag_cursor read_metadata_cursor)

lemma finish_entry_cursor:
  "finish_entry (x, d) = Some (r, d') \<Longrightarrow> bytes d' = bytes d \<and> cursor d' = cursor d"
  by (auto simp: finish_entry_def Let_def split: if_splits)

text \<open>
  No stream makes the decoder read past its end, and every call that succeeds consumes at
  least one byte, so decoding terminates whatever the bytes are.
\<close>

theorem compact_next_in_bounds:
  assumes "compact_next d = Some (r, d')"
  shows "bytes d' = bytes d \<and> cursor d < cursor d' \<and> cursor d' \<le> length (bytes d)"
  using assms
  by (fastforce simp: compact_next_def read_short_def Let_def split: if_splits option.splits
      dest!: finish_entry_cursor read_long_cursor)

lemma compact_next_in_bounds_witness:
  "cursor (snd (the (compact_next (initial_decoder [0x21, 0x00])))) \<le> 2"
  using compact_next_in_bounds [of "initial_decoder [0x21, 0x00]"]
  by (simp add: compact_next_def initial_decoder_def read_short_def finish_entry_def Let_def)

end
