(* ===== verification/Ge_Command.thy ===== *)
theory Ge_Command
  imports Prelude
begin

text \<open>
  The instruction format of GE display lists, \<open>refract/src/ge/ge_command.hpp\<close> and the
  decoder of \<open>refract/src/ge/ge_interpreter.hpp\<close>. An instruction word is an opcode in the top
  byte and a 24-bit argument; \<open>command_metadata\<close> gives an opcode its name and says how it
  affects the flow of the list. The enumeration \<open>Command\<close> has \<open>std::uint8_t\<close> underneath and
  the code casts any opcode to it, so a command is its byte here.
\<close>

datatype CommandFlow =
    Flow_linear | Flow_draw | Flow_jump | Flow_call | Flow_ret | Flow_signal | Flow_finish
  | Flow_end | Flow_transfer

record CommandMetadata =
  meta_command :: u8
  meta_name :: string
  meta_flow :: CommandFlow

text \<open>The cases of the switch that return, with the value of their enumerator.\<close>

definition named_commands :: "(u8 \<times> string \<times> CommandFlow) list" where
  "named_commands =
    [(0x00, ''NOP'', Flow_linear), (0x01, ''VADDR'', Flow_linear),
     (0x02, ''IADDR'', Flow_linear), (0x04, ''PRIM'', Flow_draw),
     (0x05, ''BEZIER'', Flow_draw), (0x06, ''SPLINE'', Flow_draw),
     (0x07, ''BOUNDINGBOX'', Flow_draw), (0x08, ''JUMP'', Flow_jump),
     (0x09, ''BJUMP'', Flow_jump), (0x0a, ''CALL'', Flow_call),
     (0x0b, ''RET'', Flow_ret), (0x0c, ''END'', Flow_end),
     (0x0e, ''SIGNAL'', Flow_signal), (0x0f, ''FINISH'', Flow_finish),
     (0x10, ''BASE'', Flow_linear), (0x12, ''VTYPE'', Flow_linear),
     (0x13, ''OFFSETADDR'', Flow_linear), (0x14, ''ORIGIN'', Flow_linear),
     (0x2a, ''BONEMATRIXNUMBER'', Flow_linear), (0x2b, ''BONEMATRIXDATA'', Flow_linear),
     (0x3a, ''WORLDMATRIXNUMBER'', Flow_linear), (0x3b, ''WORLDMATRIXDATA'', Flow_linear),
     (0x3c, ''VIEWMATRIXNUMBER'', Flow_linear), (0x3d, ''VIEWMATRIXDATA'', Flow_linear),
     (0x3e, ''PROJMATRIXNUMBER'', Flow_linear), (0x3f, ''PROJMATRIXDATA'', Flow_linear),
     (0x40, ''TGENMATRIXNUMBER'', Flow_linear), (0x41, ''TGENMATRIXDATA'', Flow_linear),
     (0x9c, ''FRAMEBUFPTR'', Flow_linear), (0x9d, ''FRAMEBUFWIDTH'', Flow_linear),
     (0x9e, ''ZBUFPTR'', Flow_linear), (0x9f, ''ZBUFWIDTH'', Flow_linear),
     (0xb0, ''CLUTADDR'', Flow_linear), (0xb1, ''CLUTADDRUPPER'', Flow_linear),
     (0xc2, ''TEXMODE'', Flow_linear), (0xc3, ''TEXFORMAT'', Flow_linear),
     (0xc4, ''LOADCLUT'', Flow_transfer), (0xc5, ''CLUTFORMAT'', Flow_linear),
     (0xc6, ''TEXFILTER'', Flow_linear), (0xc7, ''TEXWRAP'', Flow_linear),
     (0xc8, ''TEXLEVEL'', Flow_linear), (0xc9, ''TEXFUNC'', Flow_linear),
     (0xd2, ''FRAMEBUFPIXFORMAT'', Flow_linear), (0xd3, ''CLEARMODE'', Flow_linear),
     (0xdc, ''STENCILTEST'', Flow_linear), (0xdd, ''STENCILOP'', Flow_linear),
     (0xe8, ''MASKRGB'', Flow_linear), (0xe9, ''MASKALPHA'', Flow_linear),
     (0xea, ''TRANSFERSTART'', Flow_transfer)]"

definition command_metadata :: "u8 \<Rightarrow> CommandMetadata" where
  "command_metadata op =
     (if 0xa0 \<le> op \<and> op \<le> 0xa7
      then \<lparr>meta_command = op, meta_name = ''TEXADDR'', meta_flow = Flow_linear\<rparr>
      else if 0xa8 \<le> op \<and> op \<le> 0xaf
      then \<lparr>meta_command = op, meta_name = ''TEXBUFWIDTH'', meta_flow = Flow_linear\<rparr>
      else if 0xb8 \<le> op \<and> op \<le> 0xbf
      then \<lparr>meta_command = op, meta_name = ''TEXSIZE'', meta_flow = Flow_linear\<rparr>
      else case map_of named_commands op of
        Some (text, flow) \<Rightarrow> \<lparr>meta_command = op, meta_name = text, meta_flow = flow\<rparr>
      | None \<Rightarrow> \<lparr>meta_command = op, meta_name = ''unknown'', meta_flow = Flow_linear\<rparr>)"

definition opcode :: "u32 \<Rightarrow> u8" where
  "opcode instruction = ucast (drop_bit 24 instruction)"

definition argument :: "u32 \<Rightarrow> u32" where
  "argument instruction = instruction AND 0x00ffffff"

record DecodedCommand =
  cmd_program_counter :: u32
  cmd_instruction :: u32
  cmd_opcode :: u8
  cmd_argument :: u32
  cmd_metadata :: CommandMetadata

definition decode_command :: "u32 \<Rightarrow> u32 \<Rightarrow> DecodedCommand" where
  "decode_command program_counter instruction =
     \<lparr>cmd_program_counter = program_counter, cmd_instruction = instruction,
      cmd_opcode = opcode instruction, cmd_argument = argument instruction,
      cmd_metadata = command_metadata (opcode instruction)\<rparr>"

lemma decode_command_simps [simp]:
  "cmd_opcode (decode_command p i) = opcode i"
  "cmd_argument (decode_command p i) = argument i"
  "cmd_instruction (decode_command p i) = i"
  by (simp_all add: decode_command_def)

end
