(* ===== verification/Ge_Trace.thy ===== *)
theory Ge_Trace
  imports Ge_Command
begin

text \<open>
  The recorder of GE commands and its file format, \<open>refract/src/ge/ge_trace.hpp\<close>. A trace is
  a flag and a list of records; \<open>serialize\<close> writes a 12-byte header and 12 bytes per record,
  \<open>deserialize\<close> accepts exactly the byte strings \<open>serialize\<close> produces
  (\<open>trace_format_exact\<close>). Arrays of 256 counters indexed by an opcode are lists of length 256.
\<close>

section \<open>Traces\<close>

definition trace_magic :: u32 where "trace_magic = 0x52544750"
definition trace_version :: u16 where "trace_version = 1"

record TraceRecord =
  trace_list_id :: u32
  trace_program_counter :: u32
  trace_instruction :: u32

record Trace =
  enabled :: bool
  records :: "TraceRecord list"

definition initial_trace :: Trace where
  "initial_trace = \<lparr>enabled = False, records = []\<rparr>"

definition set_enabled :: "bool \<Rightarrow> Trace \<Rightarrow> Trace" where
  "set_enabled b t = t\<lparr>enabled := b\<rparr>"

definition clear_trace :: "Trace \<Rightarrow> Trace" where
  "clear_trace t = t\<lparr>records := []\<rparr>"

definition record_command :: "u32 \<Rightarrow> u32 \<Rightarrow> u32 \<Rightarrow> Trace \<Rightarrow> Trace" where
  "record_command list_id program_counter instruction t =
     (if enabled t
      then t\<lparr>records := records t @
               [\<lparr>trace_list_id = list_id, trace_program_counter = program_counter,
                 trace_instruction = instruction\<rparr>]\<rparr>
      else t)"

section \<open>Replay\<close>

definition replay :: "(TraceRecord \<Rightarrow> 'a \<Rightarrow> 'a) \<Rightarrow> Trace \<Rightarrow> 'a \<Rightarrow> 'a" where
  "replay consumer t = fold consumer (records t)"

definition command_coverage :: "Trace \<Rightarrow> u32 list" where
  "command_coverage t =
     fold (\<lambda>r result. let k = unat (opcode (trace_instruction r)) in result[k := result ! k + 1])
       (records t) (replicate 256 0)"

definition replayed_command_state :: "Trace \<Rightarrow> u32 list" where
  "replayed_command_state t =
     replay (\<lambda>r result. result[unat (opcode (trace_instruction r)) := trace_instruction r])
       t (replicate 256 0)"

section \<open>The file format\<close>

definition record_bytes :: "TraceRecord \<Rightarrow> u8 list" where
  "record_bytes r =
     bytes32 (trace_list_id r) @ bytes32 (trace_program_counter r) @ bytes32 (trace_instruction r)"

definition serialize :: "Trace \<Rightarrow> u8 list" where
  "serialize t =
     bytes32 trace_magic @ bytes16 trace_version @ bytes16 12 @
     bytes32 (of_nat (length (records t))) @ concat (map record_bytes (records t))"

definition input_u16 :: "u8 list \<Rightarrow> nat \<Rightarrow> u16" where
  "input_u16 input i = word16_of (slice_bytes input i 2)"

definition input_u32 :: "u8 list \<Rightarrow> nat \<Rightarrow> u32" where
  "input_u32 input i = word32_of (slice_bytes input i 4)"

definition record_at :: "u8 list \<Rightarrow> nat \<Rightarrow> TraceRecord" where
  "record_at input i =
     \<lparr>trace_list_id = input_u32 input i, trace_program_counter = input_u32 input (i + 4),
      trace_instruction = input_u32 input (i + 8)\<rparr>"

definition deserialize :: "u8 list \<Rightarrow> Trace \<Rightarrow> bool \<times> Trace" where
  "deserialize input output =
     (if length input < 12 then (False, output)
      else let magic = input_u32 input 0; version = input_u16 input 4;
               record_size = input_u16 input 6; count = unat (input_u32 input 8) in
        if magic \<noteq> trace_magic \<or> version \<noteq> trace_version \<or> record_size \<noteq> 12 \<or>
           count > (length input - 12) div 12 \<or> 12 + count * 12 \<noteq> length input
        then (False, output)
        else (True, output\<lparr>records := map (\<lambda>i. record_at input (12 + i * 12)) [0..<count]\<rparr>))"

section \<open>The format is exact\<close>

lemma slice_append_slice:
  "slice_bytes b i m @ slice_bytes b (i + m) n = slice_bytes b i (m + n)"
  by (simp add: slice_bytes_def take_add add.commute)

lemma record_bytes_record_at:
  assumes "i + 12 \<le> length b"
  shows "record_bytes (record_at b i) = slice_bytes b i 12"
proof -
  have "record_bytes (record_at b i) = slice_bytes b i 4 @ slice_bytes b (i + 4) 4 @ slice_bytes b (i + 8) 4"
    using assms by (simp add: record_bytes_def record_at_def input_u32_def bytes32_word32_of)
  also have "\<dots> = slice_bytes b i 12"
    using slice_append_slice [of b i 4 4] slice_append_slice [of b i 8 4]
    by (simp flip: append_assoc)
  finally show ?thesis .
qed

lemma record_at_slice:
  assumes "slice_bytes b i 12 = record_bytes r"
  shows "record_at b i = r"
proof -
  have "slice_bytes b (i + k) 4 = take 4 (drop k (slice_bytes b i 12))" if "k + 4 \<le> 12" for k
    using that by (simp add: slice_bytes_def drop_take add.commute min_def)
  from this [of 0] this [of 4] this [of 8] show ?thesis
    by (simp add: record_at_def input_u32_def assms record_bytes_def)
qed

lemma length_record_bytes [simp]: "length (record_bytes r) = 12"
  by (simp add: record_bytes_def)

lemma length_concat_records [simp]: "length (concat (map record_bytes rs)) = 12 * length rs"
  by (induction rs) simp_all

lemma slice_concat_records:
  "i < length rs \<Longrightarrow> slice_bytes (concat (map record_bytes rs)) (i * 12) 12 = record_bytes (rs ! i)"
proof (induction rs arbitrary: i)
  case (Cons r rs)
  then show ?case by (cases i) (simp_all add: slice_bytes_def)
qed simp

lemma concat_slices:
  "length c = n * 12 \<Longrightarrow> concat (map (\<lambda>i. slice_bytes c (i * 12) 12) [0..<n]) = c"
proof (induction n arbitrary: c)
  case (Suc n)
  have "concat (map (\<lambda>i. slice_bytes c (i * 12) 12) [0..<Suc n]) =
      take 12 c @ concat (map (\<lambda>i. slice_bytes (drop 12 c) (i * 12) 12) [0..<n])"
    by (simp add: upt_conv_Cons map_Suc_upt [symmetric] slice_bytes_def comp_def add.commute
        del: upt_Suc)
  also have "\<dots> = take 12 c @ drop 12 c"
    using Suc.prems by (subst Suc.IH) simp_all
  finally show ?case by simp
qed simp

lemma serialize_header:
  "serialize t =
     (bytes32 trace_magic @ bytes16 trace_version @ bytes16 12 @ bytes32 (of_nat (length (records t)))) @
     concat (map record_bytes (records t))"
  by (simp add: serialize_def)

lemma header_fields:
  assumes "b = (bytes32 m @ bytes16 v @ bytes16 z @ bytes32 n) @ c"
  shows "input_u32 b 0 = m" "input_u16 b 4 = v" "input_u16 b 6 = z" "input_u32 b 8 = n"
  unfolding assms by (simp_all add: input_u32_def input_u16_def slice_bytes_def)

lemma header_bytes:
  assumes "12 \<le> length b"
  shows "b = (bytes32 (input_u32 b 0) @ bytes16 (input_u16 b 4) @ bytes16 (input_u16 b 6) @
              bytes32 (input_u32 b 8)) @ drop 12 b"
proof -
  have "bytes32 (input_u32 b 0) @ bytes16 (input_u16 b 4) @ bytes16 (input_u16 b 6) @ bytes32 (input_u32 b 8)
      = slice_bytes b 0 4 @ slice_bytes b 4 2 @ slice_bytes b 6 2 @ slice_bytes b 8 4"
    using assms by (simp add: input_u32_def input_u16_def bytes32_word32_of bytes16_word16_of)
  also have "\<dots> = slice_bytes b 0 12"
    using slice_append_slice [of b 0 4 2] slice_append_slice [of b 0 6 2] slice_append_slice [of b 0 8 4]
    by (simp flip: append_assoc)
  also have "\<dots> = take 12 b" by (simp add: slice_bytes_def)
  finally show ?thesis by simp
qed

lemma deserialize_serialize:
  assumes "length (records t) < 2 ^ 32"
  shows "deserialize (serialize t) u = (True, u\<lparr>records := records t\<rparr>)"
proof -
  have count: "unat (of_nat (length (records t)) :: u32) = length (records t)"
    using assms by (simp add: unsigned_of_nat take_bit_nat_eq_self)
  have len: "length (serialize t) = 12 + length (records t) * 12"
    by (simp add: serialize_def)
  have "record_at (serialize t) (12 + i * 12) = records t ! i" if "i < length (records t)" for i
  proof (rule record_at_slice)
    have "slice_bytes (serialize t) (12 + i * 12) 12 =
        slice_bytes (concat (map record_bytes (records t))) (i * 12) 12"
      unfolding serialize_header by (simp add: slice_bytes_def)
    then show "slice_bytes (serialize t) (12 + i * 12) 12 = record_bytes (records t ! i)"
      using that by (simp add: slice_concat_records)
  qed
  then have "map (\<lambda>i. record_at (serialize t) (12 + i * 12)) [0..<length (records t)] = records t"
    by (intro nth_equalityI) simp_all
  then show ?thesis
    by (simp add: deserialize_def header_fields [OF serialize_header] len count)
qed

lemma deserialize_accepts:
  assumes "deserialize b u = (True, t)"
  shows "length (records t) < 2 ^ 32 \<and> b = serialize t \<and> t = u\<lparr>records := records t\<rparr>"
proof -
  define n where "n = unat (input_u32 b 8)"
  have ok: "12 \<le> length b" "input_u32 b 0 = trace_magic" "input_u16 b 4 = trace_version"
      "input_u16 b 6 = 12" "length b = 12 + n * 12"
      "t = u\<lparr>records := map (\<lambda>i. record_at b (12 + i * 12)) [0..<n]\<rparr>"
    using assms by (auto simp: deserialize_def Let_def n_def split: if_splits)
  have n: "n < 2 ^ 32" "of_nat n = input_u32 b 8"
    using unsigned_less [of "input_u32 b 8", where 'a = nat] by (simp_all add: n_def)
  have "map record_bytes (records t) = map (\<lambda>i. slice_bytes (drop 12 b) (i * 12) 12) [0..<n]"
    using ok(5) by (simp add: ok(6) record_bytes_record_at slice_bytes_def add.commute)
  then have "concat (map record_bytes (records t)) = drop 12 b"
    using ok(5) by (simp add: concat_slices)
  then have "serialize t = b"
    unfolding serialize_header
    using header_bytes [OF ok(1)] ok n(2) by simp
  then show ?thesis using n(1) ok(6) by simp
qed

text \<open>
  C29. The trace format is exact. \<open>deserialize\<close> accepts a byte string exactly when it is what
  \<open>serialize\<close> writes for a trace of fewer than 2^32 records, and then yields those records,
  leaving the recording flag of the output alone; every other byte string (short, with a
  wrong magic, version or record size, truncated, or with bytes left over) is rejected.
\<close>

theorem trace_format_exact:
  "deserialize b u = (True, t) \<longleftrightarrow>
     length (records t) < 2 ^ 32 \<and> b = serialize t \<and> t = u\<lparr>records := records t\<rparr>"
  using deserialize_accepts [of b u t] deserialize_serialize [of t u] by auto

end
