(* ===== verification/Ge_State.thy ===== *)
theory Ge_State
  imports Ge_Trace
begin

text \<open>
  The registers of the graphics engine, \<open>refract/src/ge/ge_state.hpp\<close>, and the front door of
  the command interpreter, \<open>refract/src/ge/ge_interpreter.hpp\<close>. Arrays of fixed size are lists
  (\<open>wf_ge\<close> states their lengths); floats are their bit patterns. The mutex and the cache of
  decoded textures (cleared by \<open>reset\<close> and \<open>restore\<close>, filled only by the renderer) are not
  part of the model.
\<close>

section \<open>State\<close>

record Ge_State =
  commands :: "u32 list"
  vertex_address :: u32
  index_address :: u32
  offset_address :: u32
  world_matrix :: "u32 list"
  view_matrix :: "u32 list"
  projection_matrix :: "u32 list"
  texture_matrix :: "u32 list"
  bone_matrices :: "u32 list"
  clut :: "u8 list"
  world_matrix_index :: u32
  view_matrix_index :: u32
  projection_matrix_index :: u32
  texture_matrix_index :: u32
  bone_matrix_index :: u32
  address_translation_width :: u32
  texture_generation :: u64
  trace :: Trace

definition context_word_count :: nat where "context_word_count = 512"

definition ge_reset :: "Ge_State \<Rightarrow> Ge_State" where
  "ge_reset g = g\<lparr>
     commands := replicate 256 0, vertex_address := 0, index_address := 0, offset_address := 0,
     world_matrix := replicate 12 0, view_matrix := replicate 12 0,
     projection_matrix := replicate 16 0, texture_matrix := replicate 12 0,
     bone_matrices := replicate 96 0, clut := replicate 1024 0,
     world_matrix_index := 0, view_matrix_index := 0, projection_matrix_index := 0,
     texture_matrix_index := 0, bone_matrix_index := 0, address_translation_width := 0,
     texture_generation := 0, trace := clear_trace (trace g)\<rparr>"

definition initial_ge :: Ge_State where
  "initial_ge = \<lparr>
     commands = replicate 256 0, vertex_address = 0, index_address = 0, offset_address = 0,
     world_matrix = replicate 12 0, view_matrix = replicate 12 0,
     projection_matrix = replicate 16 0, texture_matrix = replicate 12 0,
     bone_matrices = replicate 96 0, clut = replicate 1024 0,
     world_matrix_index = 0, view_matrix_index = 0, projection_matrix_index = 0,
     texture_matrix_index = 0, bone_matrix_index = 0, address_translation_width = 0,
     texture_generation = 0, trace = initial_trace\<rparr>"

definition wf_ge :: "Ge_State \<Rightarrow> bool" where
  "wf_ge g \<longleftrightarrow>
     length (commands g) = 256 \<and> length (world_matrix g) = 12 \<and> length (view_matrix g) = 12 \<and>
     length (projection_matrix g) = 16 \<and> length (texture_matrix g) = 12 \<and>
     length (bone_matrices g) = 96 \<and> length (clut g) = 1024"

section \<open>Reading a register back\<close>

definition read_command :: "Ge_State \<Rightarrow> u32 \<Rightarrow> u32" where
  "read_command g command =
     (if unat command \<ge> length (commands g) then 0
      else let v = commands g ! unat command in
        if command \<in> {0x2b, 0x3b, 0x3d, 0x3f} then v AND 0xff000000
        else if command = 0x41 then v AND 0xff000000
        else if command = 0x2a then v AND 0xff00007f
        else if command \<in> {0x3a, 0x3c, 0x3e} then v AND 0xff00000f
        else if command = 0x40 then v AND 0xff00000f
        else v)"

section \<open>Saving and restoring the context\<close>

definition context_words :: "Ge_State \<Rightarrow> u32 list" where
  "context_words g =
     commands g @ world_matrix g @ view_matrix g @ projection_matrix g @ texture_matrix g @
     bone_matrices g @
     [vertex_address g, index_address g, offset_address g, world_matrix_index g,
      view_matrix_index g, projection_matrix_index g, texture_matrix_index g,
      bone_matrix_index g, address_translation_width g]"

definition save_context :: "Ge_State \<Rightarrow> u32 list" where
  "save_context g =
     context_words g @ replicate (context_word_count - length (context_words g)) 0"

text \<open>The cursor over the saved words: take \<open>n\<close> of them and move on.\<close>

definition restore_context :: "u32 list \<Rightarrow> Ge_State \<Rightarrow> Ge_State" where
  "restore_context input g =
     (let cursor = drop (length (commands g)) input;
          cursor1 = drop (length (world_matrix g)) cursor;
          cursor2 = drop (length (view_matrix g)) cursor1;
          cursor3 = drop (length (projection_matrix g)) cursor2;
          cursor4 = drop (length (texture_matrix g)) cursor3;
          rest = drop (length (bone_matrices g)) cursor4 in
      g\<lparr>commands := take (length (commands g)) input,
        world_matrix := take (length (world_matrix g)) cursor,
        view_matrix := take (length (view_matrix g)) cursor1,
        projection_matrix := take (length (projection_matrix g)) cursor2,
        texture_matrix := take (length (texture_matrix g)) cursor3,
        bone_matrices := take (length (bone_matrices g)) cursor4,
        vertex_address := rest ! 0, index_address := rest ! 1, offset_address := rest ! 2,
        world_matrix_index := rest ! 3, view_matrix_index := rest ! 4,
        projection_matrix_index := rest ! 5, texture_matrix_index := rest ! 6,
        bone_matrix_index := rest ! 7, address_translation_width := rest ! 8,
        texture_generation := texture_generation g + 1\<rparr>)"

section \<open>Accepting a command\<close>

definition accept :: "Ge_State \<Rightarrow> u32 \<Rightarrow> u32 \<Rightarrow> u32 \<Rightarrow> DecodedCommand \<times> Ge_State" where
  "accept g list_id program_counter instruction =
     (let decoded = decode_command program_counter instruction in
      (decoded,
       g\<lparr>commands := (commands g)[unat (cmd_opcode decoded) := instruction],
         trace := record_command list_id program_counter instruction (trace g)\<rparr>))"

section \<open>Lemmas\<close>

lemma wf_initial_ge [simp]: "wf_ge initial_ge"
  by (simp add: wf_ge_def initial_ge_def)

lemma wf_ge_reset [simp]: "wf_ge (ge_reset g)"
  by (simp add: wf_ge_def ge_reset_def)

lemma unat_opcode [simp]: "unat (opcode i) < 256"
  using unsigned_less [of "opcode i", where 'a = nat] by simp

lemma accept_simps [simp]:
  "fst (accept g l p i) = decode_command p i"
  "commands (snd (accept g l p i)) = (commands g)[unat (opcode i) := i]"
  "trace (snd (accept g l p i)) = record_command l p i (trace g)"
  "wf_ge (snd (accept g l p i)) = wf_ge g"
  by (simp_all add: accept_def wf_ge_def Let_def)

lemma length_context_words: "wf_ge g \<Longrightarrow> length (context_words g) = 413"
  by (simp add: wf_ge_def context_words_def)

lemma restore_save:
  assumes "wf_ge g" "wf_ge h"
  shows "restore_context (save_context g) h =
     g\<lparr>clut := clut h, texture_generation := texture_generation h + 1, trace := trace h\<rparr>"
  using assms
  by (simp add: restore_context_def save_context_def context_words_def wf_ge_def Let_def)

text \<open>
  Saving and restoring the context. A context is 512 words. Restoring it in any state
  brings back every register and matrix of the state it was saved from; the palette and
  the trace stay what they are, and the texture generation advances so that no decoded
  texture of before is reused.
\<close>

theorem context_roundtrip:
  assumes "wf_ge g" "wf_ge h"
  shows "length (save_context g) = 512 \<and>
         restore_context (save_context g) h =
           g\<lparr>clut := clut h, texture_generation := texture_generation h + 1, trace := trace h\<rparr>"
  using assms restore_save [OF assms] length_context_words [OF assms(1)]
  by (simp add: save_context_def context_word_count_def)

lemma context_roundtrip_witness:
  "world_matrix_index (restore_context (save_context (initial_ge\<lparr>world_matrix_index := 7\<rparr>)) initial_ge) = 7"
proof -
  have "wf_ge (initial_ge\<lparr>world_matrix_index := 7\<rparr>)" by (simp add: wf_ge_def initial_ge_def)
  from context_roundtrip [OF this wf_initial_ge] show ?thesis by simp
qed

text \<open>A list of instructions with their list and address, fed through the front door.\<close>

definition accept_all :: "(u32 \<times> u32 \<times> u32) list \<Rightarrow> Ge_State \<Rightarrow> Ge_State" where
  "accept_all = fold (\<lambda>(l, p, i) g. snd (accept g l p i))"

lemma replayed_snoc:
  "enabled t \<Longrightarrow> replayed_command_state (record_command l p i t) =
     (replayed_command_state t)[unat (opcode i) := i]"
  by (simp add: replayed_command_state_def replay_def record_command_def)

lemma record_command_enabled [simp]: "enabled (record_command l p i t) = enabled t"
  by (simp add: record_command_def)

lemma accept_all_replay:
  "enabled (trace g) \<Longrightarrow> commands g = replayed_command_state (trace g) \<Longrightarrow>
   commands (accept_all is g) = replayed_command_state (trace (accept_all is g))"
proof (induction "is" arbitrary: g)
  case (Cons x xs)
  obtain l p i where x: "x = (l, p, i)" by (cases x)
  have "commands (accept_all xs (snd (accept g l p i))) =
      replayed_command_state (trace (accept_all xs (snd (accept g l p i))))"
    using Cons.prems by (intro Cons.IH) (simp_all add: replayed_snoc)
  then show ?case by (simp add: accept_all_def x)
qed (simp add: accept_all_def)

lemma coverage_snoc:
  "enabled t \<Longrightarrow> command_coverage (record_command l p i t) =
     (let c = command_coverage t; k = unat (opcode i) in c[k := c ! k + 1])"
  by (simp add: command_coverage_def record_command_def Let_def)

lemma length_count_fold:
  "length (fold (\<lambda>r result. let k = f r in result[k := result ! k + 1]) rs xs) = length xs"
  by (induction rs arbitrary: xs) (simp_all add: Let_def)

lemma length_command_coverage [simp]: "length (command_coverage t) = 256"
  unfolding command_coverage_def by (subst length_count_fold) simp

lemma accept_all_coverage:
  assumes "enabled (trace g)" "k < 256"
  shows "command_coverage (trace (accept_all is g)) ! k =
     command_coverage (trace g) ! k + of_nat (count_list (map (\<lambda>(l, p, i). unat (opcode i)) is) k)"
  using assms(1)
proof (induction "is" arbitrary: g)
  case (Cons x xs)
  obtain l p i where x: "x = (l, p, i)" by (cases x)
  have "command_coverage (trace (accept_all xs (snd (accept g l p i)))) ! k =
      command_coverage (record_command l p i (trace g)) ! k +
      of_nat (count_list (map (\<lambda>(l, p, i). unat (opcode i)) xs) k)"
    using Cons.prems by (subst Cons.IH) simp_all
  then show ?case
    using Cons.prems assms(2) by (simp add: accept_all_def x coverage_snoc Let_def nth_list_update)
qed (simp add: accept_all_def)

text \<open>
  A trace determines the command registers. Run any sequence of instructions through the
  front door from the reset state with recording on: replaying the trace gives exactly
  the command registers, and the coverage counts how often each opcode occurred.
\<close>

theorem trace_replays_commands:
  assumes "enabled (trace g)" "accepted = accept_all is (ge_reset g)"
  shows "replayed_command_state (trace accepted) = commands accepted \<and>
         (\<forall>k < 256. command_coverage (trace accepted) ! k =
            of_nat (count_list (map (\<lambda>(l, p, i). unat (opcode i)) is) k))"
proof
  have reset: "enabled (trace (ge_reset g))"
    "commands (ge_reset g) = replayed_command_state (trace (ge_reset g))"
    using assms(1)
    by (simp_all add: ge_reset_def clear_trace_def replayed_command_state_def replay_def)
  show "replayed_command_state (trace accepted) = commands accepted"
    using accept_all_replay [OF reset] assms(2) by simp
  show "\<forall>k < 256. command_coverage (trace accepted) ! k =
      of_nat (count_list (map (\<lambda>(l, p, i). unat (opcode i)) is) k)"
  proof (intro allI impI)
    fix k :: nat assume "k < 256"
    moreover from this have "command_coverage (trace (ge_reset g)) ! k = 0"
      by (simp add: command_coverage_def ge_reset_def clear_trace_def)
    ultimately show "command_coverage (trace accepted) ! k =
        of_nat (count_list (map (\<lambda>(l, p, i). unat (opcode i)) is) k)"
      using accept_all_coverage [OF reset(1)] assms(2) by simp
  qed
qed

lemma trace_replays_commands_witness:
  "replayed_command_state
     (trace (accept_all [(1, 0x08800000, 0x01000010), (1, 0x08800004, 0x0c000000)]
       (ge_reset (initial_ge\<lparr>trace := \<lparr>enabled = True, records = []\<rparr>\<rparr>)))) ! 0x0c = 0x0c000000"
proof -
  let ?g = "initial_ge\<lparr>trace := \<lparr>enabled = True, records = []\<rparr>\<rparr>"
  let ?a = "accept_all [(1, 0x08800000, 0x01000010), (1, 0x08800004, 0x0c000000)] (ge_reset ?g)"
  have "replayed_command_state (trace ?a) = commands ?a"
    using trace_replays_commands [of ?g ?a] by simp
  moreover have "opcode 0x0c000000 = 0x0c" "opcode 0x01000010 = 1" by (simp_all add: opcode_def)
  ultimately show ?thesis
    by (simp add: accept_all_def ge_reset_def nth_list_update)
qed

end
