(* ===== verification/Ge_Scheduler.thy ===== *)
theory Ge_Scheduler
  imports Prelude
begin

text \<open>
  The display-list scheduler, \<open>refract/src/ge/ge_scheduler.hpp\<close>: a table of display lists,
  never shrunk except by \<open>reset\<close>, and the queue of the lists that are not finished. A pointer
  returned by \<open>find\<close> is the list itself, and writing through it is \<open>update_list\<close>. List
  identifiers are C++ \<open>int\<close>s; the counter would overflow after 2^31 lists, which the model
  does not reach.
\<close>

section \<open>State\<close>

datatype ListState =
    List_queued | List_running | List_stalled | List_paused | List_completed | List_cancelled
  | List_error

datatype ListStatus =
    Status_completed | Status_queued | Status_drawing | Status_stalled | Status_paused

record CallFrame =
  return_address :: u32
  frame_offset_address :: u32

record DisplayList =
  list_id :: int
  start_address :: u32
  program_counter :: u32
  stall_address :: u32
  callback_id :: u32
  call_stack :: "CallFrame list"
  list_state :: ListState
  bounding_box_visible :: bool

record Scheduler =
  next_id :: int
  lists :: "int \<rightharpoonup> DisplayList"
  queue :: "int list"

definition initial_scheduler :: Scheduler where
  "initial_scheduler = \<lparr>next_id = 1, lists = Map.empty, queue = []\<rparr>"

section \<open>Operations\<close>

definition scheduler_reset :: "Scheduler \<Rightarrow> Scheduler" where
  "scheduler_reset s = s\<lparr>next_id := 1, lists := Map.empty, queue := []\<rparr>"

definition enqueue :: "u32 \<Rightarrow> u32 \<Rightarrow> u32 \<Rightarrow> bool \<Rightarrow> Scheduler \<Rightarrow> int \<times> Scheduler" where
  "enqueue start stall callback at_head s =
     (let uid = next_id s;
          entry = \<lparr>list_id = uid, start_address = start, program_counter = start,
                   stall_address = stall, callback_id = callback, call_stack = [],
                   list_state = List_queued, bounding_box_visible = False\<rparr> in
      (uid, s\<lparr>next_id := uid + 1,
             lists := (if lists s uid = None then (lists s)(uid \<mapsto> entry) else lists s),
             queue := (if at_head then uid # queue s else queue s @ [uid])\<rparr>))"

definition find_list :: "Scheduler \<Rightarrow> int \<Rightarrow> DisplayList option" where
  "find_list s uid = lists s uid"

definition update_list :: "int \<Rightarrow> (DisplayList \<Rightarrow> DisplayList) \<Rightarrow> Scheduler \<Rightarrow> Scheduler" where
  "update_list uid f s =
     (case lists s uid of None \<Rightarrow> s | Some l \<Rightarrow> s\<lparr>lists := (lists s)(uid \<mapsto> f l)\<rparr>)"

definition begin_list :: "int \<Rightarrow> Scheduler \<Rightarrow> Scheduler" where
  "begin_list uid = update_list uid (list_state_update (\<lambda>_. List_running))"

definition stall_list :: "int \<Rightarrow> u32 \<Rightarrow> u32 \<Rightarrow> Scheduler \<Rightarrow> Scheduler" where
  "stall_list uid pc stall =
     update_list uid (\<lambda>l. l\<lparr>program_counter := pc, stall_address := stall,
                           list_state := List_stalled\<rparr>)"

definition finish_list :: "int \<Rightarrow> u32 \<Rightarrow> ListState \<Rightarrow> Scheduler \<Rightarrow> Scheduler" where
  "finish_list uid pc st s =
     (let s = update_list uid (\<lambda>l. l\<lparr>program_counter := pc, list_state := st\<rparr>) s in
      s\<lparr>queue := filter (\<lambda>i. i \<noteq> uid) (queue s)\<rparr>)"

definition update_stall :: "int \<Rightarrow> u32 \<Rightarrow> Scheduler \<Rightarrow> bool \<times> Scheduler" where
  "update_stall uid address s =
     (case find_list s uid of
        None \<Rightarrow> (False, s)
      | Some l \<Rightarrow>
          if list_state l = List_completed \<or> list_state l = List_cancelled \<or>
             list_state l = List_error then (False, s)
          else (True, update_list uid (\<lambda>l. l\<lparr>stall_address := address,
                  list_state := (if list_state l = List_stalled \<and> program_counter l \<noteq> address
                                 then List_queued else list_state l)\<rparr>) s))"

text \<open>The loop of \<open>break_lists\<close> over the queue, with its local variable \<open>current\<close>.\<close>

fun break_loop :: "u32 \<Rightarrow> int list \<Rightarrow> int \<Rightarrow> Scheduler \<Rightarrow> int \<times> Scheduler" where
  "break_loop mode [] current s = (current, s)"
| "break_loop mode (uid # ids) current s =
     (case find_list s uid of
        None \<Rightarrow> break_loop mode ids current s
      | Some l \<Rightarrow>
          let current = (if current < 0 \<and> (list_state l = List_running \<or>
                             list_state l = List_stalled \<or> list_state l = List_queued)
                         then uid else current) in
          if mode = 0 \<and> uid \<noteq> current then break_loop mode ids current s
          else
            let s = (if list_state l \<noteq> List_completed \<and> list_state l \<noteq> List_cancelled
                     then update_list uid (list_state_update (\<lambda>_. List_paused)) s else s) in
            if mode = 0 then (current, s) else break_loop mode ids current s)"

definition break_lists :: "u32 \<Rightarrow> Scheduler \<Rightarrow> int \<times> Scheduler" where
  "break_lists mode s = break_loop mode (queue s) (- 1) s"

fun continue_loop :: "int list \<Rightarrow> Scheduler \<Rightarrow> int \<times> Scheduler" where
  "continue_loop [] s = (- 1, s)"
| "continue_loop (uid # ids) s =
     (case find_list s uid of
        None \<Rightarrow> continue_loop ids s
      | Some l \<Rightarrow>
          if list_state l = List_paused
          then (uid, update_list uid (list_state_update (\<lambda>_. List_queued)) s)
          else continue_loop ids s)"

definition continue_lists :: "Scheduler \<Rightarrow> int \<times> Scheduler" where
  "continue_lists s = continue_loop (queue s) s"

definition list_status :: "Scheduler \<Rightarrow> int \<Rightarrow> ListStatus" where
  "list_status s uid =
     (case find_list s uid of
        None \<Rightarrow> Status_completed
      | Some l \<Rightarrow> (case list_state l of
          List_queued \<Rightarrow> Status_queued
        | List_running \<Rightarrow> Status_drawing
        | List_stalled \<Rightarrow> Status_stalled
        | List_paused \<Rightarrow> Status_paused
        | List_completed \<Rightarrow> Status_completed
        | List_cancelled \<Rightarrow> Status_completed
        | List_error \<Rightarrow> Status_completed))"

fun draw_status_loop :: "Scheduler \<Rightarrow> int list \<Rightarrow> ListStatus" where
  "draw_status_loop s [] = Status_completed"
| "draw_status_loop s (uid # ids) =
     (let result = list_status s uid in
      if result \<noteq> Status_completed then result else draw_status_loop s ids)"

definition draw_status :: "Scheduler \<Rightarrow> ListStatus" where
  "draw_status s = draw_status_loop s (queue s)"

definition busy :: "Scheduler \<Rightarrow> bool" where
  "busy s \<longleftrightarrow> draw_status s \<noteq> Status_completed"

section \<open>The table and the queue\<close>

text \<open>Each queued list is in the table once, under its own identifier, below the counter.\<close>

definition wf_scheduler :: "Scheduler \<Rightarrow> bool" where
  "wf_scheduler s \<longleftrightarrow> 1 \<le> next_id s \<and> distinct (queue s) \<and> set (queue s) \<subseteq> dom (lists s) \<and>
     (\<forall>i l. lists s i = Some l \<longrightarrow> list_id l = i \<and> 1 \<le> i \<and> i < next_id s)"

lemma wf_initial_scheduler [simp]: "wf_scheduler initial_scheduler"
  by (simp add: wf_scheduler_def initial_scheduler_def)

lemma fresh_id:
  assumes "wf_scheduler s"
  shows "lists s (next_id s) = None" "next_id s \<notin> set (queue s)"
proof -
  show *: "lists s (next_id s) = None"
  proof (cases "lists s (next_id s)")
    case (Some l)
    then have "next_id s < next_id s" using assms unfolding wf_scheduler_def by blast
    then show ?thesis by simp
  qed
  show "next_id s \<notin> set (queue s)"
    using assms * by (auto simp: wf_scheduler_def)
qed

lemma update_list_simps [simp]:
  "queue (update_list i f s) = queue s"
  "next_id (update_list i f s) = next_id s"
  "lists (update_list i f s) j = (if j = i then map_option f (lists s i) else lists s j)"
  "dom (lists (update_list i f s)) = dom (lists s)"
  by (auto simp: update_list_def split: option.splits)

lemma wf_update_list:
  "wf_scheduler s \<Longrightarrow> (\<And>l. list_id (f l) = list_id l) \<Longrightarrow> wf_scheduler (update_list i f s)"
  by (auto simp: wf_scheduler_def)

lemma wf_enqueue: "wf_scheduler s \<Longrightarrow> wf_scheduler (snd (enqueue a b c h s))"
  using fresh_id [of s]
  by (auto simp: wf_scheduler_def enqueue_def Let_def less_imp_le)

lemma wf_begin_list: "wf_scheduler s \<Longrightarrow> wf_scheduler (begin_list i s)"
  by (simp add: begin_list_def wf_update_list)

lemma wf_stall_list: "wf_scheduler s \<Longrightarrow> wf_scheduler (stall_list i p a s)"
  by (simp add: stall_list_def wf_update_list)

lemma wf_dequeue: "wf_scheduler s \<Longrightarrow> wf_scheduler (s\<lparr>queue := filter P (queue s)\<rparr>)"
  unfolding wf_scheduler_def by auto

lemma wf_finish_list: "wf_scheduler s \<Longrightarrow> wf_scheduler (finish_list i p st s)"
  unfolding finish_list_def Let_def by (intro wf_dequeue wf_update_list) simp_all

lemma wf_update_stall: "wf_scheduler s \<Longrightarrow> wf_scheduler (snd (update_stall i a s))"
  by (simp add: update_stall_def wf_update_list split: option.split)

lemma wf_break_loop: "wf_scheduler s \<Longrightarrow> wf_scheduler (snd (break_loop m ids c s))"
  by (induction ids arbitrary: c s) (auto simp: Let_def wf_update_list split: option.split)

lemma wf_continue_loop: "wf_scheduler s \<Longrightarrow> wf_scheduler (snd (continue_loop ids s))"
  by (induction ids arbitrary: s) (simp_all add: wf_update_list split: option.split)

lemmas wf_scheduler_intros =
  wf_enqueue wf_begin_list wf_stall_list wf_finish_list wf_update_stall wf_break_loop
  wf_continue_loop

end
