(* ===== verification/Ge_Vertex.thy ===== *)
theory Ge_Vertex
  imports Prelude
begin

text \<open>
  The layout of GE vertices, \<open>refract/src/ge/ge_vertex_decoder.hpp\<close>: from the vertex type
  word, the offset of each component in a vertex and the distance between vertices.
  \<open>std::size_t\<close> values are 64-bit words, so that the mask in \<open>align_offset\<close> is the code's.
\<close>

section \<open>Definitions\<close>

record VertexLayout =
  stride :: u64
  weight_offset :: u64
  texture_offset :: u64
  color_offset :: u64
  normal_offset :: u64
  position_offset :: u64
  texture_type :: u32
  color_type :: u32
  normal_type :: u32
  position_type :: u32
  weight_type :: u32
  weight_count :: u32

definition component_size :: "u32 \<Rightarrow> u64" where
  "component_size type = (if type = 1 then 1 else if type = 2 then 2 else if type = 3 then 4 else 0)"

definition align_offset :: "u64 \<Rightarrow> u64 \<Rightarrow> u64" where
  "align_offset value alignment =
     (if alignment = 0 then value else (value + alignment - 1) AND NOT (alignment - 1))"

text \<open>
  One step of \<open>layout\<close>: place a component of the given element size and element count at
  the running offset. A step returns the component's offset (0 when it is absent), the new
  running offset and the new maximal alignment.
\<close>

definition place :: "u64 \<Rightarrow> u64 \<Rightarrow> u64 \<times> u64 \<Rightarrow> u64 \<times> u64 \<times> u64" where
  "place esize count = (\<lambda>(offset, maximum_alignment).
     if esize \<noteq> 0 then
       (let aligned = align_offset offset esize in
        (aligned, aligned + esize * count, max maximum_alignment esize))
     else (0, offset, maximum_alignment))"

definition color_size :: "u32 \<Rightarrow> u64" where
  "color_size type = (if type = 7 then 4 else if type \<ge> 4 then 2 else 0)"

definition vertex_layout :: "u32 \<Rightarrow> VertexLayout" where
  "vertex_layout type =
     (let tt = type AND 3; ct = drop_bit 2 type AND 7; nt = drop_bit 5 type AND 3;
          pt = drop_bit 7 type AND 3; wt = drop_bit 9 type AND 3;
          wc = (drop_bit 14 type AND 7) + 1;
          (weight_at, state1) = place (component_size wt) (ucast wc) (0, 1);
          (texture_at, state2) = place (component_size tt) 2 state1;
          (color_at, state3) = place (color_size ct) 1 state2;
          (normal_at, offset4, maximum4) = place (component_size nt) 3 state3;
          position_size = component_size pt;
          maximum_alignment = max maximum4 position_size;
          position_at = align_offset offset4 position_size in
      \<lparr>stride = align_offset (position_at + position_size * 3) maximum_alignment,
       weight_offset = weight_at, texture_offset = texture_at, color_offset = color_at,
       normal_offset = normal_at, position_offset = position_at,
       texture_type = tt, color_type = ct, normal_type = nt, position_type = pt,
       weight_type = wt, weight_count = wc\<rparr>)"

section \<open>Alignment\<close>

definition unit_size :: "u64 \<Rightarrow> bool" where
  "unit_size a \<longleftrightarrow> a = 1 \<or> a = 2 \<or> a = 4"

lemma unit_size_pow:
  assumes "unit_size a" obtains k where "k < 3" "a = 2 ^ k" "unat a = 2 ^ k"
proof -
  from assms consider "a = 2 ^ 0" | "a = 2 ^ 1" | "a = 2 ^ 2" by (auto simp: unit_size_def)
  then show thesis by cases (auto intro: that [of 0] that [of 1] that [of 2])
qed

lemma unit_size_unat: "unit_size a \<Longrightarrow> unat a \<in> {1, 2, 4}"
  by (auto simp: unit_size_def)

lemma unat_align_offset:
  assumes "unit_size a" "unat v < 2 ^ 32"
  shows "unat (align_offset v a) = (unat v + unat a - 1) div unat a * unat a"
proof -
  obtain k where k: "k < 3" "a = 2 ^ k" "unat a = 2 ^ k" using unit_size_pow [OF assms(1)] by blast
  have pos: "a \<noteq> 0" "1 \<le> unat a" "unat a \<le> 4" using unit_size_unat [OF assms(1)] by auto
  have "unat (a - 1) = unat a - 1"
    using unit_size_unat [OF assms(1)] assms(1) by (auto simp: unit_size_def)
  then have "unat (v + (a - 1)) = unat v + unat a - 1"
    using pos assms(2) by (subst unat_plus_small) simp_all
  then show ?thesis
    using k unat_and_not_mask [of "v + (a - 1)" k] by (simp add: align_offset_def algebra_simps pos(1))
qed

lemma align_offset_props:
  assumes "unit_size a" "unat v < 2 ^ 32"
  shows "unat v \<le> unat (align_offset v a)" "unat (align_offset v a) < unat v + unat a"
    "unat a dvd unat (align_offset v a)"
  using unit_size_unat [OF assms(1)] by (auto simp: unat_align_offset [OF assms]; presburger)+

lemma component_size_cases: "component_size t = 0 \<or> unit_size (component_size t)"
  by (simp add: component_size_def unit_size_def)

lemma color_size_cases: "color_size t = 0 \<or> unit_size (color_size t)"
  by (simp add: color_size_def unit_size_def)

lemma place_spec:
  assumes "place esize count (offset, m) = (at, offset', m')"
    and "unit_size esize" "unat count \<le> 8" "unat offset < 1000"
  shows "unat offset \<le> unat at" "unat at < unat offset + 4" "unat esize dvd unat at"
    "unat offset' = unat at + unat esize * unat count" "m' = max m esize"
proof -
  have nz: "esize \<noteq> 0" using assms(2) by (auto simp: unit_size_def)
  have at: "at = align_offset offset esize" "offset' = at + esize * count" and m: "m' = max m esize"
    using assms(1) nz by (auto simp: place_def Let_def)
  have es: "unat esize \<le> 4" using unit_size_unat [OF assms(2)] by auto
  note al = align_offset_props [OF assms(2), of offset]
  show "unat offset \<le> unat at" "unat at < unat offset + 4" "unat esize dvd unat at" "m' = max m esize"
    using al es m assms(4) by (auto simp: at(1))
  have *: "unat esize * unat count \<le> 4 * 8" by (rule mult_mono [OF es assms(3)]) simp_all
  then have "unat (esize * count) = unat esize * unat count" by (intro unat_mult_small) simp
  then show "unat offset' = unat at + unat esize * unat count"
    using * al(2) es assms(4) by (simp add: at(2) unat_plus_small at(1))
qed

lemma place_absent: "place 0 count (offset, m) = (0, offset, m)"
  by (simp add: place_def)


section \<open>Layouts\<close>

text \<open>The components of a layout in order: offset, element size, and size in bytes.\<close>

definition layout_components :: "VertexLayout \<Rightarrow> (nat \<times> nat \<times> nat) list" where
  "layout_components L =
     [(unat (weight_offset L), unat (component_size (weight_type L)),
       unat (component_size (weight_type L)) * unat (weight_count L)),
      (unat (texture_offset L), unat (component_size (texture_type L)),
       unat (component_size (texture_type L)) * 2),
      (unat (color_offset L), unat (color_size (color_type L)), unat (color_size (color_type L))),
      (unat (normal_offset L), unat (component_size (normal_type L)),
       unat (component_size (normal_type L)) * 3),
      (unat (position_offset L), unat (component_size (position_type L)),
       unat (component_size (position_type L)) * 3)]"

fun in_order :: "nat \<Rightarrow> (nat \<times> nat \<times> nat) list \<Rightarrow> nat \<Rightarrow> bool" where
  "in_order lo [] limit \<longleftrightarrow> lo \<le> limit"
| "in_order lo ((at, element, n) # xs) limit \<longleftrightarrow>
     (if element = 0 then in_order lo xs limit
      else lo \<le> at \<and> element dvd at \<and> element dvd limit \<and> in_order (at + n) xs limit)"

lemma unit_size_max:
  assumes "unit_size m" "unit_size a"
  shows "unit_size (max m a)" "unat m dvd unat (max m a)" "unat a dvd unat (max m a)"
  using assms by (auto simp: unit_size_def max_def word_le_nat_alt)

lemma place_cases:
  assumes p: "place esize count (offset, m) = (at, offset', m')"
    and e: "esize = 0 \<or> unit_size esize" and small: "unat count \<le> 8" "unat offset < 1000"
    and m: "unit_size m"
  shows "unat offset' \<le> unat offset + 3 + unat esize * unat count" "unit_size m'"
    and "unat m dvd unat m'"
    and "in_order (unat offset') xs limit \<Longrightarrow> unat m' dvd limit \<Longrightarrow>
         in_order (unat offset) ((unat at, unat esize, unat esize * unat count) # xs) limit"
proof -
  consider "esize = 0" | "unit_size esize" using e by blast
  then have "unat offset' \<le> unat offset + 3 + unat esize * unat count \<and> unit_size m' \<and>
      unat m dvd unat m' \<and> (in_order (unat offset') xs limit \<longrightarrow> unat m' dvd limit \<longrightarrow>
         in_order (unat offset) ((unat at, unat esize, unat esize * unat count) # xs) limit)"
  proof cases
    case 1
    then show ?thesis using p m by (auto simp: place_absent)
  next
    case 2
    note s = place_spec [OF p 2 small]
    have "m' = max m esize" by (rule s(5))
    then show ?thesis
      using s(1-4) unit_size_max [OF m 2] by (auto intro: dvd_trans)
  qed
  then show "unat offset' \<le> unat offset + 3 + unat esize * unat count" "unit_size m'"
    "unat m dvd unat m'"
    "in_order (unat offset') xs limit \<Longrightarrow> unat m' dvd limit \<Longrightarrow>
         in_order (unat offset) ((unat at, unat esize, unat esize * unat count) # xs) limit"
    by blast+
qed

lemma unat_component_size: "unat (component_size t) \<le> 4" "unat (color_size t) \<le> 4"
  by (simp_all add: component_size_def color_size_def)

lemma position_last:
  fixes last :: u64
  assumes u: "unit_size m" and small: "unat last \<le> 68" and ps: "ps = component_size pt"
    and mx: "mx = max m ps" and pos: "pos = align_offset last ps"
    and lim: "lim = align_offset (pos + ps * 3) mx"
  shows "in_order (unat last) [(unat pos, unat ps, unat ps * 3)] (unat lim)"
    and "unat lim \<le> 96" and "unat m dvd unat lim"
proof -
  have mx': "unit_size mx" "unat m dvd unat mx" "ps = 0 \<or> unat ps dvd unat mx"
    using component_size_cases [of pt] unit_size_max [OF u, of ps] u by (auto simp: mx ps)
  have p: "unat last \<le> unat pos" "unat pos \<le> 71" "ps = 0 \<or> unat ps dvd unat pos"
    using component_size_cases [of pt] align_offset_props [of ps last] small unat_component_size(1) [of pt]
    by (auto simp: pos align_offset_def ps)
  have p3: "unat (ps * 3) = unat ps * 3" "unat ps \<le> 4"
    using unat_component_size(1) [of pt] by (simp_all add: ps unat_mult_small)
  then have after: "unat (pos + ps * 3) = unat pos + unat ps * 3"
    using p by (simp add: unat_plus_small)
  have "unat mx \<le> 4" using unit_size_unat [OF mx'(1)] by auto
  then have l: "unat pos + unat ps * 3 \<le> unat lim" "unat lim \<le> 96" "unat mx dvd unat lim"
    using align_offset_props [OF mx'(1), of "pos + ps * 3"] p(2) p3 by (auto simp: lim after)
  show "in_order (unat last) [(unat pos, unat ps, unat ps * 3)] (unat lim)"
    using p l mx'(3) by (auto intro: dvd_trans)
  show "unat lim \<le> 96" "unat m dvd unat lim"
    using l dvd_trans [OF mx'(2)] by auto
qed

text \<open>
  Vertex layouts. For every vertex type there are at most eight weights; the components
  that are present lie in order, without overlap, inside one vertex; each is aligned to
  its element size, in every vertex of an array; and a vertex has at most 96 bytes.
\<close>

theorem vertex_layout_sound:
  "1 \<le> unat (weight_count (vertex_layout t)) \<and> unat (weight_count (vertex_layout t)) \<le> 8 \<and>
   in_order 0 (layout_components (vertex_layout t)) (unat (stride (vertex_layout t))) \<and>
   unat (stride (vertex_layout t)) \<le> 96"
proof -
  define tt ct nt pt wt wc where "tt = t AND 3" and "ct = drop_bit 2 t AND 7"
    and "nt = drop_bit 5 t AND 3" and "pt = drop_bit 7 t AND 3" and "wt = drop_bit 9 t AND 3"
    and "wc = (drop_bit 14 t AND 7) + 1"
  note fields = this
  obtain w1 o1 m1 where p1: "place (component_size wt) (ucast wc) (0, 1) = (w1, o1, m1)" by (metis prod_cases3)
  obtain w2 o2 m2 where p2: "place (component_size tt) 2 (o1, m1) = (w2, o2, m2)" by (metis prod_cases3)
  obtain w3 o3 m3 where p3: "place (color_size ct) 1 (o2, m2) = (w3, o3, m3)" by (metis prod_cases3)
  obtain w4 o4 m4 where p4: "place (component_size nt) 3 (o3, m3) = (w4, o4, m4)" by (metis prod_cases3)
  define ps mx pos lim where "ps = component_size pt" and "mx = max m4 ps"
    and "pos = align_offset o4 ps" and "lim = align_offset (pos + ps * 3) mx"
  note last = this
  have L: "vertex_layout t = \<lparr>stride = lim, weight_offset = w1, texture_offset = w2, color_offset = w3,
      normal_offset = w4, position_offset = pos, texture_type = tt, color_type = ct,
      normal_type = nt, position_type = pt, weight_type = wt, weight_count = wc\<rparr>"
    by (simp add: vertex_layout_def Let_def p1 p2 p3 p4 flip: fields) (simp add: last)
  have "drop_bit 14 t AND 7 \<le> 7" by (rule word_and_le1)
  then have "unat (drop_bit 14 t AND 7) \<le> 7" by (simp add: word_le_nat_alt)
  then have wc: "1 \<le> unat wc" "unat wc \<le> 8" and wc64: "unat (ucast wc :: u64) = unat wc"
    by (simp_all add: fields unat_word_ariths unsigned_ucast_eq take_bit_nat_eq_self)
  have unit1: "unit_size 1" by (simp add: unit_size_def)
  have b1: "unat (component_size wt) * unat (ucast wc :: u64) \<le> 4 * 8"
    unfolding wc64 by (intro mult_mono unat_component_size wc) simp_all
  note q1 = place_cases [OF p1 component_size_cases _ _ unit1]
  have o1: "unat o1 \<le> 35" and u1: "unit_size m1" using q1(1,2) b1 wc wc64 by simp_all
  note q2 = place_cases [OF p2 component_size_cases _ _ u1]
  have o2: "unat o2 \<le> 46" and u2: "unit_size m2"
    using q2(1,2) o1 unat_component_size(1) [of tt] by simp_all
  note q3 = place_cases [OF p3 color_size_cases _ _ u2]
  have o3: "unat o3 \<le> 53" and u3: "unit_size m3"
    using q3(1,2) o2 unat_component_size(2) [of ct] by simp_all
  note q4 = place_cases [OF p4 component_size_cases _ _ u3]
  have o4: "unat o4 \<le> 68" and u4: "unit_size m4"
    using q4(1,2) o3 unat_component_size(1) [of nt] by simp_all
  note l = position_last [OF u4 o4 last]
  have "in_order (unat o3) [(unat w4, unat (component_size nt), unat (component_size nt) * 3),
      (unat pos, unat ps, unat ps * 3)] (unat lim)"
    using q4(4) o3 l by (simp del: in_order.simps)
  then have "in_order (unat o2) [(unat w3, unat (color_size ct), unat (color_size ct)),
      (unat w4, unat (component_size nt), unat (component_size nt) * 3),
      (unat pos, unat ps, unat ps * 3)] (unat lim)"
    using q3(4) o2 dvd_trans [OF q4(3) l(3)] o3 by (simp del: in_order.simps)
  then have "in_order (unat o1) [(unat w2, unat (component_size tt), unat (component_size tt) * 2),
      (unat w3, unat (color_size ct), unat (color_size ct)),
      (unat w4, unat (component_size nt), unat (component_size nt) * 3),
      (unat pos, unat ps, unat ps * 3)] (unat lim)"
    using q2(4) o1 o2 dvd_trans [OF q3(3) dvd_trans [OF q4(3) l(3)]] o3 by (simp del: in_order.simps)
  then have "in_order 0 (layout_components (vertex_layout t)) (unat lim)"
    using q1(4) wc wc64 o1 o2 dvd_trans [OF q2(3) dvd_trans [OF q3(3) dvd_trans [OF q4(3) l(3)]]] o3
    by (simp del: in_order.simps add: layout_components_def L flip: last(1))
  then show ?thesis using wc l(2) by (simp add: L)
qed

end
