(* ===== verification/Ge_List.thy ===== *)
theory Ge_List
  imports Guest_Access Ge_State Ge_Scheduler Ge_Vertex
begin

text \<open>
  Execution of display lists, \<open>execute_ge_list\<close> in
  \<open>refract/src/stubs/ge/sceGeListEnQueue.cpp\<close>, and the system calls around it. A list is run
  from its program counter: each word is fetched through \<open>mapped_address\<close>, accepted by the
  command front door and executed, until END, until the stall address, or until the list
  leaves mapped memory or has run 2^20 words.

  Modelled: fetching, address registers, matrix uploads, palette loads, the index and vertex
  fetch of a primitive with its expansion to triangles, bounding boxes, jumps, calls and
  returns, signals, origin and offset, block transfers. Not modelled: the arithmetic on the
  fetched vertices (decoding to floats, transformation, lighting, texture coordinates), the
  decoding of textures and the render state, which only feed the host renderer. A submitted
  packet therefore holds the bytes of the vertices the code reads.
\<close>

section \<open>State\<close>

record GeCallback =
  signal_entry :: u32
  signal_argument :: u32
  finish_entry :: u32
  finish_argument :: u32

record PendingCallback =
  pending_entry :: u32
  pending_command_argument :: u32
  pending_common_argument :: u32

text \<open>
  A vertex of a submitted packet: one of the vertices fetched, or a corner of the sprite
  whose two corner vertices are fetched at the given position and the next.
\<close>

datatype Corner = Bottom_right | Top_right | Top_left | Bottom_left
datatype Submitted = Vertex nat | Sprite nat Corner

record Packet =
  submitted_type :: u32
  submitted_vertices :: "Submitted list"
  source_vertices :: "u8 list list"

text \<open>
  What the loop works on: the CPU state for guest memory, the graphics registers, the
  call stack moved out of the list, the program counter, the list's visibility flag, the
  callbacks to dispatch afterwards and the packets handed to the renderer.
\<close>

record Machine =
  cpu :: State
  graphics :: Ge_State
  frames :: "CallFrame list"
  counter :: u32
  visible :: bool
  pending :: "PendingCallback list"
  packets :: "Packet list"

datatype Outcome = Ended | Stalled | Failed

section \<open>Registers\<close>

definition command_register :: "Ge_State \<Rightarrow> u32 \<Rightarrow> u32" where
  "command_register g k = commands g ! unat k"

definition relative_address :: "Ge_State \<Rightarrow> u32 \<Rightarrow> u32" where
  "relative_address g value =
     (let base = push_bit 8 (command_register g 0x10 AND 0x000f0000) in
      (offset_address g + (base OR value)) AND 0x0fffffff)"

definition float24 :: "u32 \<Rightarrow> u32" where
  "float24 value = push_bit 8 (value AND 0x00ffffff)"

text \<open>The value is written at the matrix's index when it is inside the matrix, which then advances.\<close>

definition upload :: "u32 list \<Rightarrow> u32 \<Rightarrow> u32 \<Rightarrow> u32 list \<times> u32" where
  "upload matrix index value =
     (if unat index < length matrix then (matrix[unat index := float24 value], index + 1)
      else (matrix, index))"

definition matrix_command :: "u8 \<Rightarrow> u32 \<Rightarrow> Ge_State \<Rightarrow> Ge_State" where
  "matrix_command command arg g =
     (if command = 0x3a then g\<lparr>world_matrix_index := arg AND 0xf\<rparr>
      else if command = 0x3b then
        (let (xs, i) = upload (world_matrix g) (world_matrix_index g) arg in
         g\<lparr>world_matrix := xs, world_matrix_index := i\<rparr>)
      else if command = 0x3c then g\<lparr>view_matrix_index := arg AND 0xf\<rparr>
      else if command = 0x3d then
        (let (xs, i) = upload (view_matrix g) (view_matrix_index g) arg in
         g\<lparr>view_matrix := xs, view_matrix_index := i\<rparr>)
      else if command = 0x3e then g\<lparr>projection_matrix_index := arg AND 0xf\<rparr>
      else if command = 0x3f then
        (let (xs, i) = upload (projection_matrix g) (projection_matrix_index g) arg in
         g\<lparr>projection_matrix := xs, projection_matrix_index := i\<rparr>)
      else if command = 0x40 then g\<lparr>texture_matrix_index := arg AND 0xf\<rparr>
      else if command = 0x41 then
        (let (xs, i) = upload (texture_matrix g) (texture_matrix_index g) arg in
         g\<lparr>texture_matrix := xs, texture_matrix_index := i\<rparr>)
      else if command = 0x2a then g\<lparr>bone_matrix_index := arg AND 0x7f\<rparr>
      else if command = 0x2b then
        (let (xs, i) = upload (bone_matrices g) (bone_matrix_index g) arg in
         g\<lparr>bone_matrices := xs, bone_matrix_index := i\<rparr>)
      else g)"

section \<open>Palettes\<close>

definition clut_address_of :: "Ge_State \<Rightarrow> u32" where
  "clut_address_of g =
     (command_register g 0xb0 AND 0x00fffff0) OR
     (push_bit 8 (command_register g 0xb1) AND 0x0f000000)"

definition load_clut :: "u32 \<Rightarrow> State \<Rightarrow> Ge_State \<Rightarrow> Ge_State" where
  "load_clut arg s g =
     (let blocks = (if arg AND 0x7f = 0x40 then 0x40 else arg AND 0x3f);
          clut_bytes = min (unat (blocks * 32)) (length (clut g)) in
      case mapped_address s (clut_address_of g) clut_bytes of
        None \<Rightarrow> g
      | Some source \<Rightarrow>
          if read_at s source clut_bytes = take clut_bytes (clut g) then g
          else g\<lparr>clut := read_at s source clut_bytes @ drop clut_bytes (clut g),
                 texture_generation := texture_generation g + 1\<rparr>)"

section \<open>Primitives\<close>

definition index_at :: "State \<Rightarrow> pointer \<Rightarrow> u32 \<Rightarrow> nat \<Rightarrow> nat" where
  "index_at s p index_type k =
     (if index_type = 1 then unat (read_at s (fst p, snd p + k) 1 ! 0)
      else if index_type = 2 then unat (word16_of (read_at s (fst p, snd p + k * 2) 2))
      else unat (word32_of (read_at s (fst p, snd p + k * 4) 4)))"

text \<open>The vertex indices and the largest of them, or \<open>None\<close> when the index buffer is not mapped.\<close>

definition fetch_indices :: "State \<Rightarrow> Ge_State \<Rightarrow> u32 \<Rightarrow> nat \<Rightarrow> (nat list \<times> nat) option" where
  "fetch_indices s g index_type vertex_count =
     (if index_type = 0
      then Some ([0..<vertex_count], if vertex_count = 0 then 0 else vertex_count - 1)
      else case mapped_address s (index_address g)
                  (vertex_count * unat (component_size index_type)) of
        None \<Rightarrow> None
      | Some p \<Rightarrow>
          let indices = map (index_at s p index_type) [0..<vertex_count] in
          Some (indices, fold max indices 0))"

definition fetch_vertices ::
  "State \<Rightarrow> Ge_State \<Rightarrow> VertexLayout \<Rightarrow> nat list \<Rightarrow> nat \<Rightarrow> u8 list list option" where
  "fetch_vertices s g layout indices maximum_index =
     (case mapped_address s (vertex_address g) ((maximum_index + 1) * unat (stride layout)) of
        None \<Rightarrow> None
      | Some p \<Rightarrow>
          Some (map (\<lambda>k. read_at s (fst p, snd p + k * unat (stride layout)) (unat (stride layout)))
                  indices))"

definition triangle_fan :: "nat \<Rightarrow> Submitted list" where
  "triangle_fan n = concat (map (\<lambda>fan. [Vertex 0, Vertex fan, Vertex (fan + 1)]) [1..<n - 1])"

definition sprite_triangles :: "nat \<Rightarrow> Submitted list" where
  "sprite_triangles n =
     concat (map (\<lambda>k. map (Sprite (2 * k))
       [Bottom_right, Top_right, Top_left, Bottom_left, Bottom_right, Top_left]) [0..<n div 2])"

definition make_packet :: "u32 \<Rightarrow> u8 list list \<Rightarrow> Packet" where
  "make_packet primitive_type vertices =
     (let n = length vertices in
      if primitive_type = 5 \<and> 3 \<le> n
      then \<lparr>submitted_type = 3, submitted_vertices = triangle_fan n, source_vertices = vertices\<rparr>
      else if primitive_type = 6 \<and> 2 \<le> n
      then \<lparr>submitted_type = 3, submitted_vertices = sprite_triangles n, source_vertices = vertices\<rparr>
      else \<lparr>submitted_type = primitive_type, submitted_vertices = map Vertex [0..<n],
            source_vertices = vertices\<rparr>)"

definition advance_input :: "u32 \<Rightarrow> nat \<Rightarrow> VertexLayout \<Rightarrow> Ge_State \<Rightarrow> Ge_State" where
  "advance_input index_type count layout g =
     (if index_type = 0
      then g\<lparr>vertex_address := vertex_address g + of_nat (count * unat (stride layout))\<rparr>
      else g\<lparr>index_address := index_address g +
               of_nat (count * unat (component_size index_type))\<rparr>)"

definition draw_primitive :: "u32 \<Rightarrow> Machine \<Rightarrow> Machine" where
  "draw_primitive arg m =
     (let g = graphics m;
          primitive_type = drop_bit 16 arg AND 7;
          vertex_count = unat (arg AND 0xffff);
          vertex_type = command_register g 0x12 AND 0x00ffffff;
          layout = vertex_layout vertex_type;
          index_type = drop_bit 11 vertex_type AND 3 in
      if stride layout \<noteq> 0 \<and> primitive_type \<le> 6 then
        (let submitted =
               (case fetch_indices (cpu m) g index_type vertex_count of
                  None \<Rightarrow> []
                | Some (indices, maximum_index) \<Rightarrow>
                    (case fetch_vertices (cpu m) g layout indices maximum_index of
                       None \<Rightarrow> []
                     | Some vertices \<Rightarrow> [make_packet primitive_type vertices])) in
         m\<lparr>graphics := advance_input index_type vertex_count layout g,
           packets := packets m @ submitted\<rparr>)
      else m)"

definition bounding_box :: "u32 \<Rightarrow> Machine \<Rightarrow> Machine" where
  "bounding_box arg m =
     (let count = arg AND 0xffff; g = graphics m in
      if count = 0 then m\<lparr>visible := False\<rparr>
      else
        let vertex_type = command_register g 0x12 AND 0x00ffffff;
            index_type = drop_bit 11 vertex_type AND 3 in
        m\<lparr>visible := True,
          graphics := advance_input index_type (unat count) (vertex_layout vertex_type) g\<rparr>)"

section \<open>Callbacks and transfers\<close>

definition note_signal :: "(int \<rightharpoonup> GeCallback) \<Rightarrow> u32 \<Rightarrow> bool \<Rightarrow> u32 \<Rightarrow> Machine \<Rightarrow> Machine" where
  "note_signal callbacks callback signal arg m =
     (case callbacks (sint callback) of
        None \<Rightarrow> m
      | Some c \<Rightarrow>
          let entry = (if signal then signal_entry c else finish_entry c);
              common = (if signal then signal_argument c else finish_argument c) in
          if entry \<noteq> 0
          then m\<lparr>pending := pending m @ [\<lparr>pending_entry = entry, pending_command_argument = arg,
                                          pending_common_argument = common\<rparr>]\<rparr>
          else m)"

text \<open>The rows of a block transfer; a row that is not mapped ends it.\<close>

fun transfer_rows :: "(u32 \<Rightarrow> u32) \<Rightarrow> (u32 \<Rightarrow> u32) \<Rightarrow> nat \<Rightarrow> nat list \<Rightarrow> State \<Rightarrow> State" where
  "transfer_rows source destination row_size [] s = s"
| "transfer_rows source destination row_size (row # rows) s =
     (case (mapped_address s (source (of_nat row)) row_size,
            mapped_address s (destination (of_nat row)) row_size) of
        (Some p, Some q) \<Rightarrow>
          transfer_rows source destination row_size rows (write_at s q (read_at s p row_size))
      | _ \<Rightarrow> s)"

definition block_transfer :: "u32 \<Rightarrow> Machine \<Rightarrow> Machine" where
  "block_transfer arg m =
     (let g = graphics m;
          source_address = (command_register g 0xb2 AND 0x00fffff0) OR
            push_bit 8 (command_register g 0xb3 AND 0x00ff0000);
          destination_address = (command_register g 0xb4 AND 0x00fffff0) OR
            push_bit 8 (command_register g 0xb5 AND 0x00ff0000);
          source_stride = command_register g 0xb3 AND 0x7f8;
          destination_stride = command_register g 0xb5 AND 0x7f8;
          source_x = command_register g 0xeb AND 0x3ff;
          source_y = drop_bit 10 (command_register g 0xeb) AND 0x3ff;
          destination_x = command_register g 0xec AND 0x3ff;
          destination_y = drop_bit 10 (command_register g 0xec) AND 0x3ff;
          width = (command_register g 0xee AND 0x3ff) + 1;
          height = (drop_bit 10 (command_register g 0xee) AND 0x3ff) + 1;
          bytes_per_pixel = (if arg AND 1 \<noteq> 0 then 4 else 2) in
      m\<lparr>graphics := g\<lparr>texture_generation := texture_generation g + 1\<rparr>,
        cpu := transfer_rows
          (\<lambda>row. source_address + ((source_y + row) * source_stride + source_x) * bytes_per_pixel)
          (\<lambda>row. destination_address +
             ((destination_y + row) * destination_stride + destination_x) * bytes_per_pixel)
          (unat width * unat bytes_per_pixel) [0..<unat height] (cpu m)\<rparr>)"

section \<open>One command\<close>

text \<open>
  The body of the loop after the command is accepted. A branch that ends in \<open>continue\<close> sets
  the program counter; the others fall through to the word after the command, except END,
  which stays. A CALL with a full stack and a RET with an empty one are ignored.
\<close>

definition ge_command :: "(int \<rightharpoonup> GeCallback) \<Rightarrow> u32 \<Rightarrow> u8 \<Rightarrow> u32 \<Rightarrow> Machine \<Rightarrow> Machine" where
  "ge_command callbacks callback command arg m =
     (let g = graphics m; next = counter m + 4; target = relative_address g (arg AND 0x00fffffc) in
      if command = 0x01 then
        m\<lparr>graphics := g\<lparr>vertex_address := relative_address g arg\<rparr>, counter := next\<rparr>
      else if command = 0x02 then
        m\<lparr>graphics := g\<lparr>index_address := relative_address g arg\<rparr>, counter := next\<rparr>
      else if command \<in> {0x3a, 0x3b, 0x3c, 0x3d, 0x3e, 0x3f, 0x40, 0x41, 0x2a, 0x2b} then
        m\<lparr>graphics := matrix_command command arg g, counter := next\<rparr>
      else if command = 0xc4 then m\<lparr>graphics := load_clut arg (cpu m) g, counter := next\<rparr>
      else if command = 0x04 then (draw_primitive arg m)\<lparr>counter := next\<rparr>
      else if command = 0x07 then (bounding_box arg m)\<lparr>counter := next\<rparr>
      else if command = 0x08 then m\<lparr>counter := target\<rparr>
      else if command = 0x09 \<and> \<not> visible m then m\<lparr>counter := target\<rparr>
      else if command = 0x0a then
        (if length (frames m) < 64
         then m\<lparr>frames := \<lparr>return_address = next, frame_offset_address = offset_address g\<rparr> # frames m,
                counter := target\<rparr>
         else m\<lparr>counter := next\<rparr>)
      else if command = 0x0b then
        (case frames m of
           [] \<Rightarrow> m\<lparr>counter := next\<rparr>
         | frame # rest \<Rightarrow>
             m\<lparr>frames := rest, counter := return_address frame,
               graphics := g\<lparr>offset_address := frame_offset_address frame\<rparr>\<rparr>)
      else if command = 0x0e \<or> command = 0x0f then
        (note_signal callbacks callback (command = 0x0e) arg m)\<lparr>counter := next\<rparr>
      else if command = 0x13 then
        m\<lparr>graphics := g\<lparr>offset_address := push_bit 8 arg\<rparr>, counter := next\<rparr>
      else if command = 0x14 then
        m\<lparr>graphics := g\<lparr>offset_address := counter m\<rparr>, counter := next\<rparr>
      else if command = 0xea then (block_transfer arg m)\<lparr>counter := next\<rparr>
      else if command = 0x0c then m
      else m\<lparr>counter := next\<rparr>)"

section \<open>The loop\<close>

definition max_ge_command_words :: nat where "max_ge_command_words = 2 ^ 20"

text \<open>The first argument counts the words that may still run, \<open>max_ge_command_words - words\<close>.\<close>

fun ge_loop ::
  "nat \<Rightarrow> (int \<rightharpoonup> GeCallback) \<Rightarrow> u32 \<Rightarrow> u32 \<Rightarrow> u32 \<Rightarrow> Machine \<Rightarrow> Outcome \<times> Machine" where
  "ge_loop 0 callbacks callback listid stall m = (Failed, m)"
| "ge_loop (Suc words) callbacks callback listid stall m =
     (if stall \<noteq> 0 \<and> canonical_address (counter m) = canonical_address stall then (Stalled, m)
      else case mapped_address (cpu m) (counter m) 4 of
        None \<Rightarrow> (Failed, m)
      | Some p \<Rightarrow>
          let (decoded, g) = accept (graphics m) listid (counter m) (word32_of (read_at (cpu m) p 4));
              m = ge_command callbacks callback (cmd_opcode decoded) (cmd_argument decoded)
                    (m\<lparr>graphics := g\<rparr>) in
          if cmd_opcode decoded = 0x0c then (Ended, m)
          else ge_loop words callbacks callback listid stall m)"

section \<open>Running a list\<close>

record Ge_System =
  sys_cpu :: State
  sys_graphics :: Ge_State
  sys_scheduler :: Scheduler
  sys_callbacks :: "int \<rightharpoonup> GeCallback"
  sys_packets :: "Packet list"

definition load_machine :: "Ge_System \<Rightarrow> DisplayList \<Rightarrow> u32 \<Rightarrow> Machine" where
  "load_machine y l start =
     \<lparr>cpu = sys_cpu y, graphics = sys_graphics y, frames = call_stack l, counter = start,
      visible = bounding_box_visible l, pending = [], packets = sys_packets y\<rparr>"

definition store_list :: "Machine \<Rightarrow> u32 \<Rightarrow> DisplayList \<Rightarrow> DisplayList" where
  "store_list m stall l =
     l\<lparr>bounding_box_visible := visible m, program_counter := counter m, stall_address := stall,
       call_stack := frames m\<rparr>"

text \<open>
  \<open>execute_ge_list\<close>. The callbacks to dispatch come back as a list: their dispatch runs guest
  code after the list is done and outside the lock.
\<close>

definition execute_ge_list ::
  "Ge_System \<Rightarrow> int \<Rightarrow> u32 \<Rightarrow> u32 \<Rightarrow> u32 \<Rightarrow> PendingCallback list \<times> Ge_System" where
  "execute_ge_list y i start stall callback =
     (case find_list (sys_scheduler y) i of
        None \<Rightarrow> ([], y)
      | Some l \<Rightarrow>
          let s = begin_list i (sys_scheduler y);
              (outcome, m) = ge_loop max_ge_command_words (sys_callbacks y) callback (of_int i)
                               stall (load_machine y l start);
              s = update_list i (store_list m stall) s;
              s = (case outcome of
                     Ended \<Rightarrow> finish_list i (counter m) List_completed s
                   | Failed \<Rightarrow> finish_list i (counter m) List_error s
                   | Stalled \<Rightarrow> stall_list i (counter m) stall s) in
          (pending m, y\<lparr>sys_cpu := cpu m, sys_graphics := graphics m, sys_scheduler := s,
                        sys_packets := packets m\<rparr>))"

section \<open>System calls\<close>

text \<open>
  The calls, with their arguments and result in the CPU's registers: the result is returned,
  the state updated. \<open>0x80000107\<close> is an invalid mode, \<open>0x80000100\<close> an unknown list.
\<close>

definition list_enqueue ::
  "bool \<Rightarrow> u32 \<Rightarrow> u32 \<Rightarrow> u32 \<Rightarrow> Ge_System \<Rightarrow> u32 \<times> PendingCallback list \<times> Ge_System" where
  "list_enqueue at_head start stall callback y =
     (let (i, s) = enqueue start stall callback at_head (sys_scheduler y);
          (cbs, y) = execute_ge_list (y\<lparr>sys_scheduler := s\<rparr>) i start stall callback in
      (of_int i, cbs, y))"

definition list_update_stall ::
  "u32 \<Rightarrow> u32 \<Rightarrow> Ge_System \<Rightarrow> u32 \<times> PendingCallback list \<times> Ge_System" where
  "list_update_stall listid stall y =
     (let i = sint listid in
      case find_list (sys_scheduler y) i of
        None \<Rightarrow> (0x80000100, [], y)
      | Some _ \<Rightarrow>
          (case update_stall i stall (sys_scheduler y) of
             (False, _) \<Rightarrow> (0x80000100, [], y)
           | (True, s) \<Rightarrow>
               (case find_list s i of
                  None \<Rightarrow> (0x80000100, [], y)
                | Some l \<Rightarrow>
                    let (cbs, y) = execute_ge_list (y\<lparr>sys_scheduler := s\<rparr>) i (program_counter l)
                                     stall (callback_id l) in
                    (0, cbs, y))))"

definition ge_break :: "u32 \<Rightarrow> Ge_System \<Rightarrow> u32 \<times> Ge_System" where
  "ge_break mode y =
     (if mode > 1 then (0x80000107, y)
      else let (i, s) = break_lists mode (sys_scheduler y) in
        (if mode = 0 \<and> i \<ge> 0 then of_int i else 0, y\<lparr>sys_scheduler := s\<rparr>))"

definition ge_continue :: "Ge_System \<Rightarrow> u32 \<times> PendingCallback list \<times> Ge_System" where
  "ge_continue y =
     (let (i, s) = continue_lists (sys_scheduler y); y = y\<lparr>sys_scheduler := s\<rparr> in
      if i \<ge> 0 then
        (case find_list s i of
           None \<Rightarrow> (0, [], y)
         | Some l \<Rightarrow>
             let (cbs, y) = execute_ge_list y (list_id l) (program_counter l) (stall_address l)
                              (callback_id l) in
             (0, cbs, y))
      else (0, [], y))"

definition list_sync :: "u32 \<Rightarrow> u32 \<Rightarrow> Ge_System \<Rightarrow> u32 + ListStatus" where
  "list_sync listid mode y =
     (if mode > 1 then Inl 0x80000107
      else if find_list (sys_scheduler y) (sint listid) = None then Inl 0x80000100
      else Inr (list_status (sys_scheduler y) (sint listid)))"

definition draw_sync :: "u32 \<Rightarrow> Ge_System \<Rightarrow> u32 + ListStatus" where
  "draw_sync mode y =
     (if mode > 1 then Inl 0x80000107 else Inr (draw_status (sys_scheduler y)))"

end
