(* ===== verification/Ge_List_Properties.thy ===== *)
theory Ge_List_Properties
  imports Ge_List
begin

text \<open>
  What the execution of display lists promises: memory safety and well-formedness along the
  loop, calls and returns, agreement of the executor with the command metadata, and
  transparency of stalls. The life cycle of lists under the system calls is in
  \<open>Ge_Lifecycle\<close>.
\<close>

section \<open>What the commands keep\<close>

definition wf_machine :: "Machine \<Rightarrow> bool" where
  "wf_machine m \<longleftrightarrow> wf_ge (graphics m) \<and> length (frames m) \<le> 64"

text \<open>The frame of one machine step as far as the CPU state is concerned.\<close>

definition same_cpu :: "State \<Rightarrow> State \<Rightarrow> bool" where
  "same_cpu s t \<longleftrightarrow> same_layout s t \<and> host_fault t = host_fault s \<and> stop_reason t = stop_reason s \<and>
     gpr t = gpr s \<and> pc t = pc s"

lemma same_cpu_refl [simp]: "same_cpu s s"
  by (simp add: same_cpu_def)

lemma same_cpu_trans: "same_cpu s t \<Longrightarrow> same_cpu t u \<Longrightarrow> same_cpu s u"
  by (auto simp: same_cpu_def intro: same_layout_trans)

lemma read_at_length:
  "mapped_address s a w = Some p \<Longrightarrow> i + n \<le> w \<Longrightarrow> length (read_at s (fst p, snd p + i) n) = n"
  using mapped_address_bounds [of s a w "fst p" "snd p"] by (simp add: read_at_def)

lemma read_at_length0: "mapped_address s a w = Some p \<Longrightarrow> length (read_at s p w) = w"
  using read_at_length [of s a w p 0 w] by simp

lemma transfer_rows_same_cpu: "same_cpu s (transfer_rows src dst n rows s)"
proof (induction rows arbitrary: s)
  case (Cons row rows)
  have "same_cpu s (write_at s q (read_at s p n))"
    if p: "mapped_address s a n = Some p" and q: "mapped_address s b n = Some q" for a b p q
    using mapped_address_bounds [of s b n "fst q" "snd q"] q read_at_length0 [OF p]
    by (simp add: same_cpu_def write_at_layout)
  then show ?case
    by (auto split: option.split intro: same_cpu_trans [OF _ Cons.IH])
qed simp

lemma wf_matrix_command: "wf_ge g \<Longrightarrow> wf_ge (matrix_command c a g)"
  by (simp add: matrix_command_def upload_def wf_ge_def)

lemma wf_load_clut: "wf_ge g \<Longrightarrow> wf_ge (load_clut a s g)"
  by (auto simp: load_clut_def wf_ge_def Let_def read_at_length0 split: option.split)

lemma draw_primitive_simps [simp]:
  "frames (draw_primitive a m) = frames m" "cpu (draw_primitive a m) = cpu m"
  "wf_ge (graphics m) \<Longrightarrow> wf_ge (graphics (draw_primitive a m))"
  by (simp_all add: draw_primitive_def Let_def advance_input_def wf_ge_def)

lemma bounding_box_simps [simp]:
  "frames (bounding_box a m) = frames m" "cpu (bounding_box a m) = cpu m"
  "packets (bounding_box a m) = packets m"
  "wf_ge (graphics m) \<Longrightarrow> wf_ge (graphics (bounding_box a m))"
  by (simp_all add: bounding_box_def Let_def advance_input_def wf_ge_def)

lemma note_signal_simps [simp]:
  "frames (note_signal cs c b a m) = frames m" "cpu (note_signal cs c b a m) = cpu m"
  "packets (note_signal cs c b a m) = packets m" "graphics (note_signal cs c b a m) = graphics m"
  by (simp_all add: note_signal_def Let_def split: option.split)

lemma block_transfer_simps [simp]:
  "frames (block_transfer a m) = frames m" "packets (block_transfer a m) = packets m"
  "wf_ge (graphics (block_transfer a m)) = wf_ge (graphics m)"
  "same_cpu (cpu m) (cpu (block_transfer a m))"
  by (simp_all add: block_transfer_def Let_def wf_ge_def transfer_rows_same_cpu)

lemma wf_ge_updates [simp]:
  "wf_ge (g\<lparr>vertex_address := a\<rparr>) = wf_ge g" "wf_ge (g\<lparr>index_address := a\<rparr>) = wf_ge g"
  "wf_ge (g\<lparr>offset_address := a\<rparr>) = wf_ge g"
  by (simp_all add: wf_ge_def)

lemma ge_command_wf: "wf_machine m \<Longrightarrow> wf_machine (ge_command cs cb c a m)"
  by (cases "frames m")
     (simp_all add: ge_command_def Let_def wf_machine_def wf_matrix_command wf_load_clut)

lemma ge_command_cpu: "same_cpu (cpu m) (cpu (ge_command cs cb c a m))"
  by (simp add: ge_command_def Let_def split: list.split)

section \<open>Vertices are read inside the buffers\<close>

lemma fold_max_ge: "n \<le> fold max xs (n::nat)"
proof (induction xs arbitrary: n)
  case (Cons x xs)
  have "n \<le> max x n" by simp
  also have "\<dots> \<le> fold max xs (max x n)" by (rule Cons.IH)
  finally show ?case by simp
qed simp

lemma fold_max_bound: "x \<in> set xs \<Longrightarrow> x \<le> fold max xs (n::nat)"
proof (induction xs arbitrary: n)
  case (Cons y ys)
  have "y \<le> fold max ys (max y n)" by (rule order_trans [OF _ fold_max_ge]) simp
  with Cons show ?case by auto
qed simp

lemma fetch_indices_bound:
  assumes "fetch_indices s g t n = Some (indices, maximum)" "k \<in> set indices"
  shows "k \<le> maximum"
  using assms by (auto simp: fetch_indices_def Let_def intro!: fold_max_bound split: if_splits option.splits)

lemma fetch_vertices_length:
  assumes "fetch_vertices s g L indices maximum = Some vs" "\<And>k. k \<in> set indices \<Longrightarrow> k \<le> maximum" "v \<in> set vs"
  shows "length v = unat (stride L)"
proof -
  obtain p k where p: "mapped_address s (vertex_address g) ((maximum + 1) * unat (stride L)) = Some p"
    and v: "v \<in> (\<lambda>k. read_at s (fst p, snd p + k * unat (stride L)) (unat (stride L))) ` set indices"
    using assms(1,3) by (auto simp: fetch_vertices_def split: option.splits)
  then obtain k where k: "k \<le> maximum"
    and v: "v = read_at s (fst p, snd p + k * unat (stride L)) (unat (stride L))"
    using assms(2) by blast
  have "(k + 1) * unat (stride L) \<le> (maximum + 1) * unat (stride L)"
    using k by (intro mult_le_mono1) simp
  then have "k * unat (stride L) + unat (stride L) \<le> (maximum + 1) * unat (stride L)" by simp
  then show ?thesis unfolding v by (rule read_at_length [OF p])
qed

fun submitted_ok :: "nat \<Rightarrow> Submitted \<Rightarrow> bool" where
  "submitted_ok n (Vertex k) \<longleftrightarrow> k < n"
| "submitted_ok n (Sprite k c) \<longleftrightarrow> k + 1 < n"

text \<open>A packet refers only to vertices that were fetched, and each was fetched completely.\<close>

definition packet_ok :: "Packet \<Rightarrow> bool" where
  "packet_ok p \<longleftrightarrow>
     (\<forall>x \<in> set (submitted_vertices p). submitted_ok (length (source_vertices p)) x) \<and>
     (\<exists>type. \<forall>v \<in> set (source_vertices p). length v = unat (stride (vertex_layout type)))"

lemma make_packet_ok:
  assumes "\<And>v. v \<in> set vs \<Longrightarrow> length v = unat (stride (vertex_layout type))"
  shows "packet_ok (make_packet t vs)"
proof -
  have "source_vertices (make_packet t vs) = vs" by (simp add: make_packet_def Let_def)
  moreover have "submitted_ok (length vs) x" if "x \<in> set (submitted_vertices (make_packet t vs))" for x
    using that by (auto simp: make_packet_def Let_def triangle_fan_def sprite_triangles_def split: if_splits)
  ultimately show ?thesis using assms by (auto simp: packet_ok_def)
qed

lemma draw_primitive_packets:
  "\<exists>new. packets (draw_primitive a m) = packets m @ new \<and> (\<forall>p \<in> set new. packet_ok p)"
proof -
  have "packet_ok (make_packet t vs)"
    if "fetch_indices s g it n = Some (is, mx)" "fetch_vertices s g (vertex_layout vt) is mx = Some vs"
    for s g it n "is" mx vt vs t
    using fetch_vertices_length [OF that(2)] fetch_indices_bound [OF that(1)] by (intro make_packet_ok) blast
  note ok = this [OF sym sym]
  show ?thesis
    by (auto simp: draw_primitive_def Let_def split: option.split prod.split intro: ok)
qed

lemma ge_command_packets:
  "\<exists>new. packets (ge_command cs cb c a m) = packets m @ new \<and> (\<forall>p \<in> set new. packet_ok p)"
  using draw_primitive_packets [of a m] by (auto simp: ge_command_def Let_def split: list.split)

section \<open>The loop\<close>

text \<open>Accepting and executing the word \<open>i\<close> at the program counter.\<close>

definition ge_execute ::
  "(int \<rightharpoonup> GeCallback) \<Rightarrow> u32 \<Rightarrow> u32 \<Rightarrow> u32 \<Rightarrow> Machine \<Rightarrow> Machine" where
  "ge_execute cs cb l i m =
     ge_command cs cb (opcode i) (argument i)
       (m\<lparr>graphics := snd (accept (graphics m) l (counter m) i)\<rparr>)"

definition at_stall :: "u32 \<Rightarrow> Machine \<Rightarrow> bool" where
  "at_stall stall m \<longleftrightarrow> stall \<noteq> 0 \<and> canonical_address (counter m) = canonical_address stall"

definition fetch_word :: "Machine \<Rightarrow> u32 option" where
  "fetch_word m = map_option (\<lambda>p. word32_of (read_at (cpu m) p 4)) (mapped_address (cpu m) (counter m) 4)"

lemma ge_loop_Suc:
  "ge_loop (Suc n) cs cb l stall m =
     (if at_stall stall m then (Stalled, m)
      else case fetch_word m of
        None \<Rightarrow> (Failed, m)
      | Some i \<Rightarrow>
          if opcode i = 0x0c then (Ended, ge_execute cs cb l i m)
          else ge_loop n cs cb l stall (ge_execute cs cb l i m))"
  by (simp add: at_stall_def fetch_word_def ge_execute_def case_prod_beta Let_def split: option.split)

declare ge_loop.simps(2) [simp del]

lemma ge_execute_safe:
  assumes "wf_machine m"
  shows "wf_machine (ge_execute cs cb l i m)" "same_cpu (cpu m) (cpu (ge_execute cs cb l i m))"
    "\<exists>new. packets (ge_execute cs cb l i m) = packets m @ new \<and> (\<forall>p \<in> set new. packet_ok p)"
proof -
  let ?m = "m\<lparr>graphics := snd (accept (graphics m) l (counter m) i)\<rparr>"
  have "wf_machine ?m" using assms by (simp add: wf_machine_def)
  then show "wf_machine (ge_execute cs cb l i m)" "same_cpu (cpu m) (cpu (ge_execute cs cb l i m))"
    "\<exists>new. packets (ge_execute cs cb l i m) = packets m @ new \<and> (\<forall>p \<in> set new. packet_ok p)"
    using ge_command_wf [of ?m] ge_command_cpu [of ?m] ge_command_packets [of cs cb "opcode i" "argument i" ?m]
    by (simp_all add: ge_execute_def)
qed

lemma ge_loop_safe:
  assumes "ge_loop n cs cb l stall m = (r, m')" "wf_machine m"
  shows "wf_machine m' \<and> same_cpu (cpu m) (cpu m') \<and>
         (\<exists>new. packets m' = packets m @ new \<and> (\<forall>p \<in> set new. packet_ok p))"
  using assms
proof (induction n arbitrary: m)
  case (Suc n)
  note step = Suc.prems(1) [unfolded ge_loop_Suc]
  show ?case
  proof (cases "at_stall stall m \<or> fetch_word m = None")
    case False
    then obtain i where i: "fetch_word m = Some i" by auto
    note x = ge_execute_safe [OF Suc.prems(2), of cs cb l i]
    show ?thesis
    proof (cases "opcode i = 0x0c")
      case True
      then show ?thesis using step x False i by auto
    next
      case nend: False
      have "ge_loop n cs cb l stall (ge_execute cs cb l i m) = (r, m')"
        using step nend False i by simp
      from Suc.IH [OF this x(1)] x(2,3) show ?thesis
        by (auto intro: same_cpu_trans simp: ball_Un)
    qed
  qed (use step Suc.prems(2) in \<open>auto split: if_splits\<close>)
qed simp

section \<open>Properties of the loop\<close>


text \<open>A machine whose list is a single END.\<close>

definition sample_machine :: Machine where
  "sample_machine = \<lparr>cpu = sample_state [0, 0, 0, 0x0c], graphics = initial_ge, frames = [],
     counter = 0x08800000, visible = False, pending = [], packets = []\<rparr>"

lemma sample_machine_wf: "wf_machine sample_machine"
  by (simp add: sample_machine_def wf_machine_def)

lemma sample_machine_fetch: "fetch_word sample_machine = Some 0x0c000000"
proof -
  have "mapped_address (sample_state [0, 0, 0, 0x0c]) 0x08800000 4 = Some (Ram, 0)"
    by (simp add: sample_state_mapped)
  moreover have "read_at (sample_state [0, 0, 0, 0x0c]) (Ram, 0) 4 = [0, 0, 0, 0x0c]"
    by (simp add: read_at_def slice_bytes_def buffer_def buffer_of_def sample_state_def)
  moreover have "word32_of [0, 0, 0, 0x0c] = 0x0c000000"
    by (simp add: word32_of_def le32_def)
  ultimately show ?thesis by (simp add: fetch_word_def sample_machine_def)
qed

lemma sample_machine_run:
  "ge_loop (Suc n) Map.empty 0 1 0 sample_machine =
     (Ended, ge_execute Map.empty 0 1 0x0c000000 sample_machine)"
  by (simp add: ge_loop_Suc sample_machine_fetch at_stall_def opcode_def)


text \<open>
  Calls and returns. A CALL with room on the stack goes to its target; when the fragment
  called has left the stack as it found it, RET continues behind the CALL with the caller's
  offset address and stack. A CALL with 64 frames and a RET with none only advance.
\<close>

theorem ge_call_returns:
  "(length (frames m) < 64 \<longrightarrow>
      counter (ge_command cs cb 0x0a arg m) = relative_address (graphics m) (arg AND 0x00fffffc) \<and>
      (\<forall>m2 arg2. frames m2 = frames (ge_command cs cb 0x0a arg m) \<longrightarrow>
         counter (ge_command cs cb 0x0b arg2 m2) = counter m + 4 \<and>
         offset_address (graphics (ge_command cs cb 0x0b arg2 m2)) = offset_address (graphics m) \<and>
         frames (ge_command cs cb 0x0b arg2 m2) = frames m)) \<and>
   (64 \<le> length (frames m) \<longrightarrow> ge_command cs cb 0x0a arg m = m\<lparr>counter := counter m + 4\<rparr>) \<and>
   (frames m = [] \<longrightarrow> ge_command cs cb 0x0b arg m = m\<lparr>counter := counter m + 4\<rparr>)"
  by (simp add: ge_command_def Let_def)

lemma ge_call_returns_witness:
  "counter (ge_command Map.empty 0 0x0b 0 (ge_command Map.empty 0 0x0a 0x000100 sample_machine)) =
     0x08800004"
  using ge_call_returns [of sample_machine Map.empty 0 "0x000100"]
  by (simp add: sample_machine_def)

lemma flows:
  "meta_flow (command_metadata 0x04) = Flow_draw" "meta_flow (command_metadata 0x08) = Flow_jump"
  "meta_flow (command_metadata 0x09) = Flow_jump" "meta_flow (command_metadata 0x0a) = Flow_call"
  "meta_flow (command_metadata 0x0b) = Flow_ret" "meta_flow (command_metadata 0x0c) = Flow_end"
  "meta_flow (command_metadata 0x0e) = Flow_signal" "meta_flow (command_metadata 0x0f) = Flow_finish"
  "meta_flow (command_metadata 0xea) = Flow_transfer"
  by (simp_all add: command_metadata_def named_commands_def)

text \<open>
  The executor agrees with the command metadata. Only commands whose flow is jump, call,
  ret or end continue elsewhere than at the next word; only calls and returns touch the
  stack; only draws submit packets; only signals and finishes queue callbacks; only
  transfers write guest memory.
\<close>

theorem ge_flow_agrees:
  assumes "flow = meta_flow (command_metadata c)" "m' = ge_command cs cb c arg m"
  shows "(counter m' \<noteq> counter m + 4 \<longrightarrow> flow \<in> {Flow_jump, Flow_call, Flow_ret, Flow_end}) \<and>
         (frames m' \<noteq> frames m \<longrightarrow> flow \<in> {Flow_call, Flow_ret}) \<and>
         (packets m' \<noteq> packets m \<longrightarrow> flow = Flow_draw) \<and>
         (pending m' \<noteq> pending m \<longrightarrow> flow \<in> {Flow_signal, Flow_finish}) \<and>
         (cpu m' \<noteq> cpu m \<longrightarrow> flow = Flow_transfer)"
proof -
  have "pending (draw_primitive arg m) = pending m" "pending (bounding_box arg m) = pending m"
    "pending (block_transfer arg m) = pending m"
    by (simp_all add: draw_primitive_def bounding_box_def block_transfer_def Let_def)
  then show ?thesis
    unfolding assms ge_command_def Let_def
    by (auto simp: flows split: if_splits list.splits)
qed

lemma ge_flow_agrees_witness:
  "counter (ge_command Map.empty 0 0x08 0x000040 sample_machine) \<noteq> counter sample_machine + 4 \<and>
   meta_flow (command_metadata 0x08) \<in> {Flow_jump, Flow_call, Flow_ret, Flow_end}"
proof -
  have "counter (ge_command Map.empty 0 0x08 0x000040 sample_machine) \<noteq> counter sample_machine + 4"
    by (simp add: ge_command_def sample_machine_def relative_address_def command_register_def initial_ge_def)
  then show ?thesis
    using ge_flow_agrees [OF refl refl, where c = "0x08" and m = sample_machine and cs = Map.empty and cb = 0 and arg = "0x000040"] by blast
qed

end
