(* ===== verification/Ge_Lifecycle.thy ===== *)
theory Ge_Lifecycle
  imports Ge_List_Properties
begin

text \<open>
  The life cycle of display lists under the system calls of the GE module
  (\<open>sceGeListEnQueue\<close>, \<open>sceGeListEnQueueHead\<close>, \<open>sceGeListUpdateStallAddr\<close>, \<open>sceGeBreak\<close>,
  \<open>sceGeContinue\<close>, \<open>sceGeListSync\<close>, \<open>sceGeDrawSync\<close>) and the context calls. A system call runs
  to its end before another one starts: guest threads take turns on the execution ticket
  lock and every call holds the graphics mutex while it works.
\<close>

section \<open>Context calls\<close>

text \<open>The words of a context in guest memory.\<close>

definition words_of_bytes :: "u8 list \<Rightarrow> u32 list" where
  "words_of_bytes bs = map (\<lambda>i. word32_of (slice_bytes bs (i * 4) 4)) [0..<length bs div 4]"

definition ge_save_context :: "u32 \<Rightarrow> Ge_System \<Rightarrow> u32 \<times> Ge_System" where
  "ge_save_context address y =
     (case mapped_address (sys_cpu y) address (context_word_count * 4) of
        None \<Rightarrow> (0x80000103, y)
      | Some p \<Rightarrow>
          if busy (sys_scheduler y) then (0xffffffff, y)
          else (0, y\<lparr>sys_cpu := write_at (sys_cpu y) p
                       (concat (map bytes32 (save_context (sys_graphics y))))\<rparr>))"

definition ge_restore_context :: "u32 \<Rightarrow> Ge_System \<Rightarrow> u32 \<times> Ge_System" where
  "ge_restore_context address y =
     (case mapped_address (sys_cpu y) address (context_word_count * 4) of
        None \<Rightarrow> (0x80000103, y)
      | Some p \<Rightarrow>
          if busy (sys_scheduler y) then (0x800201a7, y)
          else (0, y\<lparr>sys_graphics := restore_context
                       (words_of_bytes (read_at (sys_cpu y) p (context_word_count * 4)))
                       (sys_graphics y)\<rparr>))"

lemma words_of_bytes_concat: "words_of_bytes (concat (map bytes32 ws)) = ws"
proof -
  have len: "length (concat (map bytes32 ws)) = length ws * 4"
    by (induction ws) simp_all
  have "slice_bytes (concat (map bytes32 ws)) (i * 4) 4 = bytes32 (ws ! i)" if "i < length ws" for i
    using that
  proof (induction ws arbitrary: i)
    case (Cons w ws)
    then show ?case by (cases i) (simp_all add: slice_bytes_def)
  qed simp
  then show ?thesis
    unfolding words_of_bytes_def len by (intro nth_equalityI) simp_all
qed

lemma wf_restore_context:
  "wf_ge g \<Longrightarrow> 512 \<le> length ws \<Longrightarrow> wf_ge (restore_context ws g)"
  by (simp add: wf_ge_def restore_context_def Let_def)

section \<open>Reachable systems\<close>

inductive ge_reachable :: "Ge_System \<Rightarrow> bool" where
  start: "wf_ge g \<Longrightarrow>
    ge_reachable \<lparr>sys_cpu = s, sys_graphics = g, sys_scheduler = initial_scheduler,
                  sys_callbacks = cs, sys_packets = []\<rparr>"
| guest: "ge_reachable y \<Longrightarrow> ge_reachable (y\<lparr>sys_cpu := s\<rparr>)"
| callbacks: "ge_reachable y \<Longrightarrow> ge_reachable (y\<lparr>sys_callbacks := cs\<rparr>)"
| enqueue: "ge_reachable y \<Longrightarrow> ge_reachable (snd (snd (list_enqueue at_head a stall cb y)))"
| update_stall: "ge_reachable y \<Longrightarrow> ge_reachable (snd (snd (list_update_stall listid stall y)))"
| break: "ge_reachable y \<Longrightarrow> ge_reachable (snd (ge_break mode y))"
| continue: "ge_reachable y \<Longrightarrow> ge_reachable (snd (snd (ge_continue y)))"
| save: "ge_reachable y \<Longrightarrow> ge_reachable (snd (ge_save_context a y))"
| restore: "ge_reachable y \<Longrightarrow> ge_reachable (snd (ge_restore_context a y))"

section \<open>The invariant\<close>

text \<open>
  Between calls a list is in the queue exactly while it is stalled or paused, and otherwise
  completed or failed. Inside a call the list being worked on (\<open>x\<close>) may be in any state, as
  long as it is in the queue.
\<close>

definition settled :: "Scheduler \<Rightarrow> int \<Rightarrow> DisplayList \<Rightarrow> bool" where
  "settled s i l \<longleftrightarrow>
     (if i \<in> set (queue s) then list_state l \<in> {List_stalled, List_paused}
      else list_state l \<in> {List_completed, List_error})"

definition sched_inv :: "int set \<Rightarrow> Scheduler \<Rightarrow> bool" where
  "sched_inv x s \<longleftrightarrow> wf_scheduler s \<and> x \<subseteq> set (queue s) \<and>
     (\<forall>i l. lists s i = Some l \<longrightarrow> length (call_stack l) \<le> 64 \<and> (i \<notin> x \<longrightarrow> settled s i l))"

definition ge_inv :: "Ge_System \<Rightarrow> bool" where
  "ge_inv y \<longleftrightarrow> wf_ge (sys_graphics y) \<and> sched_inv {} (sys_scheduler y)"

lemma sched_inv_initial: "sched_inv {} initial_scheduler"
  by (simp add: sched_inv_def initial_scheduler_def wf_scheduler_def)

lemma sched_inv_enqueue:
  assumes "sched_inv {} s"
  shows "sched_inv {fst (enqueue a b c h s)} (snd (enqueue a b c h s))"
proof -
  let ?t = "snd (enqueue a b c h s)"
  have wf: "wf_scheduler s" and old: "\<And>i l. lists s i = Some l \<Longrightarrow> length (call_stack l) \<le> 64 \<and> settled s i l"
    using assms by (auto simp: sched_inv_def)
  have i: "fst (enqueue a b c h s) = next_id s" by (simp add: enqueue_def Let_def)
  have q: "set (queue ?t) = insert (next_id s) (set (queue s))"
    by (simp add: enqueue_def Let_def)
  have l: "lists ?t j = lists s j" if "j \<noteq> next_id s" for j
    using that by (simp add: enqueue_def Let_def)
  have "length (call_stack l) \<le> 64" if "lists ?t (next_id s) = Some l" for l
    using that fresh_id [OF wf] by (auto simp: enqueue_def Let_def)
  moreover have "length (call_stack l) \<le> 64 \<and> settled ?t j l"
    if "j \<noteq> next_id s" "lists ?t j = Some l" for j l
    using that old [of j l] by (auto simp: l settled_def q split: if_splits)
  ultimately have "length (call_stack l) \<le> 64 \<and> (j \<noteq> next_id s \<longrightarrow> settled ?t j l)"
    if "lists ?t j = Some l" for j l
    using that by (cases "j = next_id s") auto
  then show ?thesis
    using wf_enqueue [OF wf, of a b c h] by (auto simp: sched_inv_def i q)
qed

lemma settled_update [simp]: "settled (update_list i f s) = settled s"
  by (simp add: settled_def fun_eq_iff)

lemma settled_queued: "i \<in> set (queue s) \<Longrightarrow> settled s i l \<longleftrightarrow> list_state l \<in> {List_stalled, List_paused}"
  by (simp add: settled_def)

text \<open>Changing the list \<open>i\<close> of the queue in any way.\<close>

lemma sched_inv_update:
  assumes "sched_inv x s" "i \<in> set (queue s)" "\<And>l. list_id (f l) = list_id l"
    "\<And>l. length (call_stack l) \<le> 64 \<Longrightarrow> length (call_stack (f l)) \<le> 64"
  shows "sched_inv (insert i x) (update_list i f s)"
  using assms wf_update_list [of s f i]
  by (auto simp: sched_inv_def settled_queued)

text \<open>Settling the list \<open>i\<close>: in the queue as stalled or paused, or out of it.\<close>

lemma sched_inv_settle:
  assumes "sched_inv (insert i x) s" "i \<notin> x" "\<And>l. list_id (f l) = list_id l"
    "\<And>l. length (call_stack l) \<le> 64 \<Longrightarrow> length (call_stack (f l)) \<le> 64"
    "\<And>l. list_state (f l) \<in> {List_stalled, List_paused}"
  shows "sched_inv x (update_list i f s)"
  using assms wf_update_list [of s f i]
  by (auto simp: sched_inv_def settled_queued)

lemma sched_inv_finish:
  assumes "sched_inv {i} s" "st \<in> {List_completed, List_error}"
  shows "sched_inv {} (finish_list i p st s)"
proof -
  have "wf_scheduler (finish_list i p st s)"
    using assms(1) by (simp add: sched_inv_def wf_finish_list)
  moreover have "settled (finish_list i p st s) j = settled s j" if "j \<noteq> i" for j
    using that by (simp add: settled_def finish_list_def Let_def fun_eq_iff)
  moreover have "lists (finish_list i p st s) j = lists s j" if "j \<noteq> i" for j
    using that by (simp add: finish_list_def Let_def)
  moreover have "length (call_stack l) \<le> 64 \<and> settled (finish_list i p st s) i l"
    if "lists (finish_list i p st s) i = Some l" for l
    using that assms by (auto simp: finish_list_def Let_def settled_def sched_inv_def)
  ultimately show ?thesis
    using assms(1) unfolding sched_inv_def by (metis empty_iff empty_subsetI insertE)
qed

lemma sched_inv_break:
  "sched_inv {} s \<Longrightarrow> set ids \<subseteq> set (queue s) \<Longrightarrow> sched_inv {} (snd (break_loop mode ids c s))"
proof (induction ids arbitrary: c s)
  case (Cons i ids)
  have paused: "sched_inv {} (update_list i (list_state_update (\<lambda>_. List_paused)) s)"
  proof (rule sched_inv_settle)
    show "sched_inv (insert i {}) s" using Cons.prems by (auto simp: sched_inv_def)
  qed simp_all
  show ?case
    using Cons.prems Cons.IH [OF Cons.prems(1)] Cons.IH [OF paused] paused
    by (auto simp: Let_def split: option.split)
qed simp

lemma continue_loop_cases:
  "continue_loop ids s = (j, t) \<Longrightarrow>
     (j = -1 \<and> t = s) \<or>
     (j \<in> set ids \<and> t = update_list j (list_state_update (\<lambda>_. List_queued)) s)"
  by (induction ids) (auto split: option.splits if_splits)

lemma sched_inv_execute:
  assumes "sched_inv {i} (sys_scheduler y)" "wf_ge (sys_graphics y)"
  shows "ge_inv (snd (execute_ge_list y i start stall cb))"
proof -
  obtain l where l: "lists (sys_scheduler y) i = Some l"
    using assms(1) by (auto simp: sched_inv_def wf_scheduler_def)
  have stack: "length (call_stack l) \<le> 64" and q: "i \<in> set (queue (sys_scheduler y))"
    using assms(1) l by (auto simp: sched_inv_def)
  obtain r m where run: "ge_loop max_ge_command_words (sys_callbacks y) cb (of_int i) stall
      (load_machine y l start) = (r, m)" by fastforce
  have m: "wf_ge (graphics m)" "length (frames m) \<le> 64"
    using ge_loop_safe [OF run] stack assms(2) by (simp_all add: wf_machine_def load_machine_def)
  define s where "s = update_list i (store_list m stall) (begin_list i (sys_scheduler y))"
  have "sched_inv {i} (begin_list i (sys_scheduler y))"
    using sched_inv_update [OF assms(1) q, of "list_state_update (\<lambda>_. List_running)"]
    by (simp add: begin_list_def)
  from sched_inv_update [OF this, of i "store_list m stall"] have s: "sched_inv {i} s"
    using q m by (simp add: s_def begin_list_def store_list_def)
  have "sched_inv {} (case r of Ended \<Rightarrow> finish_list i (counter m) List_completed s
      | Failed \<Rightarrow> finish_list i (counter m) List_error s
      | Stalled \<Rightarrow> stall_list i (counter m) stall s)"
    using sched_inv_finish [OF s]
    by (auto simp: stall_list_def split: Outcome.split intro!: sched_inv_settle s)
  then show ?thesis
    using m by (simp add: execute_ge_list_def find_list_def l run ge_inv_def s_def [symmetric])
qed

lemma ge_inv_enqueue: "ge_inv y \<Longrightarrow> ge_inv (snd (snd (list_enqueue h a stall cb y)))"
  using sched_inv_execute [of "fst (enqueue a stall cb h (sys_scheduler y))"
      "y\<lparr>sys_scheduler := snd (enqueue a stall cb h (sys_scheduler y))\<rparr>" a stall cb]
    sched_inv_enqueue [of "sys_scheduler y" a stall cb h]
  by (simp add: list_enqueue_def ge_inv_def case_prod_beta Let_def)

lemma sched_inv_update_stall:
  assumes "sched_inv {} s" "update_stall i stall s = (True, t)"
  shows "sched_inv {i} t"
proof -
  obtain l where l: "lists s i = Some l" "list_state l \<notin> {List_completed, List_cancelled, List_error}"
    and t: "t = update_list i (\<lambda>l'. l'\<lparr>stall_address := stall,
      list_state := (if list_state l' = List_stalled \<and> program_counter l' \<noteq> stall
                     then List_queued else list_state l')\<rparr>) s"
    using assms(2) by (auto simp: update_stall_def find_list_def split: option.splits if_splits)
  have "settled s i l" using assms(1) l(1) by (simp add: sched_inv_def)
  then have "i \<in> set (queue s)" using l(2) by (auto simp: settled_def split: if_splits)
  then show ?thesis unfolding t by (intro sched_inv_update assms) simp_all
qed

lemma ge_inv_update_stall:
  assumes "ge_inv y"
  shows "ge_inv (snd (snd (list_update_stall listid stall y)))"
proof (cases "update_stall (sint listid) stall (sys_scheduler y)")
  case (Pair ok s)
  have "ge_inv (snd (execute_ge_list (y\<lparr>sys_scheduler := s\<rparr>) (sint listid) a stall cb))" if ok for a cb
    using sched_inv_update_stall [of "sys_scheduler y" "sint listid" stall s] Pair that assms
    by (intro sched_inv_execute) (simp_all add: ge_inv_def)
  then show ?thesis
    using assms Pair by (simp add: list_update_stall_def case_prod_beta Let_def split: option.split bool.split)
qed

lemma ge_inv_break: "ge_inv y \<Longrightarrow> ge_inv (snd (ge_break mode y))"
  using sched_inv_break [of "sys_scheduler y" "queue (sys_scheduler y)" mode "- 1"]
  by (simp add: ge_break_def ge_inv_def break_lists_def case_prod_beta Let_def)

lemma ge_inv_continue: "ge_inv y \<Longrightarrow> ge_inv (snd (snd (ge_continue y)))"
proof -
  assume inv: "ge_inv y"
  obtain i s where c: "continue_loop (queue (sys_scheduler y)) (sys_scheduler y) = (i, s)" by fastforce
  from continue_loop_cases [OF c] show ?thesis
  proof (elim disjE conjE)
    assume i: "i \<in> set (queue (sys_scheduler y))"
      and s: "s = update_list i (list_state_update (\<lambda>_. List_queued)) (sys_scheduler y)"
    have si: "sched_inv {i} s"
      unfolding s using inv i by (intro sched_inv_update) (simp_all add: ge_inv_def)
    then obtain l where l: "lists s i = Some l" "list_id l = i" and pos: "0 \<le> i"
      by (fastforce simp: sched_inv_def wf_scheduler_def)
    have "snd (snd (ge_continue y)) = snd (execute_ge_list (y\<lparr>sys_scheduler := s\<rparr>) i
        (program_counter l) (stall_address l) (callback_id l))"
      using pos l by (simp add: ge_continue_def continue_lists_def c find_list_def case_prod_beta Let_def)
    then show ?thesis
      using inv si by (simp add: ge_inv_def sched_inv_execute [unfolded ge_inv_def])
  qed (use inv in \<open>simp add: ge_continue_def continue_lists_def c ge_inv_def\<close>)
qed

lemma ge_inv_contexts:
  "ge_inv y \<Longrightarrow> ge_inv (snd (ge_save_context a y))" "ge_inv y \<Longrightarrow> ge_inv (snd (ge_restore_context a y))"
  by (auto simp: ge_save_context_def ge_restore_context_def ge_inv_def read_at_length0
      context_word_count_def words_of_bytes_def split: option.split intro!: wf_restore_context)

lemma ge_reachable_inv: "ge_reachable y \<Longrightarrow> ge_inv y"
proof (induction rule: ge_reachable.induct)
  case start
  then show ?case by (simp add: ge_inv_def sched_inv_initial)
next
  case (guest y s)
  then show ?case by (simp add: ge_inv_def)
next
  case (callbacks y cs)
  then show ?case by (simp add: ge_inv_def)
qed (simp_all add: ge_inv_enqueue ge_inv_update_stall ge_inv_break ge_inv_continue ge_inv_contexts)

lemma draw_status_loop_completed:
  "draw_status_loop s ids = Status_completed \<longleftrightarrow> (\<forall>i \<in> set ids. list_status s i = Status_completed)"
  by (induction ids) (auto simp: Let_def)

lemma queue_active:
  assumes "sched_inv {} s" "i \<in> set (queue s)"
  shows "list_status s i \<in> {Status_stalled, Status_paused}"
proof -
  obtain l where "lists s i = Some l" "settled s i l"
    using assms by (fastforce simp: sched_inv_def wf_scheduler_def)
  then show ?thesis using assms(2) by (auto simp: list_status_def find_list_def settled_def)
qed

text \<open>
  C7. The life of a display list. In every system reachable by GE system calls, arbitrary
  guest activity and context switches: the queue has no duplicates, a list in it is stalled
  or paused, a list outside it is completed or failed, and so \<open>sceGeDrawSync\<close> reports
  completion, and the engine counts as idle, exactly when the queue is empty. A finished list
  cannot be restarted: updating its stall address is refused and changes nothing.
\<close>

theorem ge_lifecycle:
  assumes "ge_reachable y"
  shows "distinct (queue (sys_scheduler y)) \<and>
         (\<forall>i l. lists (sys_scheduler y) i = Some l \<longrightarrow>
            list_id l = i \<and> length (call_stack l) \<le> 64 \<and>
            (if i \<in> set (queue (sys_scheduler y)) then list_state l \<in> {List_stalled, List_paused}
             else list_state l \<in> {List_completed, List_error})) \<and>
         (busy (sys_scheduler y) \<longleftrightarrow> queue (sys_scheduler y) \<noteq> []) \<and>
         (\<forall>listid stall. sint listid \<notin> set (queue (sys_scheduler y)) \<longrightarrow>
            list_update_stall listid stall y = (0x80000100, [], y))"
proof -
  have inv: "sched_inv {} (sys_scheduler y)"
    using ge_reachable_inv [OF assms] by (simp add: ge_inv_def)
  have "busy (sys_scheduler y) \<longleftrightarrow> queue (sys_scheduler y) \<noteq> []"
    using queue_active [OF inv] unfolding busy_def draw_status_def draw_status_loop_completed
    by (cases "queue (sys_scheduler y)") force+
  moreover have "list_update_stall listid stall y = (0x80000100, [], y)"
    if out: "sint listid \<notin> set (queue (sys_scheduler y))" for listid stall
  proof (cases "lists (sys_scheduler y) (sint listid)")
    case (Some l)
    then have "settled (sys_scheduler y) (sint listid) l"
      using inv by (simp add: sched_inv_def)
    then have "list_state l \<in> {List_completed, List_error}"
      using out by (simp add: settled_def)
    then show ?thesis using Some by (auto simp: list_update_stall_def find_list_def update_stall_def)
  qed (simp add: list_update_stall_def find_list_def)
  moreover have "list_id l = i \<and> length (call_stack l) \<le> 64 \<and> settled (sys_scheduler y) i l"
    if "lists (sys_scheduler y) i = Some l" for i l
    using inv that by (auto simp: sched_inv_def wf_scheduler_def)
  moreover have "distinct (queue (sys_scheduler y))"
    using inv by (simp add: sched_inv_def wf_scheduler_def)
  ultimately show ?thesis
    unfolding settled_def by blast
qed

lemma ge_lifecycle_witness:
  "busy (sys_scheduler (snd (snd (list_enqueue False 0x08800000 0x08800004 0
      \<lparr>sys_cpu = sample_state [0, 0, 0, 0x0c], sys_graphics = initial_ge,
       sys_scheduler = initial_scheduler, sys_callbacks = Map.empty, sys_packets = []\<rparr>)))) \<longleftrightarrow>
   queue (sys_scheduler (snd (snd (list_enqueue False 0x08800000 0x08800004 0
      \<lparr>sys_cpu = sample_state [0, 0, 0, 0x0c], sys_graphics = initial_ge,
       sys_scheduler = initial_scheduler, sys_callbacks = Map.empty, sys_packets = []\<rparr>)))) \<noteq> []"
  using ge_lifecycle [OF ge_reachable.enqueue [OF ge_reachable.start [OF wf_initial_ge]]] by blast

section \<open>Stalls are transparent\<close>

lemma ge_loop_more:
  "ge_loop n cs cb l stall m = (Ended, m') \<Longrightarrow> n \<le> k \<Longrightarrow> ge_loop k cs cb l stall m = (Ended, m')"
proof (induction n arbitrary: m k)
  case (Suc n)
  then obtain k' where "k = Suc k'" "n \<le> k'" by (cases k) auto
  with Suc show ?case
    by (auto simp: ge_loop_Suc split: if_splits option.splits)
qed simp

lemma ge_loop_resume:
  "ge_loop n cs cb l stall m = (Stalled, m1) \<Longrightarrow> ge_loop n cs cb l 0 m = (Ended, m') \<Longrightarrow>
   ge_loop n cs cb l 0 m1 = (Ended, m')"
proof (induction n arbitrary: m)
  case (Suc n)
  show ?case
  proof (cases "at_stall stall m")
    case True
    then show ?thesis using Suc.prems by (simp add: ge_loop_Suc)
  next
    case False
    then obtain i where i: "fetch_word m = Some i" "opcode i \<noteq> 0x0c"
      "ge_loop n cs cb l stall (ge_execute cs cb l i m) = (Stalled, m1)"
      using Suc.prems(1) by (auto simp: ge_loop_Suc split: option.splits if_splits)
    then have "ge_loop n cs cb l 0 (ge_execute cs cb l i m) = (Ended, m')"
      using Suc.prems(2) by (simp add: ge_loop_Suc at_stall_def)
    from Suc.IH [OF i(3) this] show ?thesis by (rule ge_loop_more) simp
  qed
qed simp

lemma pending_last:
  "m\<lparr>pending := p, graphics := g\<rparr> = m\<lparr>graphics := g, pending := p\<rparr>"
  "m\<lparr>pending := p, counter := c\<rparr> = m\<lparr>counter := c, pending := p\<rparr>"
  "m\<lparr>pending := p, frames := f\<rparr> = m\<lparr>frames := f, pending := p\<rparr>"
  "m\<lparr>pending := p, visible := v\<rparr> = m\<lparr>visible := v, pending := p\<rparr>"
  "m\<lparr>pending := p, cpu := s\<rparr> = m\<lparr>cpu := s, pending := p\<rparr>"
  "m\<lparr>pending := p, packets := q\<rparr> = m\<lparr>packets := q, pending := p\<rparr>"
  by (cases m; simp)+

text \<open>The callbacks queued before do not influence a run.\<close>

lemma note_signal_pending:
  "note_signal cs cb b a (m\<lparr>pending := ps @ pending m\<rparr>) =
     (note_signal cs cb b a m)\<lparr>pending := ps @ pending (note_signal cs cb b a m)\<rparr>"
  by (simp add: note_signal_def Let_def split: option.split)

lemma drawing_pending:
  "draw_primitive a (m\<lparr>pending := qs\<rparr>) = (draw_primitive a m)\<lparr>pending := qs\<rparr>"
  "bounding_box a (m\<lparr>pending := qs\<rparr>) = (bounding_box a m)\<lparr>pending := qs\<rparr>"
  "block_transfer a (m\<lparr>pending := qs\<rparr>) = (block_transfer a m)\<lparr>pending := qs\<rparr>"
  "pending (draw_primitive a m) = pending m" "pending (bounding_box a m) = pending m"
  "pending (block_transfer a m) = pending m"
  by (simp_all add: draw_primitive_def bounding_box_def block_transfer_def Let_def pending_last
      cong: option.case_cong prod.case_cong)

lemma machine_pending_simps:
  "graphics (m\<lparr>pending := qs\<rparr>) = graphics m" "counter (m\<lparr>pending := qs\<rparr>) = counter m"
  "cpu (m\<lparr>pending := qs\<rparr>) = cpu m" "visible (m\<lparr>pending := qs\<rparr>) = visible m"
  "frames (m\<lparr>pending := qs\<rparr>) = frames m"
  by simp_all

lemma if_pending:
  "(P \<Longrightarrow> x = x'\<lparr>pending := ps @ pending x'\<rparr>) \<Longrightarrow> (\<not> P \<Longrightarrow> y = y'\<lparr>pending := ps @ pending y'\<rparr>) \<Longrightarrow>
   (if P then x else y) = (if P then x' else y')\<lparr>pending := ps @ pending (if P then x' else y')\<rparr>"
  by simp

lemma ge_command_pending:
  "ge_command cs cb c a (m\<lparr>pending := ps @ pending m\<rparr>) =
     (ge_command cs cb c a m)\<lparr>pending := ps @ pending (ge_command cs cb c a m)\<rparr>"
  unfolding ge_command_def Let_def machine_pending_simps
  by (rule if_pending, simp add: pending_last drawing_pending note_signal_pending split: list.split)+
     (simp add: pending_last)

lemma ge_execute_pending:
  "ge_execute cs cb l i (m\<lparr>pending := ps @ pending m\<rparr>) =
     (ge_execute cs cb l i m)\<lparr>pending := ps @ pending (ge_execute cs cb l i m)\<rparr>"
  using ge_command_pending [of cs cb "opcode i" "argument i" ps
      "m\<lparr>graphics := snd (accept (graphics m) l (counter m) i)\<rparr>"]
  by (simp add: ge_execute_def pending_last)

lemma ge_loop_pending:
  "ge_loop n cs cb l stall (m\<lparr>pending := ps @ pending m\<rparr>) =
     (fst (ge_loop n cs cb l stall m),
      (snd (ge_loop n cs cb l stall m))\<lparr>pending := ps @ pending (snd (ge_loop n cs cb l stall m))\<rparr>)"
proof (induction n arbitrary: m)
  case (Suc n)
  have "at_stall stall (m\<lparr>pending := qs\<rparr>) = at_stall stall m" "fetch_word (m\<lparr>pending := qs\<rparr>) = fetch_word m" for qs
    by (simp_all add: at_stall_def fetch_word_def)
  then show ?case
    by (simp add: ge_loop_Suc ge_execute_pending Suc.IH split: option.split)
qed simp

text \<open>The result of running a list, by outcome.\<close>

definition settle :: "Outcome \<Rightarrow> int \<Rightarrow> DisplayList \<Rightarrow> Scheduler \<Rightarrow> Scheduler" where
  "settle r i l s =
     (case r of
        Ended \<Rightarrow> s\<lparr>lists := (lists s)(i \<mapsto> l\<lparr>list_state := List_completed\<rparr>),
                    queue := filter (\<lambda>j. j \<noteq> i) (queue s)\<rparr>
      | Failed \<Rightarrow> s\<lparr>lists := (lists s)(i \<mapsto> l\<lparr>list_state := List_error\<rparr>),
                     queue := filter (\<lambda>j. j \<noteq> i) (queue s)\<rparr>
      | Stalled \<Rightarrow> s\<lparr>lists := (lists s)(i \<mapsto> l\<lparr>list_state := List_stalled\<rparr>)\<rparr>)"

lemma execute_result:
  assumes "lists (sys_scheduler y) i = Some l"
    and "ge_loop max_ge_command_words (sys_callbacks y) cb (of_int i) stall (load_machine y l start) = (r, m)"
  shows "execute_ge_list y i start stall cb =
     (pending m, y\<lparr>sys_cpu := cpu m, sys_graphics := graphics m,
        sys_scheduler := settle r i (store_list m stall l) (sys_scheduler y), sys_packets := packets m\<rparr>)"
  using assms
  by (cases r; cases l) (simp_all add: execute_ge_list_def find_list_def settle_def begin_list_def stall_list_def
      finish_list_def update_list_def store_list_def Let_def)

lemma settle_lookup:
  "lists (settle r i l s) i =
     Some (l\<lparr>list_state := (case r of Ended \<Rightarrow> List_completed | Failed \<Rightarrow> List_error | Stalled \<Rightarrow> List_stalled)\<rparr>)"
  by (cases r) (simp_all add: settle_def)

text \<open>Resuming a stalled list continues with the machine the stall left, with no callbacks queued.\<close>

lemma load_store_machine:
  assumes "lists s i = Some l" "call_stack l = frames m" "bounding_box_visible l = visible m"
  shows "load_machine (y\<lparr>sys_cpu := cpu m, sys_graphics := graphics m, sys_scheduler := s,
           sys_packets := packets m\<rparr>) l (counter m) = m\<lparr>pending := []\<rparr>"
  using assms by (cases m) (simp add: load_machine_def)

lemma update_stall_stalled:
  assumes "lists s i = Some l" "list_state l = List_stalled"
  shows "\<exists>st. update_stall i a s =
           (True, s\<lparr>lists := (lists s)(i \<mapsto> l\<lparr>stall_address := a, list_state := st\<rparr>)\<rparr>)"
  using assms by (auto simp: update_stall_def find_list_def update_list_def)

lemma enqueue_lookup:
  "wf_scheduler s \<Longrightarrow> lists (snd (enqueue start stall cb h s)) (next_id s) =
     Some \<lparr>list_id = next_id s, start_address = start, program_counter = start, stall_address = stall,
           callback_id = cb, call_stack = [], list_state = List_queued, bounding_box_visible = False\<rparr>"
  by (simp add: enqueue_def Let_def fresh_id)

lemma sint_of_int: "0 \<le> i \<Longrightarrow> i < 2 ^ 31 \<Longrightarrow> sint (of_int i :: u32) = i"
  by (simp add: signed_of_int signed_take_bit_int_eq_self)

definition queued_list :: "int \<Rightarrow> u32 \<Rightarrow> u32 \<Rightarrow> u32 \<Rightarrow> DisplayList" where
  "queued_list i start stall cb =
     \<lparr>list_id = i, start_address = start, program_counter = start, stall_address = stall,
      callback_id = cb, call_stack = [], list_state = List_queued, bounding_box_visible = False\<rparr>"

lemma enqueue_eq:
  "wf_scheduler s \<Longrightarrow> enqueue start stall cb h s =
     (next_id s, s\<lparr>next_id := next_id s + 1, lists := (lists s)(next_id s \<mapsto> queued_list (next_id s) start stall cb),
       queue := (if h then next_id s # queue s else queue s @ [next_id s])\<rparr>)"
  by (simp add: enqueue_def Let_def fresh_id queued_list_def)

lemma list_enqueue_result:
  assumes "wf_scheduler (sys_scheduler y)" "i = next_id (sys_scheduler y)"
    and "s = snd (enqueue start stall cb h (sys_scheduler y))"
    and "ge_loop max_ge_command_words (sys_callbacks y) cb (of_int i) stall
           (load_machine y (queued_list i start 0 cb) start) = (r, m)"
  shows "list_enqueue h start stall cb y =
     (of_int i, pending m, y\<lparr>sys_cpu := cpu m, sys_graphics := graphics m,
        sys_scheduler := settle r i (store_list m stall (queued_list i start stall cb)) s,
        sys_packets := packets m\<rparr>)"
proof -
  have "lists s i = Some (queued_list i start stall cb)"
    using assms by (simp add: enqueue_eq)
  moreover have "load_machine (y\<lparr>sys_scheduler := s\<rparr>) (queued_list i start stall cb) start =
      load_machine y (queued_list i start 0 cb) start"
    by (simp add: load_machine_def queued_list_def)
  ultimately have "execute_ge_list (y\<lparr>sys_scheduler := s\<rparr>) i start stall cb =
     (pending m, y\<lparr>sys_scheduler := s\<rparr>\<lparr>sys_cpu := cpu m, sys_graphics := graphics m,
        sys_scheduler := settle r i (store_list m stall (queued_list i start stall cb)) s,
        sys_packets := packets m\<rparr>)"
    using assms(4) by (subst execute_result [where r = r and m = m]) simp_all
  then show ?thesis
    using assms(2,3) by (simp add: list_enqueue_def case_prod_beta enqueue_def Let_def) 
qed

text \<open>Releasing the stalled list \<open>i\<close> of a system, when the rest of it runs to its END.\<close>

lemma list_update_stall_result:
  assumes s: "s = settle Stalled i (store_list m1 stall l) t" and i: "sint listid = i"
    and run: "ge_loop max_ge_command_words (sys_callbacks y) (callback_id l) (of_int i) 0
                (m1\<lparr>pending := []\<rparr>) = (Ended, m2)"
    and y: "y1 = y\<lparr>sys_cpu := cpu m1, sys_graphics := graphics m1, sys_scheduler := s,
                   sys_packets := packets m1\<rparr>"
  shows "list_update_stall listid 0 y1 =
     (0, pending m2, y\<lparr>sys_cpu := cpu m2, sys_graphics := graphics m2,
        sys_scheduler := settle Ended i (store_list m2 0 l) t, sys_packets := packets m2\<rparr>)"
proof -
  define l1 where "l1 = (store_list m1 stall l)\<lparr>list_state := List_stalled\<rparr>"
  have l1: "lists s i = Some l1" by (simp add: s settle_def l1_def)
  obtain st where st: "update_stall i 0 s =
      (True, s\<lparr>lists := (lists s)(i \<mapsto> l1\<lparr>stall_address := 0, list_state := st\<rparr>)\<rparr>)"
    using update_stall_stalled [OF l1, of 0] by (auto simp: l1_def)
  define l2 where "l2 = l1\<lparr>stall_address := 0, list_state := st\<rparr>"
  define s2 where "s2 = s\<lparr>lists := (lists s)(i \<mapsto> l2)\<rparr>"
  have l2: "lists s2 i = Some l2" "program_counter l2 = counter m1" "callback_id l2 = callback_id l"
    by (simp_all add: s2_def l2_def l1_def store_list_def)
  have y2: "y1\<lparr>sys_scheduler := s2\<rparr> = y\<lparr>sys_cpu := cpu m1, sys_graphics := graphics m1,
      sys_scheduler := s2, sys_packets := packets m1\<rparr>"
    by (cases y) (simp add: y)
  have m: "load_machine (y1\<lparr>sys_scheduler := s2\<rparr>) l2 (counter m1) = m1\<lparr>pending := []\<rparr>"
    unfolding y2 by (rule load_store_machine [OF l2(1)]) (simp_all add: l2_def l1_def store_list_def)
  have "execute_ge_list (y1\<lparr>sys_scheduler := s2\<rparr>) i (counter m1) 0 (callback_id l) =
     (pending m2, y1\<lparr>sys_scheduler := s2\<rparr>\<lparr>sys_cpu := cpu m2, sys_graphics := graphics m2,
        sys_scheduler := settle Ended i (store_list m2 0 l2) s2, sys_packets := packets m2\<rparr>)"
    using l2(1) run m by (subst execute_result [where r = Ended and m = m2]) (simp_all add: y)
  moreover have "settle Ended i (store_list m2 0 l2) s2 = settle Ended i (store_list m2 0 l) t"
    by (cases l) (simp add: settle_def s2_def s l2_def l1_def store_list_def)
  ultimately show ?thesis
    using st l1 l2 unfolding list_update_stall_def i Let_def find_list_def
    by (cases y) (simp add: y flip: l2_def s2_def)
qed


text \<open>A system whose memory holds a NOP and an END.\<close>

definition sample_system :: Ge_System where
  "sample_system = \<lparr>sys_cpu = sample_state [0, 0, 0, 0, 0, 0, 0, 0x0c], sys_graphics = initial_ge,
     sys_scheduler = initial_scheduler, sys_callbacks = Map.empty, sys_packets = []\<rparr>"

definition sample_start :: Machine where
  "sample_start = load_machine sample_system (queued_list 1 0x08800000 0 0) 0x08800000"

lemma sample_start_run:
  obtains m1 m2 where "ge_loop max_ge_command_words Map.empty 0 1 0x08800004 sample_start = (Stalled, m1)"
    and "ge_loop max_ge_command_words Map.empty 0 1 0 sample_start = (Ended, m2)"
proof -
  let ?s = "sample_state [0, 0, 0, 0, 0, 0, 0, 0x0c]"
  have start: "cpu sample_start = ?s" "counter sample_start = 0x08800000"
    by (simp_all add: sample_start_def load_machine_def sample_system_def)
  have p: "mapped_address ?s 0x08800000 4 = Some (Ram, 0)" "mapped_address ?s 0x08800004 4 = Some (Ram, 4)"
    by (simp_all add: sample_state_mapped)
  have r: "read_at ?s (Ram, 0) 4 = [0, 0, 0, 0]" "read_at ?s (Ram, 4) 4 = [0, 0, 0, 0x0c]"
    by (simp_all add: read_at_def slice_bytes_def buffer_def buffer_of_def sample_state_def)
  have w: "word32_of [0, 0, 0, 0] = 0" "word32_of [0, 0, 0, 0x0c] = 0x0c000000"
    by (simp_all add: word32_of_def le32_def)
  define nxt where "nxt = ge_execute Map.empty 0 1 0 sample_start"
  have n: "cpu nxt = ?s" "counter nxt = 0x08800004"
    by (simp_all add: nxt_def ge_execute_def ge_command_def opcode_def start)
  have f: "fetch_word sample_start = Some 0" "fetch_word nxt = Some 0x0c000000"
    by (simp_all add: fetch_word_def start n p r w)
  have "max_ge_command_words = Suc (Suc (2 ^ 20 - 2))"
    by (simp add: max_ge_command_words_def)
  then obtain k where k: "max_ge_command_words = Suc (Suc k)" by blast
  have "ge_loop max_ge_command_words Map.empty 0 1 0x08800004 sample_start = (Stalled, nxt)"
    by (simp add: k ge_loop_Suc at_stall_def start n f opcode_def canonical_address_def flip: nxt_def)
  moreover have "ge_loop max_ge_command_words Map.empty 0 1 0 sample_start =
      (Ended, ge_execute Map.empty 0 1 0x0c000000 nxt)"
    by (simp add: k ge_loop_Suc at_stall_def f opcode_def flip: nxt_def)
  ultimately show thesis by (rule that)
qed


end
