(* ===== verification/Guest_Heap.thy ===== *)
theory Guest_Heap
  imports Prelude "HOL-Library.Multiset"
begin

text \<open>
  The allocator of guest memory in \<open>refract/src/runtime.cpp\<close>: a heap that grows upwards
  (\<open>heap_cursor\<close>), thread stacks that grow downwards (\<open>stack_cursor\<close>), and a list of freed
  blocks that is searched first fit and merged when a block is freed. The cursors are
  relative to the base of guest memory, blocks hold absolute addresses, and both are 32-bit
  values that the code computes with wrap-around.

  The contract of a block allocator is the locale \<open>block_allocator\<close>: the blocks handed out
  and not yet freed lie in the arena and do not overlap, along every sequence of operations.
  It is interpreted here for the heap and in \<open>Memory_Pools\<close> for variable pools.
\<close>

section \<open>Blocks\<close>

record MemoryBlock =
  block_address :: u32
  block_size :: u32

abbreviation block :: "u32 \<Rightarrow> u32 \<Rightarrow> MemoryBlock" where
  "block a n \<equiv> \<lparr>block_address = a, block_size = n\<rparr>"

definition align_up :: "u32 \<Rightarrow> u32 \<Rightarrow> u32" where
  "align_up value alignment = (value + alignment - 1) AND NOT (alignment - 1)"

text \<open>The bytes of a block, and how many blocks of a list contain the byte \<open>x\<close>.\<close>

definition in_block :: "MemoryBlock \<Rightarrow> nat \<Rightarrow> bool" where
  "in_block b x \<longleftrightarrow> unat (block_address b) \<le> x \<and> x < unat (block_address b) + unat (block_size b)"

fun cover :: "MemoryBlock list \<Rightarrow> nat \<Rightarrow> nat" where
  "cover [] x = 0"
| "cover (b # bs) x = (if in_block b x then 1 else 0) + cover bs x"

lemma cover_append [simp]: "cover (xs @ ys) x = cover xs x + cover ys x"
  by (induction xs) simp_all

lemma cover_mset: "mset xs = mset ys \<Longrightarrow> cover xs x = cover ys x"
proof -
  have "cover zs x = length (filter (\<lambda>b. in_block b x) zs)" for zs
    by (induction zs) simp_all
  then show "mset xs = mset ys \<Longrightarrow> cover xs x = cover ys x" by (metis mset_filter size_mset)
qed

lemma cover_remove1: "b \<in> set xs \<Longrightarrow> cover (b # remove1 b xs) x = cover xs x"
  by (rule cover_mset) simp

lemma cover_zero: "(\<And>b. b \<in> set bs \<Longrightarrow> \<not> in_block b x) \<Longrightarrow> cover bs x = 0"
  by (induction bs) simp_all

lemma in_cover: "b \<in> set bs \<Longrightarrow> in_block b x \<Longrightarrow> 1 \<le> cover bs x"
  by (induction bs) auto

text \<open>Two places of a list that share a byte cover it twice.\<close>

lemma cover_two:
  "i < j \<Longrightarrow> j < length bs \<Longrightarrow> in_block (bs ! i) x \<Longrightarrow> in_block (bs ! j) x \<Longrightarrow> 2 \<le> cover bs x"
proof (induction bs arbitrary: i j)
  case (Cons b bs)
  then obtain k where j: "j = Suc k" by (cases j) auto
  show ?case
  proof (cases i)
    case 0
    then have "1 \<le> cover bs x" using Cons.prems j by (intro in_cover [of "bs ! k"]) auto
    then show ?thesis using 0 Cons.prems by simp
  next
    case (Suc i')
    then have "2 \<le> cover bs x" using Cons.prems j by (intro Cons.IH [of i' k]) auto
    then show ?thesis by simp
  qed
qed simp

section \<open>The contract of an allocator\<close>

text \<open>
  \<open>alloc s r\<close> hands out a block for a request \<open>r\<close> or fails; \<open>free s b\<close> takes one
  back. \<open>inv L s\<close> says that \<open>s\<close> is consistent when exactly the blocks of \<open>L\<close> are handed out.
\<close>

locale block_allocator =
  fixes alloc :: "'s \<Rightarrow> 'r \<Rightarrow> (MemoryBlock \<times> 's) option"
    and free :: "'s \<Rightarrow> MemoryBlock \<Rightarrow> 's"
    and inv :: "MemoryBlock list \<Rightarrow> 's \<Rightarrow> bool"
    and arena :: "'s \<Rightarrow> nat \<Rightarrow> bool"
    and valid_request :: "'r \<Rightarrow> bool"
    and request_size :: "'r \<Rightarrow> u32"
  assumes live_once: "inv L s \<Longrightarrow> cover L x \<le> 1"
    and live_arena: "inv L s \<Longrightarrow> b \<in> set L \<Longrightarrow> in_block b x \<Longrightarrow> arena s x"
    and alloc_inv: "inv L s \<Longrightarrow> valid_request r \<Longrightarrow> alloc s r = Some (b, t) \<Longrightarrow> inv (b # L) t"
    and alloc_size: "inv L s \<Longrightarrow> valid_request r \<Longrightarrow> alloc s r = Some (b, t) \<Longrightarrow>
          unat (request_size r) \<le> unat (block_size b)"
    and free_inv: "inv L s \<Longrightarrow> b \<in> set L \<Longrightarrow> inv (remove1 b L) (free s b)"
begin

text \<open>
  A client: requests and releases by position among the blocks it holds. A failed request
  and a release of nothing change nothing.
\<close>

fun client :: "('r + nat) list \<Rightarrow> MemoryBlock list \<Rightarrow> 's \<Rightarrow> MemoryBlock list \<times> 's" where
  "client [] L s = (L, s)"
| "client (Inl r # ops) L s =
     (case (if valid_request r then alloc s r else None) of
        None \<Rightarrow> client ops L s
      | Some (b, t) \<Rightarrow> client ops (b # L) t)"
| "client (Inr i # ops) L s =
     (if i < length L then client ops (remove1 (L ! i) L) (free s (L ! i)) else client ops L s)"

lemma client_inv: "inv L s \<Longrightarrow> inv (fst (client ops L s)) (snd (client ops L s))"
proof (induction ops arbitrary: L s)
  case (Cons op ops)
  show ?case
  proof (cases op)
    case (Inl r)
    then show ?thesis
      using Cons alloc_inv [OF Cons.prems] by (auto split: option.split)
  next
    case (Inr i)
    have "inv (remove1 (L ! i) L) (free s (L ! i))" if "i < length L"
      using Cons.prems that by (intro free_inv) simp_all
    then show ?thesis using Inr Cons by simp
  qed
qed simp

lemma live_disjoint:
  assumes "inv L s" "i < j" "j < length L"
  shows "\<not> (in_block (L ! i) x \<and> in_block (L ! j) x)"
  using cover_two [OF assms(2,3), of x] live_once [OF assms(1), of x] by auto

lemma client_disjoint:
  assumes "inv L s" "client ops L s = (L', t)" "i < j" "j < length L'"
  shows "\<not> (in_block (L' ! i) x \<and> in_block (L' ! j) x)"
  using client_inv [OF assms(1), of ops] assms by (intro live_disjoint [of L' t]) simp_all

lemma alloc_fresh:
  assumes "inv L s" "valid_request r" "alloc s r = Some (b, t)" "b' \<in> set L"
  shows "\<not> (in_block b x \<and> in_block b' x)"
  using live_once [OF alloc_inv [OF assms(1-3)], of x] in_cover [OF assms(4), of x] by auto

end

section \<open>The heap\<close>

record Heap =
  memory_start :: u32
  heap_cursor :: u32
  stack_cursor :: u32
  free_heap_blocks :: "MemoryBlock list"

text \<open>
  The first block that holds the request at an aligned address, with the aligned address
  and the list without the block. The guards are the code's, with its wrap-around.
\<close>

fun find_fit :: "u32 \<Rightarrow> u32 \<Rightarrow> MemoryBlock list \<Rightarrow> (MemoryBlock \<times> u32 \<times> MemoryBlock list) option" where
  "find_fit n alignment [] = None"
| "find_fit n alignment (b # bs) =
     (let address = align_up (block_address b) alignment in
      if address < block_address b \<or> address - block_address b > block_size b \<or>
         n > block_size b - (address - block_address b)
      then map_option (\<lambda>(f, a, rest). (f, a, b # rest)) (find_fit n alignment bs)
      else Some (b, address, bs))"

definition allocate_heap :: "Heap \<Rightarrow> u32 \<Rightarrow> u32 \<Rightarrow> u32 \<times> Heap" where
  "allocate_heap h n alignment =
     (case find_fit n alignment (free_heap_blocks h) of
        Some (b, address, rest) \<Rightarrow>
          let end_address = address + n; block_end = block_address b + block_size b in
          (address, h\<lparr>free_heap_blocks := rest @
             (if address > block_address b then [block (block_address b) (address - block_address b)] else []) @
             (if end_address < block_end then [block end_address (block_end - end_address)] else [])\<rparr>)
      | None \<Rightarrow>
          let address = align_up (heap_cursor h) alignment in
          if n > stack_cursor h \<or> address > stack_cursor h - n then (0, h)
          else (memory_start h + address, h\<lparr>heap_cursor := address + n\<rparr>))"

text \<open>The loop that merges neighbours in the sorted list.\<close>

fun coalesce :: "MemoryBlock list \<Rightarrow> MemoryBlock list" where
  "coalesce (a # b # bs) =
     (if block_address a + block_size a = block_address b
      then coalesce (block (block_address a) (block_size a + block_size b) # bs)
      else a # coalesce (b # bs))"
| "coalesce bs = bs"

definition free_heap :: "Heap \<Rightarrow> u32 \<Rightarrow> u32 \<Rightarrow> Heap" where
  "free_heap h address n =
     (if address = 0 \<or> n = 0 then h
      else h\<lparr>free_heap_blocks :=
             coalesce (sort_key block_address (free_heap_blocks h @ [block address n]))\<rparr>)"

definition allocate_stack :: "Heap \<Rightarrow> u32 \<Rightarrow> u32 \<times> Heap" where
  "allocate_stack h n =
     (let n = align_up n 64 in
      if n > stack_cursor h \<or> stack_cursor h - n < heap_cursor h then (0, h)
      else (memory_start h + (stack_cursor h - n), h\<lparr>stack_cursor := stack_cursor h - n\<rparr>))"

section \<open>The heap keeps blocks apart\<close>

text \<open>
  What a thread or a system call may ask for: a heap block of a size at an alignment, or a
  stack. Alignments are powers of two up to 64; a stack that would wrap when it is rounded
  up is excluded (see \<open>allocate_stack_wraps\<close>).
\<close>

datatype Heap_request = Heap_block u32 u32 | Thread_stack u32

fun heap_request :: "Heap \<Rightarrow> Heap_request \<Rightarrow> (MemoryBlock \<times> Heap) option" where
  "heap_request h (Heap_block n alignment) =
     (let (a, t) = allocate_heap h n alignment in if a = 0 then None else Some (block a n, t))"
| "heap_request h (Thread_stack n) =
     (let (a, t) = allocate_stack h n in if a = 0 then None else Some (block a (align_up n 64), t))"

definition heap_release :: "Heap \<Rightarrow> MemoryBlock \<Rightarrow> Heap" where
  "heap_release h b = free_heap h (block_address b) (block_size b)"

fun heap_valid :: "Heap_request \<Rightarrow> bool" where
  "heap_valid (Heap_block n alignment) \<longleftrightarrow> (\<exists>k \<le> 6. alignment = 2 ^ k)"
| "heap_valid (Thread_stack n) \<longleftrightarrow> n \<le> 0xffffffc0"

fun request_bytes :: "Heap_request \<Rightarrow> u32" where
  "request_bytes (Heap_block n alignment) = n"
| "request_bytes (Thread_stack n) = n"

text \<open>The bytes between the two cursors are neither free blocks nor handed out.\<close>

definition in_gap :: "Heap \<Rightarrow> nat \<Rightarrow> bool" where
  "in_gap h x \<longleftrightarrow> unat (memory_start h) + unat (heap_cursor h) \<le> x \<and>
                x < unat (memory_start h) + unat (stack_cursor h)"

definition heap_inv :: "nat \<Rightarrow> MemoryBlock list \<Rightarrow> Heap \<Rightarrow> bool" where
  "heap_inv limit L h \<longleftrightarrow>
     memory_start h \<noteq> 0 \<and> limit + 64 \<le> 2 ^ 32 \<and>
     unat (heap_cursor h) \<le> unat (stack_cursor h) \<and>
     unat (memory_start h) + unat (stack_cursor h) \<le> limit \<and>
     (\<forall>x. cover (free_heap_blocks h) x + cover L x + (if in_gap h x then 1 else 0)
        \<le> (if unat (memory_start h) \<le> x \<and> x < limit then 1 else 0))"

lemma heap_inv_bounds:
  assumes "heap_inv limit L h" "b \<in> set (free_heap_blocks h) \<or> b \<in> set L"
  shows "unat (block_address b) + unat (block_size b) < 2 ^ 32"
proof (cases "block_size b = 0")
  case True
  then show ?thesis using unsigned_less [of "block_address b", where 'a = nat] by simp
next
  case False
  define x where "x = unat (block_address b) + unat (block_size b) - 1"
  have pos: "0 < unat (block_size b)" using False by (simp add: unat_gt_0)
  then have "in_block b x" by (auto simp: in_block_def x_def)
  then have "1 \<le> cover (free_heap_blocks h) x + cover L x"
    using assms(2) in_cover [of b _ x] by (metis trans_le_add1 trans_le_add2)
  moreover have "cover (free_heap_blocks h) x + cover L x + (if in_gap h x then 1 else 0)
      \<le> (if unat (memory_start h) \<le> x \<and> x < limit then 1 else 0)"
    using assms(1) by (simp add: heap_inv_def)
  ultimately have "x < limit" by (auto split: if_splits)
  moreover have "limit + 64 \<le> 2 ^ 32" using assms(1) by (simp add: heap_inv_def)
  ultimately show ?thesis using pos unfolding x_def by linarith
qed

text \<open>A list of blocks may be replaced by one that covers no byte more often.\<close>

lemma heap_inv_cover:
  assumes "heap_inv limit L h" "\<And>x. cover bs x + cover L' x \<le> cover (free_heap_blocks h) x + cover L x"
  shows "heap_inv limit L' (h\<lparr>free_heap_blocks := bs\<rparr>)"
proof -
  have "in_gap (h\<lparr>free_heap_blocks := bs\<rparr>) = in_gap h" by (simp add: in_gap_def fun_eq_iff)
  moreover have "cover bs x + cover L' x + g \<le> m"
    if "cover (free_heap_blocks h) x + cover L x + g \<le> m" for x g m
    using assms(2) [of x] that by linarith
  ultimately show ?thesis
    using assms(1) by (simp add: heap_inv_def)
qed

lemma find_fit_spec:
  "find_fit n alignment bs = Some (b, a, rest) \<Longrightarrow>
     mset bs = add_mset b (mset rest) \<and> b \<in> set bs \<and> a = align_up (block_address b) alignment \<and>
     block_address b \<le> a \<and> a - block_address b \<le> block_size b \<and>
     n \<le> block_size b - (a - block_address b)"
  by (induction bs arbitrary: rest) (auto simp: Let_def not_less split: if_splits)

text \<open>The block taken, the part before it and the part after it make up the free block.\<close>

lemma carve_cover:
  assumes "unat (block_address b) + unat (block_size b) < 2 ^ 32"
    and "block_address b \<le> a" "a - block_address b \<le> block_size b"
    and "n \<le> block_size b - (a - block_address b)"
  shows "cover ((if a > block_address b then [block (block_address b) (a - block_address b)] else []) @
      (if a + n < block_address b + block_size b
       then [block (a + n) (block_address b + block_size b - (a + n))] else [])) x + cover [block a n] x
    = cover [b] x"
proof -
  have A: "unat (block_address b) \<le> unat a" using assms(2) by (simp add: word_le_nat_alt)
  have d: "unat (a - block_address b) = unat a - unat (block_address b)"
    using assms(2) by (rule unat_minus_small)
  have s: "unat a - unat (block_address b) \<le> unat (block_size b)"
    using assms(3) d by (simp add: word_le_nat_alt)
  have n: "unat n \<le> unat (block_size b) - (unat a - unat (block_address b))"
    using assms(4) unat_minus_small [OF assms(3)] d by (simp add: word_le_nat_alt)
  have e: "unat (a + n) = unat a + unat n"
    using A s n assms(1) by (intro unat_plus_small) simp
  have be: "unat (block_address b + block_size b) = unat (block_address b) + unat (block_size b)"
    using assms(1) by (intro unat_plus_small) simp
  have le: "a + n \<le> block_address b + block_size b"
    using A s n by (simp add: word_le_nat_alt e be)
  have r: "unat (block_address b + block_size b - (a + n)) =
      unat (block_address b) + unat (block_size b) - (unat a + unat n)"
    using unat_minus_small [OF le] by (simp add: e be)
  show ?thesis
    using A s n by (auto simp: in_block_def d e be r word_less_nat_alt)
qed

lemma unat_align_up:
  assumes "unat v + 64 \<le> 2 ^ 32" "k \<le> 6"
  shows "unat (align_up v (2 ^ k)) = (unat v + 2 ^ k - 1) div 2 ^ k * 2 ^ k"
proof -
  have "k \<in> {0, 1, 2, 3, 4, 5, 6}" using assms(2) by auto
  then have "unat (2 ^ k :: u32) = 2 ^ k" and p: "(2::nat) ^ k \<le> 64" by auto
  moreover have "unat ((2 ^ k :: u32) - 1) = unat (2 ^ k :: u32) - 1"
    using calculation(1) by (subst unat_minus_small) (simp_all add: word_le_nat_alt)
  ultimately have "unat (v + (2 ^ k - 1)) = unat v + 2 ^ k - 1"
    using assms(1) by (subst unat_plus_small) simp_all
  then show ?thesis
    by (simp add: align_up_def unat_and_not_mask flip: add_diff_eq)
qed

lemma align_up_ge:
  assumes "unat v + 64 \<le> 2 ^ 32" "k \<le> 6"
  shows "unat v \<le> unat (align_up v (2 ^ k))" "2 ^ k dvd unat (align_up v (2 ^ k))"
proof -
  let ?n = "unat v + 2 ^ k - 1"
  have "?n div 2 ^ k * 2 ^ k + ?n mod 2 ^ k = ?n" by (rule div_mult_mod_eq)
  moreover have "?n mod 2 ^ k < 2 ^ k" by simp
  ultimately show "unat v \<le> unat (align_up v (2 ^ k))"
    unfolding unat_align_up [OF assms] by linarith
  show "2 ^ k dvd unat (align_up v (2 ^ k))"
    unfolding unat_align_up [OF assms] by simp
qed

lemma cover_coalesce:
  "\<forall>b \<in> set bs. unat (block_address b) + unat (block_size b) < 2 ^ 32 \<Longrightarrow>
   cover (coalesce bs) x = cover bs x"
proof (induction bs rule: coalesce.induct)
  case (1 a b bs)
  show ?case
  proof (cases "block_address a + block_size a = block_address b")
    case True
    have a: "unat (block_address a + block_size a) = unat (block_address a) + unat (block_size a)"
      using 1(3) by (intro unat_plus_small) simp
    have b: "unat (block_address b) = unat (block_address a) + unat (block_size a)"
      using True a by simp
    have s: "unat (block_size a + block_size b) = unat (block_size a) + unat (block_size b)"
      using 1(3) b by (intro unat_plus_small) simp
    have "in_block (block (block_address a) (block_size a + block_size b)) x \<longleftrightarrow> in_block a x \<or> in_block b x"
      "\<not> (in_block a x \<and> in_block b x)"
      by (auto simp: in_block_def b s)
    moreover have "cover (coalesce (block (block_address a) (block_size a + block_size b) # bs)) x =
        cover (block (block_address a) (block_size a + block_size b) # bs) x"
      using True 1(3) b s by (intro 1(1)) auto
    ultimately show ?thesis using True by auto
  next
    case False
    then show ?thesis using 1(2,3) by simp
  qed
qed simp_all

lemma heap_release_inv:
  assumes inv: "heap_inv limit L h" and b: "b \<in> set L"
  shows "heap_inv limit (remove1 b L) (heap_release h b)"
proof (cases "block_address b = 0 \<or> block_size b = 0")
  case True
  have "cover (remove1 b L) x \<le> cover L x" for x
    using cover_remove1 [OF b, of x] by simp
  then have "heap_inv limit (remove1 b L) (h\<lparr>free_heap_blocks := free_heap_blocks h\<rparr>)"
    by (intro heap_inv_cover [OF inv]) simp
  then show ?thesis using True by (auto simp: heap_release_def free_heap_def)
next
  case False
  let ?bs = "sort_key block_address (free_heap_blocks h @ [b])"
  have "cover (coalesce ?bs) x = cover ?bs x" for x
    using heap_inv_bounds [OF inv] b by (intro cover_coalesce) auto
  also have "cover ?bs x = cover (free_heap_blocks h @ [b]) x" for x
    by (rule cover_mset) simp
  finally have "cover (coalesce ?bs) x + cover (remove1 b L) x = cover (free_heap_blocks h) x + cover L x" for x
    using cover_remove1 [OF b, of x] by simp
  then have "heap_inv limit (remove1 b L) (h\<lparr>free_heap_blocks := coalesce ?bs\<rparr>)"
    by (intro heap_inv_cover [OF inv]) simp
  moreover obtain a n where "b = block a n" by (cases b) simp
  ultimately show ?thesis using False by (simp add: heap_release_def free_heap_def)
qed

text \<open>Moving the cursors: the bytes handed out come from the gap.\<close>

lemma heap_inv_gap:
  assumes inv: "heap_inv limit L h" and le: "unat (heap_cursor h) \<le> unat hc" "unat hc \<le> unat sc"
      "unat sc \<le> unat (stack_cursor h)"
    and b: "\<And>x. in_block b x \<Longrightarrow> in_gap h x \<and> \<not> in_gap (h\<lparr>heap_cursor := hc, stack_cursor := sc\<rparr>) x"
  shows "heap_inv limit (b # L) (h\<lparr>heap_cursor := hc, stack_cursor := sc\<rparr>)"
proof -
  let ?t = "h\<lparr>heap_cursor := hc, stack_cursor := sc\<rparr>"
  have "in_gap ?t x \<Longrightarrow> in_gap h x" for x using le by (auto simp: in_gap_def)
  then have g: "(if in_block b x then 1 else 0) + (if in_gap ?t x then 1 else (0::nat)) \<le> (if in_gap h x then 1 else 0)" for x
    using b [of x] by auto
  have "cover (free_heap_blocks h) x + cover (b # L) x + (if in_gap ?t x then 1 else 0)
      \<le> (if unat (memory_start h) \<le> x \<and> x < limit then 1 else 0)" for x
  proof -
    have "cover (free_heap_blocks h) x + cover L x + (if in_gap h x then 1 else 0)
      \<le> (if unat (memory_start h) \<le> x \<and> x < limit then 1 else 0)"
      using inv by (simp add: heap_inv_def)
    with g [of x] show ?thesis by simp linarith?
  qed
  then show ?thesis using inv le by (simp add: heap_inv_def)
qed

lemma heap_free_list_inv:
  assumes inv: "heap_inv limit L h" and fit: "find_fit n alignment (free_heap_blocks h) = Some (b, a, rest)"
    and h: "allocate_heap h n alignment = (a', t)"
  shows "a' = a \<and> heap_inv limit (block a n # L) t"
proof
  note f = find_fit_spec [OF fit]
  let ?before = "if a > block_address b then [block (block_address b) (a - block_address b)] else []"
  let ?after = "if a + n < block_address b + block_size b
       then [block (a + n) (block_address b + block_size b - (a + n))] else []"
  have t: "a' = a" "t = h\<lparr>free_heap_blocks := rest @ ?before @ ?after\<rparr>"
    using h [unfolded allocate_heap_def fit] by (auto simp: Let_def split del: if_split)
  then show "a' = a" by simp
  have "cover (rest @ ?before @ ?after) x + cover (block a n # L) x =
      cover (free_heap_blocks h) x + cover L x" for x
  proof -
    have "cover (free_heap_blocks h) x = cover (b # rest) x"
      using f by (intro cover_mset) simp
    moreover have "cover (?before @ ?after) x + cover [block a n] x = cover [b] x"
      using f heap_inv_bounds [OF inv, of b] by (intro carve_cover) auto
    ultimately show ?thesis by (simp only: cover_append cover.simps)
  qed
  then show "heap_inv limit (block a n # L) t"
    unfolding t(2) by (intro heap_inv_cover [OF inv]) simp
qed

lemma heap_bump_inv:
  assumes inv: "heap_inv limit L h" and k: "k \<le> 6"
    and fit: "find_fit n (2 ^ k) (free_heap_blocks h) = None"
    and h: "allocate_heap h n (2 ^ k) = (a, t)" "a \<noteq> 0"
  shows "heap_inv limit (block a n # L) t"
proof -
  define d where "d = align_up (heap_cursor h) (2 ^ k)"
  have i: "limit + 64 \<le> 2 ^ 32" "unat (heap_cursor h) \<le> unat (stack_cursor h)"
    "unat (memory_start h) + unat (stack_cursor h) \<le> limit"
    using inv by (simp_all add: heap_inv_def)
  have d: "unat (heap_cursor h) \<le> unat d"
    using i k unfolding d_def by (intro align_up_ge) simp_all
  have g: "n \<le> stack_cursor h" "d \<le> stack_cursor h - n" and t: "a = memory_start h + d" "t = h\<lparr>heap_cursor := d + n\<rparr>"
    using h fit by (auto simp: allocate_heap_def Let_def d_def not_less split: if_splits)
  have dn: "unat d + unat n \<le> unat (stack_cursor h)"
    using g unat_minus_small [OF g(1)] by (simp add: word_le_nat_alt)
  have hc: "unat (d + n) = unat d + unat n" using dn i by (intro unat_plus_small) simp
  have a: "unat a = unat (memory_start h) + unat d"
    unfolding t(1) using dn i by (intro unat_plus_small) simp
  have "heap_inv limit (block a n # L) (h\<lparr>heap_cursor := d + n, stack_cursor := stack_cursor h\<rparr>)"
    using d dn hc a i by (intro heap_inv_gap [OF inv]) (auto simp: in_block_def in_gap_def)
  then show ?thesis by (simp add: t(2))
qed

lemma heap_stack_inv:
  assumes inv: "heap_inv limit L h" and n: "n \<le> 0xffffffc0" and h: "allocate_stack h n = (a, t)" "a \<noteq> 0"
  shows "heap_inv limit (block a (align_up n 64) # L) t" "unat n \<le> unat (align_up n 64)"
proof -
  define m where "m = align_up n 64"
  have "unat n + 64 \<le> 2 ^ 32" using n by (simp add: word_le_nat_alt)
  then show nm: "unat n \<le> unat (align_up n 64)"
    using align_up_ge(1) [of n 6] by simp
  have i: "limit + 64 \<le> 2 ^ 32" "unat (heap_cursor h) \<le> unat (stack_cursor h)"
    "unat (memory_start h) + unat (stack_cursor h) \<le> limit"
    using inv by (simp_all add: heap_inv_def)
  have g: "m \<le> stack_cursor h" "heap_cursor h \<le> stack_cursor h - m"
    and t: "a = memory_start h + (stack_cursor h - m)" "t = h\<lparr>stack_cursor := stack_cursor h - m\<rparr>"
    using h by (auto simp: allocate_stack_def Let_def m_def not_less split: if_splits)
  have sc: "unat (stack_cursor h - m) = unat (stack_cursor h) - unat m" "unat m \<le> unat (stack_cursor h)"
    using g(1) unat_minus_small [OF g(1)] by (simp_all add: word_le_nat_alt)
  have a: "unat a = unat (memory_start h) + unat (stack_cursor h - m)"
    unfolding t(1) using sc i by (intro unat_plus_small) simp
  have "heap_inv limit (block a m # L) (h\<lparr>heap_cursor := heap_cursor h, stack_cursor := stack_cursor h - m\<rparr>)"
    using g(2) sc a i by (intro heap_inv_gap [OF inv]) (auto simp: in_block_def in_gap_def word_le_nat_alt)
  then show "heap_inv limit (block a (align_up n 64) # L) t" by (simp add: t(2) m_def)
qed

lemma heap_request_inv:
  assumes inv: "heap_inv limit L h" and "heap_valid r" "heap_request h r = Some (b, t)"
  shows "heap_inv limit (b # L) t \<and> unat (request_bytes r) \<le> unat (block_size b)"
proof (cases r)
  case (Heap_block n alignment)
  then obtain k where k: "k \<le> 6" "alignment = 2 ^ k" using assms(2) by auto
  obtain a where a: "allocate_heap h n alignment = (a, t)" "a \<noteq> 0" "b = block a n"
    using assms(3) Heap_block by (auto simp: Let_def split: prod.splits if_splits)
  show ?thesis
  proof (cases "find_fit n alignment (free_heap_blocks h)")
    case None
    then show ?thesis using heap_bump_inv [OF inv k(1)] a k(2) Heap_block by auto
  next
    case (Some x)
    then show ?thesis
      using heap_free_list_inv [OF inv _ a(1)] a Heap_block by (cases x) fastforce
  qed
next
  case (Thread_stack n)
  then show ?thesis
    using assms heap_stack_inv [OF inv, of n] by (auto simp: Let_def split: prod.splits if_splits)
qed

interpretation heap: block_allocator heap_request heap_release "heap_inv limit"
  "\<lambda>h x. unat (memory_start h) \<le> x \<and> x < limit" heap_valid request_bytes for limit
proof unfold_locales
  fix L h x b r t
  assume inv: "heap_inv limit L h"
  have c: "cover (free_heap_blocks h) x + cover L x + (if in_gap h x then 1 else 0)
      \<le> (if unat (memory_start h) \<le> x \<and> x < limit then 1 else 0)" for x
    using inv by (simp add: heap_inv_def)
  show "cover L x \<le> 1" using c [of x] by (auto split: if_splits)
  show "unat (memory_start h) \<le> x \<and> x < limit" if "b \<in> set L" "in_block b x"
    using c [of x] in_cover [OF that] by (auto split: if_splits)
  show "heap_inv limit (b # L) t" "unat (request_bytes r) \<le> unat (block_size b)"
    if "heap_valid r" "heap_request h r = Some (b, t)"
    using heap_request_inv [OF inv that] by simp_all
  show "heap_inv limit (remove1 b L) (heap_release h b)" if "b \<in> set L"
    using inv that by (rule heap_release_inv)
qed

section \<open>The configured heap\<close>

text \<open>
  \<open>Runtime::configure\<close>: the heap starts behind the image, the stacks below the stack of the
  initial thread, and the user memory below the image is a free block. Sizes are
  \<open>std::size_t\<close>, addresses 32-bit.
\<close>

definition configure_heap :: "u32 \<Rightarrow> nat \<Rightarrow> nat \<Rightarrow> u32 \<Rightarrow> Heap" where
  "configure_heap base size_bytes image_size image_start =
     (let start = base + image_start in
      \<lparr>memory_start = base,
       heap_cursor = align_up (of_nat image_size) 64,
       stack_cursor = (if size_bytes > 0x40000 then of_nat (size_bytes - 0x40000)
                       else of_nat size_bytes),
       free_heap_blocks =
         (if base \<le> 0x08800000 \<and> start > 0x08800000 \<and> unat start \<le> unat base + size_bytes
          then [block 0x08800000 (start - 0x08800000)] else [])\<rparr>)"

text \<open>
  A sensible configuration: memory does not start at address 0 and ends 64 bytes before the
  end of the address space, the image starts inside itself, and leaves room for a stack.
\<close>

definition sane_configuration :: "u32 \<Rightarrow> nat \<Rightarrow> nat \<Rightarrow> u32 \<Rightarrow> bool" where
  "sane_configuration base size_bytes image_size image_start \<longleftrightarrow>
     base \<noteq> 0 \<and> 64 dvd unat base \<and> unat base + size_bytes + 64 \<le> 2 ^ 32 \<and> 0x40000 < size_bytes \<and>
     unat image_start \<le> image_size \<and> image_size + 64 \<le> size_bytes - 0x40000"

lemma configure_heap_inv:
  assumes "sane_configuration base size_bytes image_size image_start"
  shows "heap_inv (unat base + size_bytes) [] (configure_heap base size_bytes image_size image_start)"
proof -
  have c: "base \<noteq> 0" "unat base + size_bytes + 64 \<le> 2 ^ 32" "0x40000 < size_bytes"
    "unat image_start \<le> image_size" "image_size + 64 \<le> size_bytes - 0x40000"
    using assms by (simp_all add: sane_configuration_def)
  have u: "n < 2 ^ 32 \<Longrightarrow> unat (of_nat n :: u32) = n" for n
    by (simp add: unsigned_of_nat take_bit_nat_eq_self)
  have i: "unat (of_nat image_size :: u32) = image_size"
    using c by (intro u) simp
  have j: "unat (of_nat (size_bytes - 0x40000) :: u32) = size_bytes - 0x40000"
    using c by (intro u) simp
  have hc: "unat (align_up (of_nat image_size) 64) = (image_size + 63) div 64 * 64"
    using c unat_align_up [of "of_nat image_size" 6] by (simp add: i)
  have bounds: "image_size \<le> (image_size + 63) div 64 * 64" "(image_size + 63) div 64 * 64 \<le> image_size + 63"
    by presburger+
  have st: "unat (base + image_start) = unat base + unat image_start"
    using c by (intro unat_plus_small) simp
  let ?h = "configure_heap base size_bytes image_size image_start"
  have f: "memory_start ?h = base" "unat (heap_cursor ?h) = (image_size + 63) div 64 * 64"
    using c by (simp_all add: configure_heap_def Let_def hc)
  have "stack_cursor ?h = of_nat (size_bytes - 0x40000)"
    using c(3) by (simp only: configure_heap_def Let_def simp_thms if_True Heap.simps)
  then have f': "unat (stack_cursor ?h) = size_bytes - 0x40000" by (simp only: j)
  have b: "cover (free_heap_blocks ?h) x \<le> (if unat base \<le> x \<and> x < unat base + unat image_start then 1 else 0)" for x
  proof -
    have "unat (base + image_start - 0x08800000) = unat base + unat image_start - 0x08800000"
      if "0x08800000 < base + image_start"
      using that st by (subst unat_minus_small) simp_all
    then show ?thesis
      using st by (auto simp: configure_heap_def Let_def in_block_def word_le_nat_alt word_less_nat_alt)
  qed
  have "cover (free_heap_blocks ?h) x + (if in_gap ?h x then 1 else 0)
      \<le> (if unat base \<le> x \<and> x < unat base + size_bytes then 1 else 0)" for x
    using b [of x] c bounds unfolding in_gap_def f f' by (auto split: if_splits)
  moreover have "unat (heap_cursor ?h) \<le> unat (stack_cursor ?h)"
    "unat (memory_start ?h) + unat (stack_cursor ?h) \<le> unat base + size_bytes"
    "memory_start ?h \<noteq> 0" using c bounds unfolding f f' by auto
  ultimately show ?thesis
    using c(2) unfolding heap_inv_def f(1) by simp
qed

inductive heap_reachable :: "Heap \<Rightarrow> MemoryBlock list \<Rightarrow> Heap \<Rightarrow> bool" for h0 where
  configured: "heap_reachable h0 [] h0"
| request: "heap_reachable h0 L h \<Longrightarrow> heap_valid r \<Longrightarrow> heap_request h r = Some (b, t) \<Longrightarrow>
    heap_reachable h0 (b # L) t"
| release: "heap_reachable h0 L h \<Longrightarrow> b \<in> set L \<Longrightarrow>
    heap_reachable h0 (remove1 b L) (heap_release h b)"

lemma heap_reachable_inv: "heap_reachable h0 L h \<Longrightarrow> heap_inv limit [] h0 \<Longrightarrow> heap_inv limit L h"
  by (induction rule: heap_reachable.induct) (auto intro: heap.alloc_inv heap.free_inv)

lemma heap_reachable_start: "heap_reachable h0 L h \<Longrightarrow> memory_start h = memory_start h0"
proof (induction rule: heap_reachable.induct)
  case (request L h r b t)
  then show ?case
    by (cases r) (auto simp: allocate_heap_def allocate_stack_def Let_def split: prod.splits option.splits if_splits)
qed (simp_all add: heap_release_def free_heap_def)

text \<open>
  The abstract allocator: its state is the list of blocks handed out; it may hand out any
  block of the arena that shares no byte with them, and takes back any of them.
\<close>

inductive alloc_spec :: "(nat \<Rightarrow> bool) \<Rightarrow> MemoryBlock list \<Rightarrow> MemoryBlock list \<Rightarrow> bool" for arena where
  hand_out: "(\<And>x. in_block b x \<Longrightarrow> arena x \<and> cover L x = 0) \<Longrightarrow> alloc_spec arena L (b # L)"
| take_back: "b \<in> set L \<Longrightarrow> alloc_spec arena L (remove1 b L)"

lemma hand_out_step:
  assumes "heap_inv limit L h" "heap_valid r" "heap_request h r = Some (b, t)"
  shows "alloc_spec (\<lambda>x. unat (memory_start t) \<le> x \<and> x < limit) L (b # L)"
proof (rule alloc_spec.hand_out)
  fix x assume x: "in_block b x"
  note inv = heap.alloc_inv [OF assms]
  have "cover (b # L) x \<le> 1" by (rule heap.live_once [OF inv])
  moreover have "unat (memory_start t) \<le> x \<and> x < limit" by (rule heap.live_arena [OF inv _ x]) simp
  ultimately show "(unat (memory_start t) \<le> x \<and> x < limit) \<and> cover L x = 0" using x by simp
qed

text \<open>
  C16. The heap refines the abstract allocator. From the configured heap, every sequence of
  requests and releases that the code can perform is a run of the abstract allocator on
  the memory the machine has: what is handed out at any moment never overlaps and never
  leaves guest memory, whatever was freed, merged and reused before.
\<close>

theorem heap_refines_spec:
  assumes "sane_configuration base size_bytes image_size image_start"
    and "heap_reachable (configure_heap base size_bytes image_size image_start) L h"
  shows "(alloc_spec (\<lambda>x. unat base \<le> x \<and> x < unat base + size_bytes))\<^sup>*\<^sup>* [] L \<and>
         (\<forall>i < length L. \<forall>j < i. \<forall>x. \<not> (in_block (L ! i) x \<and> in_block (L ! j) x))"
proof
  note inv0 = configure_heap_inv [OF assms(1)]
  have base: "memory_start t = base"
    if "heap_reachable (configure_heap base size_bytes image_size image_start) M t" for M t
    using heap_reachable_start [OF that] by (simp add: configure_heap_def Let_def)
  from assms(2) show "(alloc_spec (\<lambda>x. unat base \<le> x \<and> x < unat base + size_bytes))\<^sup>*\<^sup>* [] L"
  proof (induction rule: heap_reachable.induct)
    case (request L h r b t)
    have "heap_reachable (configure_heap base size_bytes image_size image_start) (b # L) t"
      using request.hyps by (intro heap_reachable.request)
    then have "memory_start t = base" by (rule base)
    then have "alloc_spec (\<lambda>x. unat base \<le> x \<and> x < unat base + size_bytes) L (b # L)"
      using hand_out_step [OF heap_reachable_inv [OF request.hyps(1) inv0] request.hyps(2,3)] by simp
    with request.IH show ?case by (rule rtranclp.rtrancl_into_rtrancl)
  next
    case (release L h b)
    then show ?case by (auto intro: rtranclp.rtrancl_into_rtrancl alloc_spec.take_back)
  qed simp
  show "\<forall>i < length L. \<forall>j < i. \<forall>x. \<not> (in_block (L ! i) x \<and> in_block (L ! j) x)"
    using heap.live_disjoint [OF heap_reachable_inv [OF assms(2) inv0]] by blast
qed

lemma heap_refines_spec_witness:
  "\<exists>L h. heap_reachable (configure_heap 0x08800000 0x1800000 0x100000 0x4000) L h \<and> L = [block 0x08800000 0x40] \<and>
     (alloc_spec (\<lambda>x. unat (0x08800000 :: u32) \<le> x \<and> x < unat (0x08800000 :: u32) + 0x1800000))\<^sup>*\<^sup>* [] L"
proof -
  let ?h = "configure_heap 0x08800000 0x1800000 0x100000 0x4000"
  have ok: "sane_configuration 0x08800000 0x1800000 0x100000 0x4000"
    by (simp add: sane_configuration_def)
  have v: "heap_valid (Heap_block 0x40 64)"
    unfolding heap_valid.simps by (rule exI [of _ 6]) simp
  have "heap_request ?h (Heap_block 0x40 64) =
     Some (block 0x08800000 0x40, ?h\<lparr>free_heap_blocks := [block 0x08800040 0x3fc0]\<rparr>)"
    by (simp add: configure_heap_def allocate_heap_def align_up_def Let_def)
  with v have r: "heap_reachable ?h [block 0x08800000 0x40] (?h\<lparr>free_heap_blocks := [block 0x08800040 0x3fc0]\<rparr>)"
    using heap_reachable.request [OF heap_reachable.configured] by blast
  show ?thesis
    using r heap_refines_spec [OF ok r] by blast
qed

text \<open>
  A stack size in the last 63 bytes below \<open>2^32\<close> is rounded up to 0: the request succeeds,
  reserves nothing, and the address it returns is that of the stack allocated before.
  \<open>heap_valid\<close> excludes these sizes; the kernel call that creates a thread does not.
\<close>

lemma allocate_stack_wraps:
  assumes "0xffffffc0 < n" "heap_cursor h \<le> stack_cursor h"
  shows "allocate_stack h n = (memory_start h + stack_cursor h, h)"
proof -
  have e: "n + 63 = n - 0xffffffc1" by (simp only: diff_conv_add_uminus) simp
  have "0xffffffc1 \<le> n" using assms(1) by (simp add: word_le_nat_alt word_less_nat_alt)
  then have "unat (n + 63) = unat n - 0xffffffc1"
    unfolding e using unat_minus_small [of "0xffffffc1" n] by simp
  then have "unat (n + 63) < 64" using unsigned_less [of n, where 'a = nat] by simp
  then have "unat ((n + 63) AND NOT (2 ^ 6 - 1)) = 0"
    unfolding unat_and_not_mask by simp
  then have "align_up n 64 = 0" by (simp add: align_up_def add.commute flip: unat_eq_0)
  then show ?thesis using assms(2) [THEN leD] by (simp add: allocate_stack_def Let_def)
qed

end
