(* ===== verification/Wait_Objects.thy ===== *)
theory Wait_Objects
  imports Prelude "HOL-Library.Multiset"
begin

text \<open>
  How a kernel object of \<open>refract\<close> blocks the threads that wait for it. Each object has a
  mutex and a condition variable: a call locks the mutex, changes the object, unlocks it and
  notifies nobody, one or all of the threads asleep on the variable; a waiting thread
  evaluates its predicate with the mutex locked and sleeps until it is notified. What happens
  under the mutex is one step here. The state of an object is a triple: the object, the
  threads asleep on it, and the threads that have been woken and have not yet evaluated their
  predicate again.

  Two disciplines keep a thread from sleeping while it could run, each a locale here and
  interpreted for the objects that follow it: an object that notifies all waiters whenever
  one may have become ready (\<open>broadcast_object\<close>: semaphores, mutexes, event flags), and an
  object whose waiters are all alike and that notifies one for each unit it gains
  (\<open>counted_object\<close>: mailboxes, fixed pools).
\<close>

section \<open>Condition variables\<close>

datatype notify = Notify_none | Notify_one | Notify_all

inductive wakes :: "notify \<Rightarrow> 'w list \<times> 'w list \<Rightarrow> 'w list \<times> 'w list \<Rightarrow> bool" where
  none: "wakes Notify_none (S, A) (S, A)"
| all: "wakes Notify_all (S, A) ([], S @ A)"
| one: "w \<in> set S \<Longrightarrow> wakes Notify_one (S, A) (remove1 w S, w # A)"
| nobody: "wakes Notify_one ([], A) ([], A)"

inductive_simps wakes_simps [simp]:
  "wakes Notify_none (S, A) (S', A')" "wakes Notify_all (S, A) (S', A')"

inductive_cases wakes_noneE: "wakes Notify_none p q"
inductive_cases wakes_oneE: "wakes Notify_one p q"
inductive_cases wakes_allE: "wakes Notify_all p q"

lemma mset_remove1_add: "w \<in> set S \<Longrightarrow> add_mset w (mset (remove1 w S)) = mset S"
  by (metis insert_DiffM mset_remove1 set_mset_mset)

lemma wakes_mset: "wakes n (S, A) (S', A') \<Longrightarrow> mset S' + mset A' = mset S + mset A"
  by (erule wakes.cases) (auto simp: mset_remove1_add simp flip: add_mset_add_single)

lemma wakes_asleep: "wakes n (S, A) (S', A') \<Longrightarrow> set S' \<subseteq> set S"
  by (erule wakes.cases) (auto dest: subsetD [OF set_remove1_subset])

lemma wakes_all_asleep: "wakes Notify_all (S, A) (S', A') \<Longrightarrow> S' = []"
  by (auto elim: wakes_allE)

text \<open>
  The steps of an object: a call that does not block, a thread that arrives and runs at once
  or goes to sleep, a woken thread that runs or goes back to sleep, a spurious wake-up, and a
  time-out. A thread that times out evaluates its predicate once more and leaves with a
  time-out only if it is false. An arrival that the call refuses, and a wait without a
  time-out, are \<open>None\<close>.
\<close>

inductive wait_step ::
  "('s \<Rightarrow> 'w \<Rightarrow> bool) \<Rightarrow> ('c \<Rightarrow> 's \<Rightarrow> 's \<times> notify) \<Rightarrow> ('r \<Rightarrow> 's \<Rightarrow> ('s \<times> 'w) option) \<Rightarrow>
   ('w \<Rightarrow> 's \<Rightarrow> 's \<times> notify) \<Rightarrow> ('w \<Rightarrow> 's \<Rightarrow> ('s \<times> notify) option) \<Rightarrow>
   's \<times> 'w list \<times> 'w list \<Rightarrow> 's \<times> 'w list \<times> 'w list \<Rightarrow> bool"
  for ready call arrive finish give_up where
  call: "call c s = (t, n) \<Longrightarrow> wakes n (S, A) (S', A') \<Longrightarrow>
    wait_step ready call arrive finish give_up (s, S, A) (t, S', A')"
| enter: "arrive r s = Some (u, w) \<Longrightarrow> ready u w \<Longrightarrow> finish w u = (t, n) \<Longrightarrow> wakes n (S, A) (S', A') \<Longrightarrow>
    wait_step ready call arrive finish give_up (s, S, A) (t, S', A')"
| sleep: "arrive r s = Some (u, w) \<Longrightarrow> \<not> ready u w \<Longrightarrow>
    wait_step ready call arrive finish give_up (s, S, A) (u, w # S, A)"
| resume: "w \<in> set A \<Longrightarrow> ready s w \<Longrightarrow> finish w s = (t, n) \<Longrightarrow>
    wakes n (S, remove1 w A) (S', A') \<Longrightarrow>
    wait_step ready call arrive finish give_up (s, S, A) (t, S', A')"
| again: "w \<in> set A \<Longrightarrow> \<not> ready s w \<Longrightarrow>
    wait_step ready call arrive finish give_up (s, S, A) (s, w # S, remove1 w A)"
| spurious: "w \<in> set S \<Longrightarrow>
    wait_step ready call arrive finish give_up (s, S, A) (s, remove1 w S, w # A)"
| timeout_awake: "w \<in> set A \<Longrightarrow> \<not> ready s w \<Longrightarrow> give_up w s = Some (t, n) \<Longrightarrow>
    wakes n (S, remove1 w A) (S', A') \<Longrightarrow>
    wait_step ready call arrive finish give_up (s, S, A) (t, S', A')"
| timeout_asleep: "w \<in> set S \<Longrightarrow> \<not> ready s w \<Longrightarrow> give_up w s = Some (t, n) \<Longrightarrow>
    wakes n (remove1 w S, A) (S', A') \<Longrightarrow>
    wait_step ready call arrive finish give_up (s, S, A) (t, S', A')"
| timeout_ready: "w \<in> set S \<Longrightarrow> ready s w \<Longrightarrow> finish w s = (t, n) \<Longrightarrow>
    wakes n (remove1 w S, A) (S', A') \<Longrightarrow>
    wait_step ready call arrive finish give_up (s, S, A) (t, S', A')"

text \<open>
  The part of a run in which no call is made and only woken threads go on. It always ends:
  every step serves a thread or puts one back to sleep.
\<close>

inductive woken_step ::
  "('s \<Rightarrow> 'w \<Rightarrow> bool) \<Rightarrow> ('w \<Rightarrow> 's \<Rightarrow> 's \<times> notify) \<Rightarrow>
   's \<times> 'w list \<times> 'w list \<Rightarrow> 's \<times> 'w list \<times> 'w list \<Rightarrow> bool"
  for ready finish where
  serve: "w \<in> set A \<Longrightarrow> ready s w \<Longrightarrow> finish w s = (t, n) \<Longrightarrow>
    wakes n (S, remove1 w A) (S', A') \<Longrightarrow> woken_step ready finish (s, S, A) (t, S', A')"
| recheck: "w \<in> set A \<Longrightarrow> \<not> ready s w \<Longrightarrow>
    woken_step ready finish (s, S, A) (s, w # S, remove1 w A)"

lemma woken_wait_step: "woken_step ready finish m m' \<Longrightarrow> wait_step ready call arrive finish give_up m m'"
  by (induction rule: woken_step.induct) (auto intro: wait_step.resume wait_step.again)

lemma woken_wf: "wf {(m', m). woken_step ready finish m m'}"
proof (rule wf_subset [OF wf_mlex [OF wf_measure]])
  show "{(m', m). woken_step ready finish m m'} \<subseteq>
    (\<lambda>(_, S, A). length S + length A) <*mlex*> measure (\<lambda>(_, S, A). length A)"
  proof clarify
    fix t S' A' s S A
    assume "woken_step ready finish (s, S, A) (t, S', A')"
    then show "((t, S', A'), s, S, A) \<in>
      (\<lambda>(_, S, A). length S + length A) <*mlex*> measure (\<lambda>(_, S, A). length A)"
    proof cases
      case (serve w n)
      have "mset S' + mset A' = mset S + mset (remove1 w A)" by (rule wakes_mset [OF serve(4)])
      then have "size (mset S' + mset A') = size (mset S + mset (remove1 w A))" by (rule arg_cong)
      moreover have "0 < length A" using serve(1) by (cases A) simp_all
      ultimately have "length S' + length A' < length S + length A"
        using serve(1) by (simp add: length_remove1 size_Diff_singleton)
      then show ?thesis by (simp add: mlex_iff)
    next
      case (recheck w)
      have "0 < length A" using recheck by (cases A) auto
      then show ?thesis using recheck by (auto simp: mlex_iff length_remove1)
    qed
  qed
qed

section \<open>Objects that notify all\<close>

text \<open>
  The contract: the object keeps its invariant, which may speak of the threads waiting for
  it, and a change after which not all are notified makes no waiting thread ready.
\<close>

locale broadcast_object =
  fixes ready :: "'s \<Rightarrow> 'w \<Rightarrow> bool"
    and call :: "'c \<Rightarrow> 's \<Rightarrow> 's \<times> notify"
    and arrive :: "'r \<Rightarrow> 's \<Rightarrow> ('s \<times> 'w) option"
    and finish :: "'w \<Rightarrow> 's \<Rightarrow> 's \<times> notify"
    and give_up :: "'w \<Rightarrow> 's \<Rightarrow> ('s \<times> notify) option"
    and inv :: "'s \<Rightarrow> 'w multiset \<Rightarrow> bool"
  assumes call_inv: "inv s W \<Longrightarrow> call c s = (t, n) \<Longrightarrow> inv t W"
    and call_quiet: "inv s W \<Longrightarrow> call c s = (t, n) \<Longrightarrow> n \<noteq> Notify_all \<Longrightarrow> v \<in># W \<Longrightarrow>
          ready t v \<Longrightarrow> ready s v"
    and sleep_inv: "inv s W \<Longrightarrow> arrive r s = Some (t, w) \<Longrightarrow> \<not> ready t w \<Longrightarrow> inv t (add_mset w W)"
    and sleep_quiet: "inv s W \<Longrightarrow> arrive r s = Some (t, w) \<Longrightarrow> \<not> ready t w \<Longrightarrow> v \<in># W \<Longrightarrow>
          ready t v \<Longrightarrow> ready s v"
    and enter_inv: "inv s W \<Longrightarrow> arrive r s = Some (u, w) \<Longrightarrow> ready u w \<Longrightarrow>
          finish w u = (t, n) \<Longrightarrow> inv t W"
    and enter_quiet: "inv s W \<Longrightarrow> arrive r s = Some (u, w) \<Longrightarrow> ready u w \<Longrightarrow>
          finish w u = (t, n) \<Longrightarrow> n \<noteq> Notify_all \<Longrightarrow> v \<in># W \<Longrightarrow> ready t v \<Longrightarrow> ready s v"
    and finish_inv: "inv s (add_mset w W) \<Longrightarrow> ready s w \<Longrightarrow> finish w s = (t, n) \<Longrightarrow> inv t W"
    and finish_quiet: "inv s (add_mset w W) \<Longrightarrow> ready s w \<Longrightarrow> finish w s = (t, n) \<Longrightarrow>
          n \<noteq> Notify_all \<Longrightarrow> v \<in># W \<Longrightarrow> ready t v \<Longrightarrow> ready s v"
    and give_up_inv: "inv s (add_mset w W) \<Longrightarrow> \<not> ready s w \<Longrightarrow> give_up w s = Some (t, n) \<Longrightarrow> inv t W"
    and give_up_quiet: "inv s (add_mset w W) \<Longrightarrow> \<not> ready s w \<Longrightarrow> give_up w s = Some (t, n) \<Longrightarrow>
          n \<noteq> Notify_all \<Longrightarrow> v \<in># W \<Longrightarrow> ready t v \<Longrightarrow> ready s v"
begin

definition good :: "'s \<times> 'w list \<times> 'w list \<Rightarrow> bool" where
  "good m \<longleftrightarrow> (case m of (s, S, A) \<Rightarrow> inv s (mset S + mset A) \<and> (\<forall>w \<in> set S. \<not> ready s w))"

text \<open>A change of the object followed by its notification.\<close>

lemma good_notified:
  assumes "inv t (mset S + mset A)" "wakes n (S, A) (S', A')"
    and "\<And>v. n \<noteq> Notify_all \<Longrightarrow> v \<in> set S \<Longrightarrow> \<not> ready t v"
  shows "good (t, S', A')"
proof -
  have "\<not> ready t v" if "v \<in> set S'" for v
    using assms(2,3) wakes_asleep [OF assms(2)] wakes_all_asleep [of S A S' A'] that
    by (cases "n = Notify_all") auto
  then show ?thesis using assms(1) wakes_mset [OF assms(2)] by (simp add: good_def)
qed

lemma good_step:
  assumes "wait_step ready call arrive finish give_up m m'" "good m"
  shows "good m'"
  using assms
proof (induction rule: wait_step.induct)
  case (call c s t n S A S' A')
  then show ?case
    by (intro good_notified [of t S A n]) (auto simp: good_def intro: call_inv dest: call_quiet)
next
  case (enter r s u w t n S A S' A')
  then show ?case
    by (intro good_notified [of t S A n])
      (auto simp: good_def intro: enter_inv dest: enter_quiet [of s _ r u w t n])
next
  case (sleep r s u w S A)
  then show ?case
    by (auto simp: good_def intro: sleep_inv dest: sleep_quiet [of s _ r u w])
next
  case (resume w A s t n S S' A')
  then have i: "inv s (add_mset w (mset S + mset (remove1 w A)))"
    using mset_remove1_add [of w A] by (simp add: good_def)
  show ?case
  proof (rule good_notified [OF finish_inv [OF i resume(2,3)] resume(4)])
    fix v assume "n \<noteq> Notify_all" "v \<in> set S"
    then show "\<not> ready t v"
      using finish_quiet [OF i resume(2,3), of v] resume.prems by (auto simp: good_def)
  qed
next
  case (again w A s S)
  then show ?case using mset_remove1_add [of w A] by (simp add: good_def)
next
  case (spurious w S s A)
  then show ?case using mset_remove1_add [of w S] by (auto simp: good_def dest: subsetD [OF set_remove1_subset])
next
  case (timeout_awake w A s t n S S' A')
  then have i: "inv s (add_mset w (mset S + mset (remove1 w A)))"
    using mset_remove1_add [of w A] by (simp add: good_def)
  show ?case
  proof (rule good_notified [OF give_up_inv [OF i timeout_awake(2,3)] timeout_awake(4)])
    fix v assume "n \<noteq> Notify_all" "v \<in> set S"
    then show "\<not> ready t v"
      using give_up_quiet [OF i timeout_awake(2,3), of v] timeout_awake.prems by (auto simp: good_def)
  qed
next
  case (timeout_asleep w S s t n A S' A')
  then have i: "inv s (add_mset w (mset (remove1 w S) + mset A))"
    using mset_remove1_add [of w S] by (simp add: good_def flip: add_mset_add_single)
  show ?case
  proof (rule good_notified [OF give_up_inv [OF i timeout_asleep(2,3)] timeout_asleep(4)])
    fix v assume v: "n \<noteq> Notify_all" "v \<in> set (remove1 w S)"
    then have "v \<in># mset (remove1 w S) + mset A" by (simp only: union_iff set_mset_mset simp_thms)
    moreover have "v \<in> set S" using v set_remove1_subset [of w S] by auto
    ultimately show "\<not> ready t v"
      using v(1) give_up_quiet [OF i timeout_asleep(2,3), of v] timeout_asleep.prems
      by (auto simp: good_def)
  qed
next
  case (timeout_ready w S s t n A S' A')
  then show ?case by (simp add: good_def)
qed

lemma good_run:
  "(wait_step ready call arrive finish give_up)\<^sup>*\<^sup>* m m' \<Longrightarrow> good m \<Longrightarrow> good m'"
  by (induction rule: rtranclp.induct) (auto intro: good_step)

text \<open>No lost wake-up, and the object's invariant, in every state a run reaches.\<close>

lemma no_lost_wakeup:
  assumes "(wait_step ready call arrive finish give_up)\<^sup>*\<^sup>* (s0, [], []) (s, S, A)" "inv s0 {#}"
  shows "w \<in> set S \<Longrightarrow> \<not> ready s w" "inv s (mset S + mset A)"
  using good_run [OF assms(1)] assms(2) by (auto simp: good_def)

end

section \<open>Objects that notify one\<close>

text \<open>
  The contract: waiting threads are ready when the object has stock, or for good once it is
  closed. A change raises the stock by at most one and then notifies one, closing it notifies
  all, and a thread that finishes takes one unit.
\<close>

locale counted_object =
  fixes ready :: "'s \<Rightarrow> 'w \<Rightarrow> bool"
    and call :: "'c \<Rightarrow> 's \<Rightarrow> 's \<times> notify"
    and arrive :: "'r \<Rightarrow> 's \<Rightarrow> ('s \<times> 'w) option"
    and finish :: "'w \<Rightarrow> 's \<Rightarrow> 's \<times> notify"
    and give_up :: "'w \<Rightarrow> 's \<Rightarrow> ('s \<times> notify) option"
    and stock :: "'s \<Rightarrow> nat"
    and closed :: "'s \<Rightarrow> bool"
  assumes ready_stock: "ready s w \<longleftrightarrow> closed s \<or> 0 < stock s"
    and call_stock: "call c s = (t, n) \<Longrightarrow> n = Notify_all \<or>
          (closed t = closed s \<and> stock t \<le> stock s + (if n = Notify_one then 1 else 0))"
    and call_closed: "call c s = (t, n) \<Longrightarrow> closed s \<Longrightarrow> closed t"
    and arrive_stock: "arrive r s = Some (t, w) \<Longrightarrow> t = s"
    and finish_stock: "ready s w \<Longrightarrow> finish w s = (t, n) \<Longrightarrow>
          n = Notify_none \<and> closed t = closed s \<and> (closed s \<or> stock t + 1 = stock s)"
    and give_up_stock: "give_up w s = Some (t, n) \<Longrightarrow> t = s \<and> n = Notify_none"
begin

definition served :: "'s \<times> 'w list \<times> 'w list \<Rightarrow> bool" where
  "served m \<longleftrightarrow> (case m of (s, S, A) \<Rightarrow> S \<noteq> [] \<longrightarrow> \<not> closed s \<and> stock s \<le> length A)"

lemma served_step:
  assumes "wait_step ready call arrive finish give_up m m'" "served m"
  shows "served m'"
  using assms
proof (induction rule: wait_step.induct)
  case (call c s t n S A S' A')
  show ?case
    using call(2) call_stock [OF call(1)] call.prems
    by cases (auto simp: served_def)
next
  case (enter r s u w t n S A S' A')
  then show ?case
    using arrive_stock [OF enter(1)] finish_stock [OF enter(2,3)]
    by (auto simp: served_def elim: wakes_noneE)
next
  case (sleep r s u w S A)
  then show ?case using arrive_stock [OF sleep(1)] by (simp add: served_def ready_stock)
next
  case (resume w A s t n S S' A')
  then show ?case
    using finish_stock [OF resume(2,3)] by (auto simp: served_def length_remove1 elim!: wakes_noneE)
next
  case (again w A s S)
  then show ?case by (simp add: served_def ready_stock)
next
  case (spurious w S s A)
  then show ?case by (cases S) (auto simp: served_def)
next
  case (timeout_awake w A s t n S S' A')
  then show ?case
    using give_up_stock [OF timeout_awake(3)] by (auto simp: served_def ready_stock elim!: wakes_noneE)
next
  case (timeout_asleep w S s t n A S' A')
  then show ?case
    using give_up_stock [OF timeout_asleep(3)] by (cases S) (auto simp: served_def elim!: wakes_noneE)
next
  case (timeout_ready w S s t n A S' A')
  then show ?case
    using finish_stock [OF timeout_ready(2,3)] by (cases S) (auto simp: served_def elim!: wakes_noneE)
qed

lemma served_run:
  "(wait_step ready call arrive finish give_up)\<^sup>*\<^sup>* m m' \<Longrightarrow> served m \<Longrightarrow> served m'"
  by (induction rule: rtranclp.induct) (auto intro: served_step)

text \<open>While a thread sleeps, every unit of stock has a woken thread that comes for it.\<close>

lemma stock_has_takers:
  assumes "(wait_step ready call arrive finish give_up)\<^sup>*\<^sup>* (s0, [], []) (s, S, A)" "w \<in> set S"
  shows "\<not> closed s \<and> stock s \<le> length A"
  using served_run [OF assms(1)] assms(2) by (auto simp: served_def)

end

end
