(* ===== verification/Kernel_State.thy ===== *)
theory Kernel_State
  imports Guest_Access Guest_Heap Wait_Objects
begin

text \<open>
  The state the kernel calls share: the tables of \<open>Runtime::Implementation\<close>
  (\<open>refract/src/runtime.cpp\<close>) for semaphores, mutexes, event flags, mailboxes, memory blocks
  and pools, the heap and the counter identifiers come from, and the helpers the calls use to
  read their arguments and to write through guest pointers.

  A C++ \<open>int\<close> is an integer here and the additions on it that can overflow write the
  two's-complement wrap-around out. Identifiers are the 32-bit values in the guest registers:
  the conversion to \<open>int\<close> is a bijection. The 64-bit ticket counters are natural numbers.
\<close>

section \<open>Results and arguments\<close>

definition unimplemented :: u32 where "unimplemented = 0x8002013a"
definition wait_timeout :: u32 where "wait_timeout = 0x800201a8"
definition semaphore_zero :: u32 where "semaphore_zero = 0x800201ad"
definition event_flag_condition :: u32 where "event_flag_condition = 0x800201af"
definition unknown_mailbox :: u32 where "unknown_mailbox = 0x8002019b"
definition mailbox_no_message :: u32 where "mailbox_no_message = 0x800201b2"
definition mailbox_duplicate :: u32 where "mailbox_duplicate = 0x800201c9"
definition wait_deleted :: u32 where "wait_deleted = 0x800201b5"
definition out_of_memory :: u32 where "out_of_memory = 0x80020190"
definition io_error :: u32 where "io_error = 0x80010005"

lemmas result_codes =
  unimplemented_def wait_timeout_def semaphore_zero_def event_flag_condition_def
  unknown_mailbox_def mailbox_no_message_def mailbox_duplicate_def wait_deleted_def
  out_of_memory_def io_error_def

definition set_result :: "u32 \<Rightarrow> State \<Rightarrow> State" where
  "set_result v s = s\<lparr>gpr := (gpr s)(2 := v)\<rparr>"

lemma set_result_simps [simp]:
  "gpr (set_result v s) 2 = v" "i \<noteq> 2 \<Longrightarrow> gpr (set_result v s) i = gpr s i"
  "buffer_of (set_result v s) r = buffer_of s r" "memory_base (set_result v s) = memory_base s"
  by (simp_all add: set_result_def buffer_of_def split: region.split)

text \<open>
  \<open>guest_pointer<T>\<close> and the assignment through it: nothing is written when the address is
  not mapped. \<open>guest_string\<close>: the bytes before the first NUL, in main memory only.
\<close>

definition guest_pointer :: "State \<Rightarrow> u32 \<Rightarrow> nat \<Rightarrow> pointer option" where
  "guest_pointer s address width = mapped_address s address width"

definition put_word :: "State \<Rightarrow> u32 \<Rightarrow> u32 \<Rightarrow> State" where
  "put_word s address v =
     (case guest_pointer s address 4 of None \<Rightarrow> s | Some p \<Rightarrow> write_at s p (bytes32 v))"

definition guest_string :: "State \<Rightarrow> u32 \<Rightarrow> u8 list option" where
  "guest_string s address =
     (let a = canonical_address address in
      if a < memory_base s then None
      else let offset = unat (a - memory_base s); tail = drop offset (buffer s Ram) in
        if offset \<ge> memory_size s \<or> 0 \<notin> set tail then None
        else Some (takeWhile (\<lambda>c. c \<noteq> 0) tail))"

text \<open>The optional time-out of a waiting call, read before the call waits.\<close>

definition read_timeout :: "State \<Rightarrow> u32 \<Rightarrow> u32 option option" where
  "read_timeout s address =
     (if address = 0 then Some None
      else case mapped_address s address 4 of
        None \<Rightarrow> None
      | Some p \<Rightarrow> Some (Some (word32_of (read_at s p 4))))"

text \<open>Addition and subtraction on \<open>int\<close>, with wrap-around.\<close>

definition int_wrap :: "int \<Rightarrow> int" where
  "int_wrap i = sint (word_of_int i :: u32)"

lemma int_wrap_in_range [simp]: "- (2 ^ 31) \<le> i \<Longrightarrow> i < 2 ^ 31 \<Longrightarrow> int_wrap i = i"
  by (simp add: int_wrap_def sint_sbintrunc' signed_take_bit_int_eq_self)

section \<open>Objects\<close>

record Semaphore =
  sema_name :: "u8 list"
  sema_count :: int
  sema_maximum :: int
  next_wait_ticket :: nat
  waiting_tickets :: "nat list"

record Mutex =
  mutex_name :: "u8 list"
  lock_count :: int
  owner_thread_id :: int

record EventFlag =
  event_name :: "u8 list"
  event_attributes :: u32
  initial_bits :: u32
  event_bits :: u32
  waiting_threads :: u32

record Message =
  message_address :: u32
  message_priority :: u8

record Mailbox =
  mailbox_name :: "u8 list"
  mailbox_attributes :: u32
  messages :: "Message list"
  mailbox_deleted :: bool

record FixedPool =
  fixed_backing :: "MemoryBlock list"
  fixed_available :: "u32 list"

record VariablePool =
  variable_backing :: MemoryBlock
  variable_available :: "MemoryBlock list"
  allocated :: "u32 \<rightharpoonup> u32"

text \<open>
  A table of objects. A call that blocks keeps its object through a shared pointer, so
  deleting the object removes its identifier from the table and not the object: \<open>objects\<close>
  holds every object made, \<open>registered\<close> the identifiers the table still has.
\<close>

record 'a Table =
  objects :: "u32 \<rightharpoonup> 'a"
  registered :: "u32 \<Rightarrow> bool"

definition lookup :: "'a Table \<Rightarrow> u32 \<Rightarrow> 'a option" where
  "lookup tab uid = (if registered tab uid then objects tab uid else None)"

definition emplace :: "u32 \<Rightarrow> 'a \<Rightarrow> 'a Table \<Rightarrow> 'a Table" where
  "emplace uid x tab = tab\<lparr>objects := (objects tab)(uid \<mapsto> x), registered := (registered tab)(uid := True)\<rparr>"

definition update_object :: "u32 \<Rightarrow> 'a \<Rightarrow> 'a Table \<Rightarrow> 'a Table" where
  "update_object uid x tab = tab\<lparr>objects := (objects tab)(uid \<mapsto> x)\<rparr>"

definition erase :: "u32 \<Rightarrow> 'a Table \<Rightarrow> 'a Table" where
  "erase uid tab = tab\<lparr>registered := (registered tab)(uid := False)\<rparr>"

lemma lookup_table [simp]:
  "lookup (emplace uid x tab) v = (if v = uid then Some x else lookup tab v)"
  "lookup (erase uid tab) v = (if v = uid then None else lookup tab v)"
  "lookup (update_object uid x tab) v =
     (if v = uid \<and> registered tab uid then Some x else lookup tab v)"
  by (simp_all add: lookup_def emplace_def erase_def update_object_def)

lemma objects_table [simp]:
  "objects (emplace uid x tab) = (objects tab)(uid \<mapsto> x)"
  "objects (erase uid tab) = objects tab"
  "objects (update_object uid x tab) = (objects tab)(uid \<mapsto> x)"
  by (simp_all add: emplace_def erase_def update_object_def)

lemma update_emplace [simp]: "update_object uid y (emplace uid x tab) = emplace uid y tab"
  by (simp add: emplace_def update_object_def)

lemma lookup_objects: "lookup tab uid = Some x \<Longrightarrow> objects tab uid = Some x"
  by (simp add: lookup_def split: if_splits)

record Kernel =
  heap :: Heap
  next_uid :: u32
  exit_requested :: bool
  semaphores :: "Semaphore Table"
  mutexes :: "Mutex Table"
  event_flags :: "EventFlag Table"
  mailboxes :: "Mailbox Table"
  memory_blocks :: "MemoryBlock Table"
  fixed_pools :: "FixedPool Table"
  variable_pools :: "VariablePool Table"

definition empty_table :: "'a Table" where
  "empty_table = \<lparr>objects = Map.empty, registered = (\<lambda>_. False)\<rparr>"

lemma lookup_empty [simp]: "lookup empty_table uid = None"
  by (simp add: lookup_def empty_table_def)

text \<open>The members' initial values, with the heap \<open>configure\<close> sets up.\<close>

definition initial_kernel :: "Heap \<Rightarrow> Kernel" where
  "initial_kernel h = \<lparr>heap = h, next_uid = 0x100, exit_requested = False,
     semaphores = empty_table, mutexes = empty_table, event_flags = empty_table,
     mailboxes = empty_table, memory_blocks = empty_table, fixed_pools = empty_table,
     variable_pools = empty_table\<rparr>"

definition allocate_uid :: "Kernel \<Rightarrow> u32 \<times> Kernel" where
  "allocate_uid k = (next_uid k, k\<lparr>next_uid := next_uid k + 1\<rparr>)"

end
