(* ===== verification/Semaphores.thy ===== *)
theory Semaphores
  imports Kernel_State
begin

text \<open>
  Counting semaphores, \<open>sceKernelCreateSema\<close> to \<open>sceKernelWaitSema\<close> in
  \<open>refract/src/stubs/kernel/\<close>. A thread that must wait takes a ticket; the front ticket is
  served first, and polling threads do not overtake it. The operations under the
  semaphore's mutex come first, then the system calls that find the semaphore, check the
  arguments and leave the result in register 2. A waiting call is split where it blocks:
  \<open>wait_sema\<close> runs until the thread sleeps, \<open>resume_sema\<close> and \<open>timeout_sema\<close> are the
  evaluation of the predicate after a wake-up and at the time-out.
\<close>

section \<open>Under the mutex\<close>

record Sema_waiter =
  wait_ticket :: nat
  requested :: int
  queued :: bool

definition sema_poll :: "int \<Rightarrow> Semaphore \<Rightarrow> bool \<times> Semaphore" where
  "sema_poll n s =
     (if n \<le> 0 \<or> n > sema_count s \<or> waiting_tickets s \<noteq> [] then (False, s)
      else (True, s\<lparr>sema_count := sema_count s - n\<rparr>))"

definition sema_signal :: "int \<Rightarrow> Semaphore \<Rightarrow> Semaphore" where
  "sema_signal n s = s\<lparr>sema_count := min (sema_maximum s) (int_wrap (sema_count s + n))\<rparr>"

definition sema_arrive :: "int \<Rightarrow> Semaphore \<Rightarrow> Semaphore \<times> Sema_waiter" where
  "sema_arrive n s =
     (let must_wait = sema_count s < n \<or> waiting_tickets s \<noteq> []; ticket = next_wait_ticket s in
      (s\<lparr>next_wait_ticket := ticket + 1,
         waiting_tickets := waiting_tickets s @ (if must_wait then [ticket] else [])\<rparr>,
       \<lparr>wait_ticket = ticket, requested = n, queued = must_wait\<rparr>))"

definition sema_available :: "bool \<Rightarrow> Semaphore \<Rightarrow> Sema_waiter \<Rightarrow> bool" where
  "sema_available exiting s w \<longleftrightarrow>
     exiting \<or> \<not> queued w \<or>
     (waiting_tickets s \<noteq> [] \<and> hd (waiting_tickets s) = wait_ticket w \<and> sema_count s \<ge> requested w)"

definition remove_waiter :: "Sema_waiter \<Rightarrow> Semaphore \<Rightarrow> Semaphore" where
  "remove_waiter w s =
     (if \<not> queued w then s
      else s\<lparr>waiting_tickets := remove1 (wait_ticket w) (waiting_tickets s)\<rparr>)"

definition sema_finish :: "bool \<Rightarrow> Sema_waiter \<Rightarrow> Semaphore \<Rightarrow> Semaphore \<times> notify" where
  "sema_finish exiting w s =
     (let s = remove_waiter w s;
          s = (if exiting then s else s\<lparr>sema_count := sema_count s - requested w\<rparr>) in
      (s, if queued w then Notify_all else Notify_none))"

definition sema_give_up :: "Sema_waiter \<Rightarrow> Semaphore \<Rightarrow> Semaphore \<times> notify" where
  "sema_give_up w s = (remove_waiter w s, Notify_all)"

section \<open>System calls\<close>

definition new_semaphore :: "State \<Rightarrow> Semaphore" where
  "new_semaphore s =
     \<lparr>sema_name = (case guest_string s (gpr s 4) of None \<Rightarrow> [] | Some name \<Rightarrow> name),
      sema_count = sint (gpr s 6), sema_maximum = sint (gpr s 7),
      next_wait_ticket = 0, waiting_tickets = []\<rparr>"

definition create_sema :: "State \<Rightarrow> Kernel \<Rightarrow> State \<times> Kernel" where
  "create_sema s k =
     (let (uid, k) = allocate_uid k in
      (set_result uid s, k\<lparr>semaphores := emplace uid (new_semaphore s) (semaphores k)\<rparr>))"

definition delete_sema :: "State \<Rightarrow> Kernel \<Rightarrow> State \<times> Kernel" where
  "delete_sema s k =
     (case lookup (semaphores k) (gpr s 4) of
        None \<Rightarrow> (set_result unimplemented s, k)
      | Some _ \<Rightarrow> (set_result 0 s, k\<lparr>semaphores := erase (gpr s 4) (semaphores k)\<rparr>))"

definition poll_sema :: "State \<Rightarrow> Kernel \<Rightarrow> State \<times> Kernel" where
  "poll_sema s k =
     (case lookup (semaphores k) (gpr s 4) of
        None \<Rightarrow> (set_result unimplemented s, k)
      | Some m \<Rightarrow>
          let (acquired, m) = sema_poll (sint (gpr s 5)) m in
          (set_result (if acquired then 0 else semaphore_zero) s,
           k\<lparr>semaphores := update_object (gpr s 4) m (semaphores k)\<rparr>))"

text \<open>Register 2 keeps its value when the identifier is unknown.\<close>

definition signal_sema :: "State \<Rightarrow> Kernel \<Rightarrow> State \<times> Kernel \<times> notify" where
  "signal_sema s k =
     (case lookup (semaphores k) (gpr s 4) of
        None \<Rightarrow> (s, k, Notify_none)
      | Some m \<Rightarrow>
          (set_result 0 s,
           k\<lparr>semaphores := update_object (gpr s 4) (sema_signal (sint (gpr s 5)) m) (semaphores k)\<rparr>,
           Notify_all))"

text \<open>A thread asleep in a call: the object it holds, its place there, whether it has a time-out.\<close>

record 'w Blocked =
  blocked_uid :: u32
  blocked_waiter :: 'w
  blocked_timed :: bool

definition resume_sema ::
  "Sema_waiter Blocked \<Rightarrow> State \<Rightarrow> Kernel \<Rightarrow> (State \<times> Kernel \<times> notify) option" where
  "resume_sema b s k =
     (case objects (semaphores k) (blocked_uid b) of
        None \<Rightarrow> None
      | Some m \<Rightarrow>
          if sema_available (exit_requested k) m (blocked_waiter b) then
            let (m, n) = sema_finish (exit_requested k) (blocked_waiter b) m in
            Some (set_result 0 s, k\<lparr>semaphores := update_object (blocked_uid b) m (semaphores k)\<rparr>, n)
          else None)"

definition timeout_sema ::
  "Sema_waiter Blocked \<Rightarrow> State \<Rightarrow> Kernel \<Rightarrow> (State \<times> Kernel \<times> notify) option" where
  "timeout_sema b s k =
     (case resume_sema b s k of
        Some r \<Rightarrow> Some r
      | None \<Rightarrow>
          (case objects (semaphores k) (blocked_uid b) of
             None \<Rightarrow> None
           | Some m \<Rightarrow>
               if blocked_timed b then
                 let (m, n) = sema_give_up (blocked_waiter b) m in
                 Some (set_result wait_timeout s,
                       k\<lparr>semaphores := update_object (blocked_uid b) m (semaphores k)\<rparr>, n)
               else None))"

definition wait_sema ::
  "State \<Rightarrow> Kernel \<Rightarrow> State \<times> Kernel \<times> notify \<times> Sema_waiter Blocked option" where
  "wait_sema s k =
     (let n = sint (gpr s 5) in
      case lookup (semaphores k) (gpr s 4) of
        None \<Rightarrow> (set_result unimplemented s, k, Notify_none, None)
      | Some m \<Rightarrow>
          if n \<le> 0 \<or> n > sema_maximum m then (set_result unimplemented s, k, Notify_none, None)
          else
            (case read_timeout s (gpr s 6) of
               None \<Rightarrow> (set_result unimplemented s, k, Notify_none, None)
             | Some timeout \<Rightarrow>
                 let (m, w) = sema_arrive n m;
                     b = \<lparr>blocked_uid = gpr s 4, blocked_waiter = w, blocked_timed = timeout \<noteq> None\<rparr>;
                     k = k\<lparr>semaphores := update_object (gpr s 4) m (semaphores k)\<rparr> in
                 (case resume_sema b s k of
                    Some (s, k, note) \<Rightarrow> (s, k, note, None)
                  | None \<Rightarrow> (s, k, Notify_none, Some b))))"

definition wait_sema_cb ::
  "State \<Rightarrow> Kernel \<Rightarrow> State \<times> Kernel \<times> notify \<times> Sema_waiter Blocked option" where
  "wait_sema_cb s k = wait_sema s k"

section \<open>A semaphore and the threads waiting for it\<close>

datatype Sema_call = Sema_poll int | Sema_signal int

fun sema_call :: "Sema_call \<Rightarrow> Semaphore \<Rightarrow> Semaphore \<times> notify" where
  "sema_call (Sema_poll n) s = (snd (sema_poll n s), Notify_none)"
| "sema_call (Sema_signal n) s = (sema_signal n s, Notify_all)"

text \<open>\<open>WaitSema\<close> checks its request before it takes a ticket.\<close>

definition sema_enter :: "int \<Rightarrow> Semaphore \<Rightarrow> (Semaphore \<times> Sema_waiter) option" where
  "sema_enter n s = (if n \<le> 0 \<or> n > sema_maximum s then None else Some (sema_arrive n s))"

text \<open>
  The waiting tickets are those of the waiting threads, in the order they were drawn, and
  the count never exceeds the maximum.
\<close>

definition sema_inv :: "Semaphore \<Rightarrow> Sema_waiter multiset \<Rightarrow> bool" where
  "sema_inv s W \<longleftrightarrow>
     sema_count s \<le> sema_maximum s \<and>
     sorted_wrt (<) (waiting_tickets s) \<and> (\<forall>i \<in> set (waiting_tickets s). i < next_wait_ticket s) \<and>
     image_mset wait_ticket W = mset (waiting_tickets s) \<and>
     (\<forall>w \<in># W. queued w \<and> 0 < requested w)"

lemma sema_inv_ticket: "sema_inv s W \<Longrightarrow> v \<in># W \<Longrightarrow> wait_ticket v \<in> set (waiting_tickets s)"
  unfolding sema_inv_def by (metis image_eqI multiset.set_map set_mset_mset)

lemma sorted_wrt_remove1: "sorted_wrt P xs \<Longrightarrow> sorted_wrt P (remove1 x xs)"
  by (induction xs) (auto dest: subsetD [OF set_remove1_subset])

lemma sema_inv_remove:
  assumes "sema_inv s (add_mset w W)"
  shows "sema_inv (remove_waiter w s) W"
proof -
  have w: "wait_ticket w \<in> set (waiting_tickets s)" using sema_inv_ticket [OF assms, of w] by simp
  have "add_mset (wait_ticket w) (image_mset wait_ticket W) =
      add_mset (wait_ticket w) (mset (remove1 (wait_ticket w) (waiting_tickets s)))"
    using assms mset_remove1_add [OF w] by (simp add: sema_inv_def)
  then show ?thesis
    using assms by (auto simp: sema_inv_def remove_waiter_def sorted_wrt_remove1 dest: subsetD [OF set_remove1_subset])
qed

text \<open>A thread that arrives goes through at once only when nobody waits.\<close>

lemma sema_enter_ready:
  assumes "sema_inv s W" "sema_enter n s = Some (u, w)" "sema_available False u w"
  shows "waiting_tickets s = []" "\<not> queued w" "requested w = n" "0 < n" "n \<le> sema_count s"
    "u = s\<lparr>next_wait_ticket := next_wait_ticket s + 1\<rparr>"
proof -
  have "next_wait_ticket s \<notin> set (waiting_tickets s)" using assms(1) by (auto simp: sema_inv_def)
  then have h: "hd (waiting_tickets s) \<noteq> next_wait_ticket s" if "waiting_tickets s \<noteq> []"
    using that by (metis hd_in_set)
  show t: "waiting_tickets s = []"
    using assms(2,3) h
    by (cases "waiting_tickets s = []") (auto simp: sema_enter_def sema_arrive_def Let_def sema_available_def split: if_splits)
  show "\<not> queued w" "requested w = n" "0 < n" "n \<le> sema_count s"
    "u = s\<lparr>next_wait_ticket := next_wait_ticket s + 1\<rparr>"
    using assms(2,3) t by (cases s; auto simp: sema_enter_def sema_arrive_def Let_def sema_available_def split: if_splits)+
qed

lemmas sema_op_defs =
  sema_enter_def sema_arrive_def sema_available_def sema_finish_def sema_give_up_def remove_waiter_def

interpretation sema: broadcast_object "sema_available False" sema_call sema_enter "sema_finish False"
  "\<lambda>w s. Some (sema_give_up w s)" sema_inv
proof unfold_locales
  fix s t u :: Semaphore and W :: "Sema_waiter multiset" and c n m v w r
  assume inv: "sema_inv s W"
  show "sema_inv t W" if "sema_call c s = (t, n)"
    using inv that by (cases c) (auto simp: sema_inv_def sema_poll_def sema_signal_def split: if_splits)
  show "sema_available False s v"
    if "sema_call c s = (t, n)" "n \<noteq> Notify_all" "v \<in># W" "sema_available False t v"
    using that by (cases c) (auto simp: sema_poll_def sema_available_def split: if_splits)
  show "sema_inv t (add_mset w W)"
    if "sema_enter r s = Some (t, w)" "\<not> sema_available False t w"
    using inv that
    by (auto simp: sema_inv_def sema_enter_def sema_arrive_def Let_def sema_available_def sorted_wrt_append
        less_Suc_eq split: if_splits)
  show "sema_available False s v"
    if "sema_enter r s = Some (t, w)" "\<not> sema_available False t w" "v \<in># W" "sema_available False t v"
    using sema_inv_ticket [OF inv that(3)] inv that
    by (auto simp: sema_inv_def sema_enter_def sema_arrive_def Let_def sema_available_def hd_append
        split: if_splits)
  show "sema_inv t W" if "sema_enter r s = Some (u, w)" "sema_available False u w" "sema_finish False w u = (t, n)"
    using inv sema_enter_ready [OF inv that(1,2)] that(3)
    by (auto simp: sema_inv_def sema_finish_def remove_waiter_def)
  show "sema_available False s v"
    if "sema_enter r s = Some (u, w)" "sema_available False u w" "sema_finish False w u = (t, n)"
      "n \<noteq> Notify_all" "v \<in># W" "sema_available False t v"
    using sema_inv_ticket [OF inv that(5)] sema_enter_ready [OF inv that(1,2)] by simp
next
  fix s t :: Semaphore and W :: "Sema_waiter multiset" and n v w
  assume inv: "sema_inv s (add_mset w W)"
  have q: "queued w" "0 < requested w" using inv by (simp_all add: sema_inv_def)
  show "sema_inv t W" if "sema_available False s w" "sema_finish False w s = (t, n)"
    using sema_inv_remove [OF inv] that q
    by (auto simp: sema_inv_def sema_finish_def Let_def remove_waiter_def)
  show "sema_available False s v"
    if "sema_available False s w" "sema_finish False w s = (t, n)" "n \<noteq> Notify_all" "v \<in># W"
      "sema_available False t v"
    using that q by (simp add: sema_finish_def Let_def)
  show "sema_inv t W" if "\<not> sema_available False s w" "Some (sema_give_up w s) = Some (t, n)"
    using sema_inv_remove [OF inv] that by (simp add: sema_give_up_def)
  show "sema_available False s v"
    if "\<not> sema_available False s w" "Some (sema_give_up w s) = Some (t, n)" "n \<noteq> Notify_all" "v \<in># W"
      "sema_available False t v"
    using that by (simp add: sema_give_up_def)
qed

abbreviation sema_step ::
  "Semaphore \<times> Sema_waiter list \<times> Sema_waiter list \<Rightarrow> Semaphore \<times> Sema_waiter list \<times> Sema_waiter list \<Rightarrow> bool" where
  "sema_step \<equiv> wait_step (sema_available False) sema_call sema_enter (sema_finish False)
     (\<lambda>w s. Some (sema_give_up w s))"

abbreviation sema_woken ::
  "Semaphore \<times> Sema_waiter list \<times> Sema_waiter list \<Rightarrow> Semaphore \<times> Sema_waiter list \<times> Sema_waiter list \<Rightarrow> bool" where
  "sema_woken \<equiv> woken_step (sema_available False) (sema_finish False)"

lemma sema_start: "waiting_tickets s = [] \<Longrightarrow> sema_count s \<le> sema_maximum s \<Longrightarrow> sema_inv s {#}"
  by (simp add: sema_inv_def)

text \<open>The front ticket is the lowest.\<close>

lemma sema_front_lowest:
  assumes "sema_inv s W" "v \<in># W" "w \<in># W" "hd (waiting_tickets s) = wait_ticket w"
  shows "wait_ticket w \<le> wait_ticket v"
proof (cases "waiting_tickets s")
  case Nil
  then show ?thesis using sema_inv_ticket [OF assms(1,2)] by simp
next
  case (Cons t ts)
  then have "sorted_wrt (<) (t # ts)" using assms(1) by (simp add: sema_inv_def)
  then show ?thesis using sema_inv_ticket [OF assms(1,2)] assms(4) Cons by auto
qed

text \<open>
  C9. Semaphores are fair and lose no wake-up. In every state that calls, arrivals, wake-ups
  and time-outs lead to: no thread sleeps while it could go on; the count is at most the
  maximum; only the thread with the lowest ticket can go on; and while anyone waits, no
  polling thread and no thread that arrives gets past.
\<close>

theorem sema_fair:
  assumes "sema_step\<^sup>*\<^sup>* (s0, [], []) (s, S, A)"
    and "waiting_tickets s0 = []" "sema_count s0 \<le> sema_maximum s0"
  shows "(\<forall>w \<in> set S. \<not> sema_available False s w) \<and> sema_count s \<le> sema_maximum s \<and>
    (\<forall>w \<in> set (S @ A). \<forall>v \<in> set (S @ A). sema_available False s w \<longrightarrow> wait_ticket w \<le> wait_ticket v) \<and>
    (S @ A \<noteq> [] \<longrightarrow> (\<forall>n. sema_poll n s = (False, s)) \<and>
       (\<forall>n u w. sema_enter n s = Some (u, w) \<longrightarrow> \<not> sema_available False u w))"
proof -
  note inv = sema.no_lost_wakeup(2) [OF assms(1) sema_start [OF assms(2,3)]]
  have all: "set (S @ A) = set_mset (mset S + mset A)" by simp
  have q: "queued w" if "w \<in> set (S @ A)" for w
    using inv that unfolding all by (simp add: sema_inv_def)
  have "wait_ticket w \<le> wait_ticket v"
    if "w \<in> set (S @ A)" "v \<in> set (S @ A)" "sema_available False s w" for w v
    using sema_front_lowest [OF inv] q [OF that(1)] that unfolding all by (simp add: sema_available_def)
  moreover have "waiting_tickets s \<noteq> []" if "S @ A \<noteq> []"
  proof -
    obtain w where "w \<in> set (S @ A)" using \<open>S @ A \<noteq> []\<close> by (meson last_in_set)
    then show ?thesis using sema_inv_ticket [OF inv, of w] unfolding all by auto
  qed
  ultimately show ?thesis
    using sema.no_lost_wakeup(1) [OF assms(1) sema_start [OF assms(2,3)]] inv sema_enter_ready(1) [OF inv]
    by (auto simp: sema_poll_def sema_inv_def)
qed

text \<open>The requests still waiting, and how a woken thread changes them.\<close>

definition demand :: "Sema_waiter list \<Rightarrow> Sema_waiter list \<Rightarrow> int" where
  "demand S A = sum_list (map requested (S @ A))"

lemma demand_mset: "demand S A = \<Sum>\<^sub># (image_mset requested (mset S + mset A))"
  by (simp add: demand_def sum_mset_sum_list flip: mset_map)

lemma demand_pos: "sema_inv s (mset S + mset A) \<Longrightarrow> w \<in> set (S @ A) \<Longrightarrow> requested w \<le> demand S A"
  unfolding demand_def
  by (rule member_le_sum_list) (auto simp: sema_inv_def intro: less_imp_le)

lemma woken_demand:
  assumes "sema_woken (s, S, A) (t, S', A')" "sema_inv s (mset S + mset A)"
  shows "sema_count t - demand S' A' = sema_count s - demand S A"
  using assms
proof cases
  case (serve w n)
  have "queued w" using assms(2) serve(1) by (simp add: sema_inv_def)
  then have t: "sema_count t = sema_count s - requested w" "n = Notify_all"
    using serve(3) by (auto simp: sema_finish_def Let_def remove_waiter_def)
  have "add_mset w (mset S' + mset A') = add_mset w (mset S + mset (remove1 w A))"
    using wakes_mset [OF serve(4)] by simp
  also have "\<dots> = mset S + mset A" using mset_remove1_add [OF serve(1)] by simp
  finally have "mset S + mset A = add_mset w (mset S' + mset A')" by (rule sym)
  then have "demand S A = requested w + demand S' A'" by (simp add: demand_mset)
  then show ?thesis using t by simp
next
  case (recheck w)
  then have "mset S' + mset A' = mset S + mset A" using mset_remove1_add [of w A] by auto
  then show ?thesis using recheck by (simp add: demand_mset)
qed

lemma woken_run:
  assumes "sema_woken\<^sup>*\<^sup>* (s, S, A) (t, S', A')" "sema.good (s, S, A)"
  shows "sema.good (t, S', A') \<and> sema_count t - demand S' A' = sema_count s - demand S A"
  using assms(1)
proof (induction "(t, S', A')" arbitrary: t S' A' rule: rtranclp_induct)
  case base
  then show ?case using assms(2) by simp
next
  case (step y)
  obtain u B C where y: "y = (u, B, C)" by (cases y)
  then have "sema.good (u, B, C)" "sema_count u - demand B C = sema_count s - demand S A"
    using step.hyps(3) by simp_all
  then show ?case
    using woken_demand [of u B C t S' A'] sema.good_step [OF woken_wait_step] step.hyps(2)
    by (auto simp: y sema.good_def)
qed

text \<open>
  C10. Every waiter is served. When the count covers the requests of all the threads waiting,
  the woken threads alone, in whatever order they run, stop after finitely many steps, and
  then no thread is left waiting and the count is what remains.
\<close>

theorem sema_all_served:
  assumes "sema_step\<^sup>*\<^sup>* (s0, [], []) (s, S, A)"
    and "waiting_tickets s0 = []" "sema_count s0 \<le> sema_maximum s0"
    and "demand S A \<le> sema_count s"
  shows "(\<nexists>run. run 0 = (s, S, A) \<and> (\<forall>i. sema_woken (run i) (run (Suc i)))) \<and>
    (\<forall>t S' A'. sema_woken\<^sup>*\<^sup>* (s, S, A) (t, S', A') \<and> (\<nexists>m. sema_woken (t, S', A') m) \<longrightarrow>
       S' = [] \<and> A' = [] \<and> sema_count t = sema_count s - demand S A)"
proof (intro conjI allI impI)
  show "\<nexists>run. run 0 = (s, S, A) \<and> (\<forall>i. sema_woken (run i) (run (Suc i)))"
    using woken_wf [of "sema_available False" "sema_finish False"]
    unfolding wf_iff_no_infinite_down_chain by blast
next
  fix t S' A' assume run: "sema_woken\<^sup>*\<^sup>* (s, S, A) (t, S', A') \<and> (\<nexists>m. sema_woken (t, S', A') m)"
  have "sema.good (s, S, A)"
    using sema.good_run [OF assms(1)] sema_start [OF assms(2,3)] by (simp add: sema.good_def)
  then have good: "sema.good (t, S', A')" and d: "sema_count t - demand S' A' = sema_count s - demand S A"
    using woken_run run by blast+
  then have inv: "sema_inv t (mset S' + mset A')" by (simp add: sema.good_def)
  have "A' = []"
  proof (rule ccontr)
    assume "A' \<noteq> []"
    then obtain w where w: "w \<in> set A'" by (meson last_in_set)
    show False
    proof (cases "sema_available False t w")
      case True
      obtain u n where "sema_finish False w t = (u, n)" by fastforce
      moreover have "n = Notify_all"
        using calculation inv w by (auto simp: sema_finish_def Let_def sema_inv_def)
      ultimately have "sema_woken (t, S', A') (u, [], S' @ remove1 w A')"
        using w True by (blast intro: woken_step.serve wakes.all)
      then show False using run by blast
    next
      case False
      then show False using run w by (blast intro: woken_step.recheck)
    qed
  qed
  moreover have "S' = []"
  proof (rule ccontr)
    assume "S' \<noteq> []"
    then have "mset S' + mset A' \<noteq> {#}" by simp
    then have "waiting_tickets t \<noteq> []" using inv by (auto simp: sema_inv_def)
    then have "hd (waiting_tickets t) \<in># image_mset wait_ticket (mset S' + mset A')"
      using inv by (simp add: sema_inv_def)
    then obtain w where w: "w \<in> set S'" "wait_ticket w = hd (waiting_tickets t)"
      using \<open>A' = []\<close> by auto
    have "requested w \<le> sema_count t"
      using demand_pos [OF inv, of w] w(1) d assms(4) by simp
    then have "sema_available False t w"
      using w \<open>waiting_tickets t \<noteq> []\<close> by (simp add: sema_available_def)
    then show False using good w(1) by (simp add: sema.good_def)
  qed
  ultimately show "S' = []" "A' = []" "sema_count t = sema_count s - demand S A"
    using d by (simp_all add: demand_def)
qed

definition sample_semaphore :: "int \<Rightarrow> nat \<Rightarrow> nat list \<Rightarrow> Semaphore" where
  "sample_semaphore n next tickets =
     \<lparr>sema_name = [], sema_count = n, sema_maximum = 2, next_wait_ticket = next, waiting_tickets = tickets\<rparr>"

abbreviation sample_waiter :: "nat \<Rightarrow> Sema_waiter" where
  "sample_waiter i \<equiv> \<lparr>wait_ticket = i, requested = 1, queued = True\<rparr>"

text \<open>Two threads wait for an empty semaphore, then it is signalled twice.\<close>

lemma sample_sema_run:
  "sema_step\<^sup>*\<^sup>* (sample_semaphore 0 0 [], [], [])
     (sample_semaphore 2 2 [0, 1], [], [sample_waiter 1, sample_waiter 0])"
proof -
  have a: "sema_step (sample_semaphore 0 0 [], [], []) (sample_semaphore 0 1 [0], [sample_waiter 0], [])"
    by (rule wait_step.sleep [where r = 1])
      (simp_all add: sema_enter_def sema_arrive_def Let_def sample_semaphore_def sema_available_def)
  have b: "sema_step (sample_semaphore 0 1 [0], [sample_waiter 0], [])
      (sample_semaphore 0 2 [0, 1], [sample_waiter 1, sample_waiter 0], [])"
    by (rule wait_step.sleep [where r = 1])
      (simp_all add: sema_enter_def sema_arrive_def Let_def sample_semaphore_def sema_available_def)
  have c: "sema_step (sample_semaphore 0 2 [0, 1], [sample_waiter 1, sample_waiter 0], [])
      (sample_semaphore 2 2 [0, 1], [], [sample_waiter 1, sample_waiter 0])"
    by (rule wait_step.call [where c = "Sema_signal 2" and n = Notify_all])
      (simp_all add: sema_signal_def sample_semaphore_def)
  show ?thesis using a b c by (meson converse_rtranclp_into_rtranclp r_into_rtranclp)
qed

lemma sema_fair_witness:
  "sema_poll 1 (sample_semaphore 2 2 [0, 1]) = (False, sample_semaphore 2 2 [0, 1]) \<and>
   \<not> sema_available False (sample_semaphore 2 2 [0, 1]) (sample_waiter 1)"
  using sema_fair [OF sample_sema_run] by (auto simp: sample_semaphore_def)

lemma sema_all_served_witness:
  "\<nexists>run. run 0 = (sample_semaphore 2 2 [0, 1], [], [sample_waiter 1, sample_waiter 0]) \<and>
     (\<forall>i. sema_woken (run i) (run (Suc i)))"
  using sema_all_served [OF sample_sema_run] by (simp add: sample_semaphore_def demand_def)



abbreviation sample_kernel :: Kernel where
  "sample_kernel \<equiv> initial_kernel (configure_heap 0x08800000 0x1800000 0x100000 0x4000)"


end
