(* ===== verification/Mutexes.thy ===== *)
theory Mutexes
  imports Kernel_State
begin

text \<open>
  Recursive mutexes, \<open>sceKernelCreateMutex\<close> to \<open>sceKernelUnlockMutex\<close>. A waiting thread goes
  on when the lock count is 0 or it is the owner. The code does not check that the thread
  that unlocks is the owner; the theorem at the end says what holds when every thread
  unlocks only what it has locked, \<open>unlock_by_stranger\<close> what happens otherwise.
\<close>

section \<open>Under the mutex\<close>

record Mutex_waiter =
  lock_thread :: int
  lock_amount :: int

text \<open>\<open>static_cast<int>(state.gpr[5] ? state.gpr[5] : 1)\<close>\<close>

definition lock_argument :: "u32 \<Rightarrow> int" where
  "lock_argument v = sint (if v \<noteq> 0 then v else 1)"

definition mutex_available :: "bool \<Rightarrow> Mutex \<Rightarrow> Mutex_waiter \<Rightarrow> bool" where
  "mutex_available exiting m w \<longleftrightarrow> lock_count m = 0 \<or> owner_thread_id m = lock_thread w \<or> exiting"

definition mutex_finish :: "bool \<Rightarrow> Mutex_waiter \<Rightarrow> Mutex \<Rightarrow> Mutex" where
  "mutex_finish exiting w m =
     (if exiting then m
      else m\<lparr>owner_thread_id := lock_thread w, lock_count := int_wrap (lock_count m + lock_amount w)\<rparr>)"

definition mutex_unlock :: "int \<Rightarrow> Mutex \<Rightarrow> Mutex \<times> notify" where
  "mutex_unlock n m =
     (let m = m\<lparr>lock_count := max 0 (int_wrap (lock_count m - n))\<rparr> in
      if lock_count m = 0 then (m\<lparr>owner_thread_id := -1\<rparr>, Notify_all) else (m, Notify_none))"

section \<open>System calls\<close>

definition new_mutex :: "State \<Rightarrow> Mutex" where
  "new_mutex s =
     \<lparr>mutex_name = (case guest_string s (gpr s 4) of None \<Rightarrow> [] | Some name \<Rightarrow> name),
      lock_count = 0, owner_thread_id = -1\<rparr>"

definition create_mutex :: "State \<Rightarrow> Kernel \<Rightarrow> State \<times> Kernel" where
  "create_mutex s k =
     (let (uid, k) = allocate_uid k in
      (set_result uid s, k\<lparr>mutexes := emplace uid (new_mutex s) (mutexes k)\<rparr>))"

definition delete_mutex :: "State \<Rightarrow> Kernel \<Rightarrow> State \<times> Kernel" where
  "delete_mutex s k =
     (case lookup (mutexes k) (gpr s 4) of
        Some _ \<Rightarrow> (set_result 0 s, k\<lparr>mutexes := erase (gpr s 4) (mutexes k)\<rparr>)
      | None \<Rightarrow> (set_result unimplemented s, k))"

definition unlock_mutex :: "State \<Rightarrow> Kernel \<Rightarrow> State \<times> Kernel \<times> notify" where
  "unlock_mutex s k =
     (case lookup (mutexes k) (gpr s 4) of
        None \<Rightarrow> (set_result unimplemented s, k, Notify_none)
      | Some m \<Rightarrow>
          let (m, n) = mutex_unlock (lock_argument (gpr s 5)) m in
          (set_result 0 s, k\<lparr>mutexes := update_object (gpr s 4) m (mutexes k)\<rparr>, n))"

text \<open>The thread goes on, with the result 0 unless the program is ending.\<close>

definition resume_mutex ::
  "u32 \<Rightarrow> Mutex_waiter \<Rightarrow> State \<Rightarrow> Kernel \<Rightarrow> (State \<times> Kernel) option" where
  "resume_mutex uid w s k =
     (case objects (mutexes k) uid of
        None \<Rightarrow> None
      | Some m \<Rightarrow>
          if mutex_available (exit_requested k) m w then
            Some (set_result (if exit_requested k then wait_timeout else 0) s,
                  k\<lparr>mutexes := update_object uid (mutex_finish (exit_requested k) w m) (mutexes k)\<rparr>)
          else None)"

definition timeout_mutex ::
  "u32 \<Rightarrow> Mutex_waiter \<Rightarrow> State \<Rightarrow> Kernel \<Rightarrow> State \<times> Kernel" where
  "timeout_mutex uid w s k =
     (case resume_mutex uid w s k of Some r \<Rightarrow> r | None \<Rightarrow> (set_result wait_timeout s, k))"

definition lock_mutex ::
  "int \<Rightarrow> State \<Rightarrow> Kernel \<Rightarrow> State \<times> Kernel \<times> (Mutex_waiter \<times> bool) option" where
  "lock_mutex current_thread s k =
     (case lookup (mutexes k) (gpr s 4) of
        None \<Rightarrow> (set_result unimplemented s, k, None)
      | Some m \<Rightarrow>
          (case read_timeout s (gpr s 6) of
             None \<Rightarrow> (set_result unimplemented s, k, None)
           | Some timeout \<Rightarrow>
               let w = \<lparr>lock_thread = current_thread, lock_amount = lock_argument (gpr s 5)\<rparr> in
               (case resume_mutex (gpr s 4) w s k of
                  Some (s, k) \<Rightarrow> (s, k, None)
                | None \<Rightarrow> (s, k, Some (w, timeout \<noteq> None)))))"

section \<open>Threads that unlock what they locked\<close>

text \<open>
  The mutex with what each thread holds of it and the threads blocked on it: a blocked thread
  makes no call, a thread unlocks at most what it holds, and the nesting stays below 2^31.
\<close>

record Mutex_use =
  the_mutex :: Mutex
  held :: "int \<Rightarrow> int"
  blocked_threads :: "int set"

datatype Mutex_call = Unlock int int

fun mutex_call :: "Mutex_call \<Rightarrow> Mutex_use \<Rightarrow> Mutex_use \<times> notify" where
  "mutex_call (Unlock thread n) u =
     (if thread \<in> blocked_threads u \<or> n \<le> 0 \<or> held u thread < n then (u, Notify_none)
      else let (m, note) = mutex_unlock n (the_mutex u) in
        (u\<lparr>the_mutex := m, held := (held u)(thread := held u thread - n)\<rparr>, note))"

definition mutex_enter :: "int \<times> int \<Rightarrow> Mutex_use \<Rightarrow> (Mutex_use \<times> Mutex_waiter) option" where
  "mutex_enter r u =
     (let (thread, n) = r in
      if thread \<in> blocked_threads u \<or> thread < 0 \<or> n \<le> 0 \<or> n + held u thread \<ge> 2 ^ 31 then None
      else Some (u\<lparr>blocked_threads := insert thread (blocked_threads u)\<rparr>,
                 \<lparr>lock_thread = thread, lock_amount = n\<rparr>))"

definition mutex_use_available :: "Mutex_use \<Rightarrow> Mutex_waiter \<Rightarrow> bool" where
  "mutex_use_available u w \<longleftrightarrow> mutex_available False (the_mutex u) w"

definition mutex_use_finish :: "Mutex_waiter \<Rightarrow> Mutex_use \<Rightarrow> Mutex_use \<times> notify" where
  "mutex_use_finish w u =
     (u\<lparr>the_mutex := mutex_finish False w (the_mutex u),
        held := (held u)(lock_thread w := held u (lock_thread w) + lock_amount w),
        blocked_threads := blocked_threads u - {lock_thread w}\<rparr>, Notify_none)"

definition mutex_use_give_up :: "Mutex_waiter \<Rightarrow> Mutex_use \<Rightarrow> (Mutex_use \<times> notify) option" where
  "mutex_use_give_up w u =
     Some (u\<lparr>blocked_threads := blocked_threads u - {lock_thread w}\<rparr>, Notify_none)"

definition mutex_inv :: "Mutex_use \<Rightarrow> Mutex_waiter multiset \<Rightarrow> bool" where
  "mutex_inv u W \<longleftrightarrow>
     finite (blocked_threads u) \<and> image_mset lock_thread W = mset_set (blocked_threads u) \<and>
     (\<forall>w \<in># W. 0 < lock_amount w \<and> lock_amount w < 2 ^ 31 \<and> 0 \<le> lock_thread w \<and> held u (lock_thread w) = 0) \<and>
     0 \<le> lock_count (the_mutex u) \<and> lock_count (the_mutex u) < 2 ^ 31 \<and>
     (lock_count (the_mutex u) = 0 \<longleftrightarrow> owner_thread_id (the_mutex u) = -1) \<and>
     (\<forall>t. held u t = (if t = owner_thread_id (the_mutex u) then lock_count (the_mutex u) else 0))"

lemma mutex_inv_threads:
  "mutex_inv u W \<Longrightarrow> v \<in># W \<Longrightarrow> lock_thread v \<in> blocked_threads u"
  unfolding mutex_inv_def
  by (metis elem_mset_set image_eqI multiset.set_map)

lemma mutex_inv_remove:
  assumes "mutex_inv u (add_mset w W)"
  shows "image_mset lock_thread W = mset_set (blocked_threads u - {lock_thread w})"
    "\<And>v. v \<in># W \<Longrightarrow> lock_thread v \<noteq> lock_thread w"
proof -
  have f: "finite (blocked_threads u)" and w: "lock_thread w \<in> blocked_threads u"
    and i: "add_mset (lock_thread w) (image_mset lock_thread W) = mset_set (blocked_threads u)"
    using assms mutex_inv_threads [OF assms, of w] by (auto simp: mutex_inv_def)
  then show e: "image_mset lock_thread W = mset_set (blocked_threads u - {lock_thread w})"
    by (metis add_mset_remove_trivial mset_set_Diff finite.emptyI finite.insertI mset_set.insert mset_set.empty
        empty_iff empty_subsetI insert_subset diff_single_eq_union)
  show "lock_thread v \<noteq> lock_thread w" if "v \<in># W" for v
  proof -
    have "lock_thread v \<in># image_mset lock_thread W" using that by auto
    then show ?thesis unfolding e using f by simp
  qed
qed

lemma int_wrap_sum_nonzero:
  "0 \<le> i \<Longrightarrow> i < 2 ^ 31 \<Longrightarrow> 0 < j \<Longrightarrow> j + i < 2 ^ 31 \<Longrightarrow> int_wrap (i + j) = i + j"
  by simp

text \<open>One lemma for each operation of a thread.\<close>

lemma mutex_inv_unlock:
  assumes inv: "mutex_inv u W" and h: "thread \<notin> blocked_threads u" "0 < n" "n \<le> held u thread"
    and m: "mutex_unlock n (the_mutex u) = (m, note)"
  shows "mutex_inv (u\<lparr>the_mutex := m, held := (held u)(thread := held u thread - n)\<rparr>) W"
    "note \<noteq> Notify_all \<Longrightarrow> mutex_available False m v \<Longrightarrow> mutex_available False (the_mutex u) v"
proof -
  have o: "owner_thread_id (the_mutex u) = thread" "held u thread = lock_count (the_mutex u)"
    using inv h by (auto simp: mutex_inv_def split: if_splits)
  have c: "int_wrap (lock_count (the_mutex u) - n) = lock_count (the_mutex u) - n"
    using inv h o by (intro int_wrap_in_range) (auto simp: mutex_inv_def)
  have t: "thread \<noteq> lock_thread w" if "w \<in># W" for w
    using mutex_inv_threads [OF inv that] h(1) by auto
  have l: "0 \<le> lock_count (the_mutex u) - n" "lock_count (the_mutex u) - n < 2 ^ 31" "thread \<noteq> -1 "
    using inv h o by (auto simp: mutex_inv_def)
  have m': "m = (the_mutex u)\<lparr>lock_count := lock_count (the_mutex u) - n,
      owner_thread_id := if lock_count (the_mutex u) = n then -1 else thread\<rparr>"
    using m l(1) o(1) c by (cases "the_mutex u") (auto simp: mutex_unlock_def Let_def split: if_splits)
  have "held u x = (if x = thread then lock_count (the_mutex u) else 0)" for x
    using inv o(1) unfolding mutex_inv_def by metis
  then show "mutex_inv (u\<lparr>the_mutex := m, held := (held u)(thread := held u thread - n)\<rparr>) W"
    using inv l t by (auto simp: mutex_inv_def m' o)
  show "note \<noteq> Notify_all \<Longrightarrow> mutex_available False m v \<Longrightarrow> mutex_available False (the_mutex u) v"
    using m by (auto simp: mutex_unlock_def mutex_available_def Let_def split: if_splits)
qed

lemma mutex_inv_finish:
  assumes inv: "mutex_inv u (add_mset w W)" and a: "mutex_use_available u w" "lock_amount w + held u (lock_thread w) < 2 ^ 31"
    and t: "mutex_use_finish w u = (t, n)"
  shows "mutex_inv t W" "v \<in># W \<Longrightarrow> \<not> mutex_use_available t v"
proof -
  have h: "0 < lock_amount w" "0 \<le> lock_thread w" "held u (lock_thread w) = 0"
    "0 \<le> lock_count (the_mutex u)" "lock_count (the_mutex u) < 2 ^ 31"
    using inv unfolding mutex_inv_def by (blast intro: union_single_eq_member)+
  have "held u (lock_thread w) = (if lock_thread w = owner_thread_id (the_mutex u) then lock_count (the_mutex u) else 0)"
    using inv unfolding mutex_inv_def by blast
  then have c0: "lock_count (the_mutex u) = 0"
    using a(1) h(3) by (auto simp: mutex_use_available_def mutex_available_def)
  show "mutex_inv t W"
    using inv t h a(2) c0 mutex_inv_remove [OF inv]
    by (auto simp: mutex_inv_def mutex_use_finish_def mutex_finish_def)
  show "v \<in># W \<Longrightarrow> \<not> mutex_use_available t v"
    using t h a(2) c0 mutex_inv_remove(2) [OF inv, of v]
    by (auto simp: mutex_use_finish_def mutex_finish_def mutex_use_available_def mutex_available_def)
qed

lemma mutex_inv_enter:
  assumes inv: "mutex_inv u W" and r: "mutex_enter r u = Some (u', w)" and a: "mutex_use_available u' w"
    and t: "mutex_use_finish w u' = (t, n)"
  shows "mutex_inv t W" "v \<in># W \<Longrightarrow> \<not> mutex_use_available t v"
proof -
  let ?m = "the_mutex u"
  have w: "lock_thread w \<notin> blocked_threads u" "0 \<le> lock_thread w" "0 < lock_amount w"
      "lock_amount w + held u (lock_thread w) < 2 ^ 31"
      "u' = u\<lparr>blocked_threads := insert (lock_thread w) (blocked_threads u)\<rparr>"
    using r by (auto simp: mutex_enter_def Let_def split: prod.splits if_splits)
  have h: "held u x = (if x = owner_thread_id ?m then lock_count ?m else 0)" for x
    using inv unfolding mutex_inv_def by blast
  have a': "lock_count ?m = 0 \<or> owner_thread_id ?m = lock_thread w"
    using a by (simp add: w(5) mutex_use_available_def mutex_available_def)
  have c: "held u (lock_thread w) = lock_count ?m" "0 \<le> lock_count ?m" "lock_count ?m < 2 ^ 31"
    using h a' inv by (auto simp: mutex_inv_def)
  have i: "int_wrap (lock_count ?m + lock_amount w) = lock_count ?m + lock_amount w"
    using c w by (intro int_wrap_in_range) auto
  have t': "t = u\<lparr>the_mutex := ?m\<lparr>owner_thread_id := lock_thread w, lock_count := lock_count ?m + lock_amount w\<rparr>,
      held := (held u)(lock_thread w := lock_count ?m + lock_amount w)\<rparr>"
    using t w(1) c(1) i by (cases u) (auto simp: w(5) mutex_use_finish_def mutex_finish_def)
  have W: "lock_thread v \<noteq> lock_thread w" if "v \<in># W" for v
    using mutex_inv_threads [OF inv that] w(1) by auto
  have "\<And>x. x \<noteq> lock_thread w \<Longrightarrow> held u x = 0" using h a' by auto
  then show "mutex_inv t W"
    using inv W w(2-4) c by (auto simp: t' mutex_inv_def)
  show "v \<in># W \<Longrightarrow> \<not> mutex_use_available t v"
    using W [of v] w(3) c(2) by (simp add: t' mutex_use_available_def mutex_available_def)
qed

lemma mutex_inv_sleep:
  assumes inv: "mutex_inv u W" and r: "mutex_enter r u = Some (t, w)" and a: "\<not> mutex_use_available t w"
  shows "mutex_inv t (add_mset w W)" "the_mutex t = the_mutex u"
proof -
  have w: "lock_thread w \<notin> blocked_threads u" "0 \<le> lock_thread w" "0 < lock_amount w"
      "lock_amount w + held u (lock_thread w) < 2 ^ 31"
      "t = u\<lparr>blocked_threads := insert (lock_thread w) (blocked_threads u)\<rparr>"
    using r by (auto simp: mutex_enter_def Let_def split: prod.splits if_splits)
  have h: "held u x = (if x = owner_thread_id (the_mutex u) then lock_count (the_mutex u) else 0)" for x
    using inv unfolding mutex_inv_def by blast
  have "held u (lock_thread w) = 0" using a h by (auto simp: w(5) mutex_use_available_def mutex_available_def)
  then show "mutex_inv t (add_mset w W)" using inv w(1-4) by (auto simp: mutex_inv_def w(5))
  show "the_mutex t = the_mutex u" by (simp add: w(5))
qed

interpretation mutex: broadcast_object mutex_use_available mutex_call mutex_enter mutex_use_finish
  mutex_use_give_up mutex_inv
proof unfold_locales
  fix u t u' :: Mutex_use and W :: "Mutex_waiter multiset" and c n v w r
  assume inv: "mutex_inv u W"
  obtain thread i where c: "c = Unlock thread i" by (cases c)
  show "mutex_inv t W" if "mutex_call c u = (t, n)"
    using that inv mutex_inv_unlock(1) [OF inv, of thread i]
    by (auto simp: c not_le not_less split: if_splits prod.splits)
  show "mutex_use_available u v"
    if "mutex_call c u = (t, n)" "n \<noteq> Notify_all" "v \<in># W" "mutex_use_available t v"
    using that inv mutex_inv_unlock(2) [OF inv, of thread i]
    by (auto simp: c not_le not_less mutex_use_available_def split: if_splits prod.splits)
  show "mutex_inv t (add_mset w W)" if "mutex_enter r u = Some (t, w)" "\<not> mutex_use_available t w"
    using mutex_inv_sleep(1) [OF inv that] .
  show "mutex_use_available u v"
    if "mutex_enter r u = Some (t, w)" "\<not> mutex_use_available t w" "v \<in># W" "mutex_use_available t v"
    using mutex_inv_sleep(2) [OF inv that(1,2)] that(4) by (simp add: mutex_use_available_def)
  show "mutex_inv t W"
    if "mutex_enter r u = Some (u', w)" "mutex_use_available u' w" "mutex_use_finish w u' = (t, n)"
    using mutex_inv_enter(1) [OF inv that] .
  show "mutex_use_available u v"
    if "mutex_enter r u = Some (u', w)" "mutex_use_available u' w" "mutex_use_finish w u' = (t, n)"
      "n \<noteq> Notify_all" "v \<in># W" "mutex_use_available t v"
    using mutex_inv_enter(2) [OF inv that(1-3,5)] that(6) by simp
next
  fix u t :: Mutex_use and W :: "Mutex_waiter multiset" and n v w
  assume inv: "mutex_inv u (add_mset w W)"
  have "\<forall>w' \<in># add_mset w W. lock_amount w' < 2 ^ 31 \<and> held u (lock_thread w') = 0"
    using inv unfolding mutex_inv_def by blast
  then have a: "lock_amount w + held u (lock_thread w) < 2 ^ 31" by simp
  show "mutex_inv t W" if "mutex_use_available u w" "mutex_use_finish w u = (t, n)"
    using mutex_inv_finish(1) [OF inv that(1) a that(2)] .
  show "mutex_use_available u v"
    if "mutex_use_available u w" "mutex_use_finish w u = (t, n)" "n \<noteq> Notify_all" "v \<in># W"
      "mutex_use_available t v"
    using mutex_inv_finish(2) [OF inv that(1) a that(2,4)] that(5) by simp
  show "mutex_inv t W" if "\<not> mutex_use_available u w" "mutex_use_give_up w u = Some (t, n)"
    using inv that mutex_inv_remove [OF inv] by (auto simp: mutex_inv_def mutex_use_give_up_def)
  show "mutex_use_available u v"
    if "\<not> mutex_use_available u w" "mutex_use_give_up w u = Some (t, n)" "n \<noteq> Notify_all" "v \<in># W"
      "mutex_use_available t v"
    using that by (auto simp: mutex_use_give_up_def mutex_use_available_def)
qed

abbreviation mutex_step where
  "mutex_step \<equiv> wait_step mutex_use_available mutex_call mutex_enter mutex_use_finish mutex_use_give_up"

definition fresh_mutex :: "Mutex \<Rightarrow> Mutex_use" where
  "fresh_mutex m = \<lparr>the_mutex = m, held = (\<lambda>_. 0), blocked_threads = {}\<rparr>"

text \<open>
  C18. A mutex excludes. As long as every thread unlocks at most what it has locked, at most one
  thread holds the mutex at a time; the lock count is exactly what that thread has locked
  and not unlocked; a thread that wants the mutex goes on only when nobody else holds it;
  and no thread sleeps while the mutex is free.
\<close>

theorem mutex_excludes:
  assumes "mutex_step\<^sup>*\<^sup>* (fresh_mutex (new_mutex s), [], []) (u, S, A)"
  shows "(\<forall>a b. 0 < held u a \<and> 0 < held u b \<longrightarrow> a = b) \<and>
    (\<forall>a. 0 < held u a \<longrightarrow> held u a = lock_count (the_mutex u)) \<and>
    (\<forall>w \<in> set (S @ A). mutex_use_available u w \<longrightarrow> (\<forall>a. held u a \<le> 0)) \<and>
    (\<forall>w \<in> set S. \<exists>a. 0 < held u a)"
proof -
  have i0: "mutex_inv (fresh_mutex (new_mutex s)) {#}"
    by (simp add: mutex_inv_def fresh_mutex_def new_mutex_def)
  note inv = mutex.no_lost_wakeup(2) [OF assms i0]
  have h: "held u x = (if x = owner_thread_id (the_mutex u) then lock_count (the_mutex u) else 0)" for x
    using inv unfolding mutex_inv_def by blast
  have c: "0 \<le> lock_count (the_mutex u)"
    "lock_count (the_mutex u) = 0 \<longleftrightarrow> owner_thread_id (the_mutex u) = -1"
    using inv unfolding mutex_inv_def by blast+
  have W: "0 < lock_amount w" "held u (lock_thread w) = 0" "0 \<le> lock_thread w" if "w \<in> set (S @ A)" for w
  proof -
    have "\<forall>w \<in># mset S + mset A. 0 < lock_amount w \<and> held u (lock_thread w) = 0 \<and> 0 \<le> lock_thread w"
      using inv unfolding mutex_inv_def by blast
    then show "0 < lock_amount w" "held u (lock_thread w) = 0" "0 \<le> lock_thread w" using that by auto
  qed
  have free: "\<forall>a. held u a \<le> 0" if "w \<in> set (S @ A)" "mutex_use_available u w" for w
    using that(2) W [OF that(1)] h c by (auto simp: mutex_use_available_def mutex_available_def)
  have "\<exists>a. 0 < held u a" if "w \<in> set S" for w
    using mutex.no_lost_wakeup(1) [OF assms i0 that] h c
    by (intro exI [of _ "owner_thread_id (the_mutex u)"]) (auto simp: mutex_use_available_def mutex_available_def)
  then show ?thesis using h free by (auto split: if_splits)
qed


text \<open>Thread 1 locks twice, thread 2 waits.\<close>

lemma mutex_excludes_witness:
  "\<exists>u. mutex_step\<^sup>*\<^sup>* (fresh_mutex (new_mutex initial_state), [], []) (u, [\<lparr>lock_thread = 2, lock_amount = 1\<rparr>], []) \<and>
     lock_count (the_mutex u) = 2 \<and> held u 1 = 2 \<and> \<not> mutex_use_available u \<lparr>lock_thread = 2, lock_amount = 1\<rparr>"
proof -
  let ?m = "new_mutex initial_state" and ?w = "\<lparr>lock_thread = 2, lock_amount = 1\<rparr>"
  let ?u = "\<lparr>the_mutex = ?m\<lparr>owner_thread_id := 1, lock_count := 2\<rparr>, held = (\<lambda>_. 0)(1 := 2), blocked_threads = {}\<rparr>"
  have "mutex_step (fresh_mutex ?m, [], []) (?u, [], [])"
    by (rule wait_step.enter [where r = "(1, 2)" and n = Notify_none])
      (auto simp: mutex_enter_def fresh_mutex_def new_mutex_def mutex_use_finish_def mutex_finish_def
        mutex_use_available_def mutex_available_def)
  moreover have "mutex_step (?u, [], []) (?u\<lparr>blocked_threads := {2}\<rparr>, [?w], [])"
    by (rule wait_step.sleep [where r = "(2, 1)"])
      (auto simp: mutex_enter_def mutex_use_available_def mutex_available_def)
  ultimately have run: "mutex_step\<^sup>*\<^sup>* (fresh_mutex ?m, [], []) (?u\<lparr>blocked_threads := {2}\<rparr>, [?w], [])"
    by (rule converse_rtranclp_into_rtranclp [OF _ r_into_rtranclp])
  have "\<not> mutex_use_available (?u\<lparr>blocked_threads := {2}\<rparr>) ?w"
  proof
    assume "mutex_use_available (?u\<lparr>blocked_threads := {2}\<rparr>) ?w"
    moreover have "\<forall>w \<in> set ([?w] @ []). mutex_use_available (?u\<lparr>blocked_threads := {2}\<rparr>) w \<longrightarrow>
        (\<forall>a. held (?u\<lparr>blocked_threads := {2}\<rparr>) a \<le> 0)"
      by (rule mutex_excludes [OF run, THEN conjunct2, THEN conjunct2, THEN conjunct1])
    ultimately have "\<forall>a. held (?u\<lparr>blocked_threads := {2}\<rparr>) a \<le> 0" by simp
    from spec [OF this, of 1] show False by simp
  qed
  then show ?thesis using run by (intro exI [of _ "?u\<lparr>blocked_threads := {2}\<rparr>"]) simp
qed

text \<open>
  The code lets any thread unlock: the call asks neither who makes it nor who owns the
  mutex, so an unlock by a thread that holds nothing frees the mutex of another.
\<close>

lemma unlock_by_stranger:
  assumes "lookup (mutexes k) (gpr s 4) = Some m" "lock_count m = 1" "gpr s 5 = 1"
  shows "\<exists>m'. lookup (mutexes (fst (snd (unlock_mutex s k)))) (gpr s 4) = Some m' \<and>
    lock_count m' = 0 \<and> owner_thread_id m' = -1"
proof -
  have "registered (mutexes k) (gpr s 4)" using assms(1) by (simp add: lookup_def split: if_splits)
  then show ?thesis
    using assms by (simp add: unlock_mutex_def mutex_unlock_def lock_argument_def Let_def)
qed

end
