(* ===== verification/Event_Flags.thy ===== *)
theory Event_Flags
  imports Kernel_State
begin

text \<open>
  Event flags, \<open>sceKernelCreateEventFlag\<close> to \<open>sceKernelReferEventFlagStatus\<close>: 32 bits that
  threads set, clear, poll and wait for. Mode bit 0 asks for any bit of the pattern instead
  of all, bit 5 clears all bits when the wait succeeds, bit 4 those of the pattern. The
  waiting call has no time-out: the code does not read that argument.
\<close>

section \<open>Under the mutex\<close>

record Flag_waiter =
  flag_pattern :: u32
  flag_mode :: u32

definition flag_matched :: "u32 \<Rightarrow> u32 \<Rightarrow> u32 \<Rightarrow> bool" where
  "flag_matched bits pattern mode \<longleftrightarrow>
     (if mode AND 1 \<noteq> 0 then bits AND pattern \<noteq> 0 else bits AND pattern = pattern)"

definition flag_consume :: "u32 \<Rightarrow> u32 \<Rightarrow> u32 \<Rightarrow> u32" where
  "flag_consume bits pattern mode =
     (if mode AND 0x20 \<noteq> 0 then 0 else if mode AND 0x10 \<noteq> 0 then bits AND NOT pattern else bits)"

definition flag_available :: "bool \<Rightarrow> EventFlag \<Rightarrow> Flag_waiter \<Rightarrow> bool" where
  "flag_available exiting e w \<longleftrightarrow> flag_matched (event_bits e) (flag_pattern w) (flag_mode w) \<or> exiting"

definition flag_arrive :: "EventFlag \<Rightarrow> EventFlag" where
  "flag_arrive e = e\<lparr>waiting_threads := waiting_threads e + 1\<rparr>"

definition flag_finish :: "Flag_waiter \<Rightarrow> EventFlag \<Rightarrow> EventFlag" where
  "flag_finish w e =
     e\<lparr>waiting_threads := waiting_threads e - 1,
       event_bits := flag_consume (event_bits e) (flag_pattern w) (flag_mode w)\<rparr>"

section \<open>System calls\<close>

definition new_event_flag :: "State \<Rightarrow> EventFlag" where
  "new_event_flag s =
     \<lparr>event_name = (case guest_string s (gpr s 4) of None \<Rightarrow> [] | Some name \<Rightarrow> name),
      event_attributes = gpr s 5, initial_bits = gpr s 6, event_bits = gpr s 6, waiting_threads = 0\<rparr>"

definition create_event_flag :: "State \<Rightarrow> Kernel \<Rightarrow> State \<times> Kernel" where
  "create_event_flag s k =
     (let (uid, k) = allocate_uid k in
      (set_result uid s, k\<lparr>event_flags := emplace uid (new_event_flag s) (event_flags k)\<rparr>))"

definition delete_event_flag :: "State \<Rightarrow> Kernel \<Rightarrow> State \<times> Kernel" where
  "delete_event_flag s k =
     (case lookup (event_flags k) (gpr s 4) of
        None \<Rightarrow> (set_result unimplemented s, k)
      | Some _ \<Rightarrow> (set_result 0 s, k\<lparr>event_flags := erase (gpr s 4) (event_flags k)\<rparr>))"

definition set_event_flag :: "State \<Rightarrow> Kernel \<Rightarrow> State \<times> Kernel \<times> notify" where
  "set_event_flag s k =
     (case lookup (event_flags k) (gpr s 4) of
        None \<Rightarrow> (s, k, Notify_none)
      | Some e \<Rightarrow>
          (set_result 0 s,
           k\<lparr>event_flags := update_object (gpr s 4) (e\<lparr>event_bits := event_bits e OR gpr s 5\<rparr>) (event_flags k)\<rparr>,
           Notify_all))"

definition clear_event_flag :: "State \<Rightarrow> Kernel \<Rightarrow> State \<times> Kernel \<times> notify" where
  "clear_event_flag s k =
     (case lookup (event_flags k) (gpr s 4) of
        None \<Rightarrow> (s, k, Notify_none)
      | Some e \<Rightarrow>
          (set_result 0 s,
           k\<lparr>event_flags := update_object (gpr s 4) (e\<lparr>event_bits := event_bits e AND gpr s 5\<rparr>) (event_flags k)\<rparr>,
           Notify_all))"

definition poll_event_flag :: "State \<Rightarrow> Kernel \<Rightarrow> State \<times> Kernel" where
  "poll_event_flag s k =
     (case lookup (event_flags k) (gpr s 4) of
        None \<Rightarrow> (set_result unimplemented s, k)
      | Some e \<Rightarrow>
          let pattern = gpr s 5; mode = gpr s 6; observed = event_bits e;
              s' = put_word s (gpr s 7) observed in
          if \<not> flag_matched observed pattern mode then (set_result event_flag_condition s', k)
          else (set_result 0 s',
                k\<lparr>event_flags := update_object (gpr s 4) (e\<lparr>event_bits := flag_consume observed pattern mode\<rparr>)
                    (event_flags k)\<rparr>))"

definition resume_event_flag :: "u32 \<Rightarrow> Flag_waiter \<Rightarrow> State \<Rightarrow> Kernel \<Rightarrow> (State \<times> Kernel) option" where
  "resume_event_flag uid w s k =
     (case objects (event_flags k) uid of
        None \<Rightarrow> None
      | Some e \<Rightarrow>
          if flag_available (exit_requested k) e w then
            Some (set_result 0 (put_word s (gpr s 7) (event_bits e)),
                  k\<lparr>event_flags := update_object uid (flag_finish w e) (event_flags k)\<rparr>)
          else None)"

definition wait_event_flag :: "State \<Rightarrow> Kernel \<Rightarrow> State \<times> Kernel \<times> Flag_waiter option" where
  "wait_event_flag s k =
     (case lookup (event_flags k) (gpr s 4) of
        None \<Rightarrow> (s, k, None)
      | Some e \<Rightarrow>
          let w = \<lparr>flag_pattern = gpr s 5, flag_mode = gpr s 6\<rparr>;
              k = k\<lparr>event_flags := update_object (gpr s 4) (flag_arrive e) (event_flags k)\<rparr> in
          (case resume_event_flag (gpr s 4) w s k of
             Some (s, k) \<Rightarrow> (s, k, None)
           | None \<Rightarrow> (s, k, Some w)))"

text \<open>The 52 bytes of \<open>EventFlagStatus\<close>; the name is cut to 31 bytes.\<close>

definition event_flag_status :: "EventFlag \<Rightarrow> u8 list" where
  "event_flag_status e =
     bytes32 52 @ take 31 (event_name e) @ replicate (32 - min 31 (length (event_name e))) 0 @
     bytes32 (event_attributes e) @ bytes32 (initial_bits e) @ bytes32 (event_bits e) @
     bytes32 (waiting_threads e)"

definition refer_event_flag_status :: "State \<Rightarrow> Kernel \<Rightarrow> State" where
  "refer_event_flag_status s k =
     (case lookup (event_flags k) (gpr s 4) of
        None \<Rightarrow> set_result unimplemented s
      | Some e \<Rightarrow>
          (case guest_pointer s (gpr s 5) 52 of
             None \<Rightarrow> set_result io_error s
           | Some p \<Rightarrow>
               if word32_of (read_at s p 4) = 0 then set_result 0 s
               else set_result 0 (write_at s p (event_flag_status e))))"

section \<open>A flag and the threads waiting for it\<close>

datatype Flag_call = Set_bits u32 | Clear_bits u32 | Poll_bits u32 u32

fun flag_call :: "Flag_call \<Rightarrow> EventFlag \<Rightarrow> EventFlag \<times> notify" where
  "flag_call (Set_bits b) e = (e\<lparr>event_bits := event_bits e OR b\<rparr>, Notify_all)"
| "flag_call (Clear_bits b) e = (e\<lparr>event_bits := event_bits e AND b\<rparr>, Notify_all)"
| "flag_call (Poll_bits pattern mode) e =
     (if flag_matched (event_bits e) pattern mode
      then (e\<lparr>event_bits := flag_consume (event_bits e) pattern mode\<rparr>, Notify_none) else (e, Notify_none))"

definition flag_enter :: "u32 \<times> u32 \<Rightarrow> EventFlag \<Rightarrow> (EventFlag \<times> Flag_waiter) option" where
  "flag_enter r e = Some (flag_arrive e, \<lparr>flag_pattern = fst r, flag_mode = snd r\<rparr>)"

definition flag_inv :: "EventFlag \<Rightarrow> Flag_waiter multiset \<Rightarrow> bool" where
  "flag_inv e W \<longleftrightarrow> waiting_threads e = of_nat (size W)"

lemma flag_matched_less:
  assumes "flag_matched b pattern mode" "b AND c = b"
  shows "flag_matched c pattern mode"
proof -
  have "b AND pattern = c AND (b AND pattern)" using assms(2) by (metis and.assoc and.commute)
  moreover have "pattern AND c = pattern" if "b AND pattern = pattern"
    using that assms(2) by (metis and.assoc and.commute)
  moreover have "b AND pattern = 0" if "c AND pattern = 0"
    using that assms(2) by (metis and.assoc and_zero_eq)
  ultimately show ?thesis
    using assms(1) by (auto simp: flag_matched_def and.commute split: if_splits)
qed

lemma flag_consume_less [simp]: "flag_consume b pattern mode AND b = flag_consume b pattern mode"
  by (auto simp: flag_consume_def bit_simps intro!: bit_word_eqI)

interpretation flag: broadcast_object "flag_available False" flag_call flag_enter
  "\<lambda>w e. (flag_finish w e, Notify_none)" "\<lambda>_ _. None" flag_inv
  by unfold_locales
    (auto simp: flag_inv_def flag_enter_def flag_arrive_def flag_finish_def flag_available_def
      elim!: flag_call.elims split: if_splits dest: flag_matched_less [OF _ flag_consume_less])

abbreviation flag_step where
  "flag_step \<equiv> wait_step (flag_available False) flag_call flag_enter
     (\<lambda>w e. (flag_finish w e, Notify_none)) (\<lambda>_ _. None)"

text \<open>
  C38. Event flags lose no wake-up. Whatever sets, clears, polls, waits and wake-ups happen, no
  thread sleeps while the bits match its pattern, and the number of waiting threads that
  \<open>sceKernelReferEventFlagStatus\<close> reports is the number of threads in the call.
\<close>

theorem event_flag_waits:
  assumes "flag_step\<^sup>*\<^sup>* (new_event_flag s, [], []) (e, S, A)"
  shows "(\<forall>w \<in> set S. \<not> flag_matched (event_bits e) (flag_pattern w) (flag_mode w)) \<and>
    drop 48 (event_flag_status e) = bytes32 (of_nat (length S + length A))"
proof -
  have i0: "flag_inv (new_event_flag s) {#}" by (simp add: flag_inv_def new_event_flag_def)
  have "waiting_threads e = of_nat (length S + length A)"
    using flag.no_lost_wakeup(2) [OF assms i0] by (simp add: flag_inv_def)
  moreover have "drop 48 (event_flag_status e) = bytes32 (waiting_threads e)"
    by (simp add: event_flag_status_def)
  ultimately show ?thesis
    using flag.no_lost_wakeup(1) [OF assms i0] by (simp add: flag_available_def)
qed

lemma event_flag_waits_witness:
  "drop 48 (event_flag_status ((new_event_flag initial_state)\<lparr>waiting_threads := 1\<rparr>)) = bytes32 1"
proof -
  have "flag_step\<^sup>*\<^sup>* (new_event_flag initial_state, [], [])
     ((new_event_flag initial_state)\<lparr>waiting_threads := 1\<rparr>, [\<lparr>flag_pattern = 4, flag_mode = 0\<rparr>], [])"
    by (rule r_into_rtranclp, rule wait_step.sleep [where r = "(4, 0)"])
      (simp_all add: flag_enter_def flag_arrive_def flag_available_def flag_matched_def new_event_flag_def
        initial_state_def)
  from event_flag_waits [OF this] show ?thesis by simp
qed

end
