(* ===== verification/Mailboxes.thy ===== *)
theory Mailboxes
  imports Kernel_State
begin

text \<open>
  Mailboxes, \<open>mailbox_state.hpp\<close> and \<open>sceKernelCreateMbx\<close> to \<open>sceKernelSendMbx\<close>: a queue of
  message addresses, in the order they were sent or, with attribute 0x400, by priority. An
  address that is in the queue cannot be sent again. Deleting a mailbox wakes the threads
  that wait for it.
\<close>

section \<open>Under the mutex\<close>

definition enqueue_message :: "Message list \<Rightarrow> u32 \<Rightarrow> u32 \<Rightarrow> u8 \<Rightarrow> bool \<times> Message list" where
  "enqueue_message ms attributes address priority =
     (if \<exists>m \<in> set ms. message_address m = address then (False, ms)
      else let m = \<lparr>message_address = address, message_priority = priority\<rparr> in
        if attributes AND 0x400 = 0 then (True, ms @ [m])
        else (True, takeWhile (\<lambda>q. \<not> message_priority q > priority) ms @ m #
                    dropWhile (\<lambda>q. \<not> message_priority q > priority) ms))"

definition mailbox_available :: "bool \<Rightarrow> Mailbox \<Rightarrow> bool" where
  "mailbox_available exiting b \<longleftrightarrow> messages b \<noteq> [] \<or> mailbox_deleted b \<or> exiting"

text \<open>A thread that goes on takes the front message, unless the mailbox is gone.\<close>

definition mailbox_finish :: "bool \<Rightarrow> Mailbox \<Rightarrow> (u32 + u32 option) \<times> Mailbox" where
  "mailbox_finish exiting b =
     (if mailbox_deleted b then (Inl wait_deleted, b)
      else if exiting then (Inr None, b)
      else (Inr (Some (message_address (hd (messages b)))), b\<lparr>messages := tl (messages b)\<rparr>))"

section \<open>System calls\<close>

definition create_mbx :: "State \<Rightarrow> Kernel \<Rightarrow> State \<times> Kernel" where
  "create_mbx s k =
     (case guest_string s (gpr s 4) of
        None \<Rightarrow> (set_result unimplemented s, k)
      | Some name \<Rightarrow>
          let (uid, k) = allocate_uid k;
              b = \<lparr>mailbox_name = name, mailbox_attributes = gpr s 5, messages = [], mailbox_deleted = False\<rparr> in
          (set_result uid s, k\<lparr>mailboxes := emplace uid b (mailboxes k)\<rparr>))"

definition delete_mbx :: "State \<Rightarrow> Kernel \<Rightarrow> State \<times> Kernel \<times> notify" where
  "delete_mbx s k =
     (case lookup (mailboxes k) (gpr s 4) of
        None \<Rightarrow> (set_result unknown_mailbox s, k, Notify_none)
      | Some b \<Rightarrow>
          (set_result 0 s,
           k\<lparr>mailboxes := erase (gpr s 4) (update_object (gpr s 4) (b\<lparr>mailbox_deleted := True\<rparr>) (mailboxes k))\<rparr>,
           Notify_all))"

definition poll_mbx :: "State \<Rightarrow> Kernel \<Rightarrow> State \<times> Kernel" where
  "poll_mbx s k =
     (case lookup (mailboxes k) (gpr s 4) of
        None \<Rightarrow> (set_result unknown_mailbox s, k)
      | Some b \<Rightarrow>
          if guest_pointer s (gpr s 5) 4 = None then (set_result unimplemented s, k)
          else (case messages b of
              [] \<Rightarrow> (set_result mailbox_no_message s, k)
            | m # ms \<Rightarrow>
                (set_result 0 (put_word s (gpr s 5) (message_address m)),
                 k\<lparr>mailboxes := update_object (gpr s 4) (b\<lparr>messages := ms\<rparr>) (mailboxes k)\<rparr>)))"

definition send_mbx :: "State \<Rightarrow> Kernel \<Rightarrow> State \<times> Kernel \<times> notify" where
  "send_mbx s k =
     (case lookup (mailboxes k) (gpr s 4) of
        None \<Rightarrow> (set_result unknown_mailbox s, k, Notify_none)
      | Some b \<Rightarrow>
          (case mapped_address s (gpr s 5) 8 of
             None \<Rightarrow> (set_result unimplemented s, k, Notify_none)
           | Some p \<Rightarrow>
               (case enqueue_message (messages b) (mailbox_attributes b) (gpr s 5) (read_at s p 8 ! 4) of
                  (False, _) \<Rightarrow> (set_result mailbox_duplicate s, k, Notify_none)
                | (True, ms) \<Rightarrow>
                    (set_result 0 s,
                     k\<lparr>mailboxes := update_object (gpr s 4) (b\<lparr>messages := ms\<rparr>) (mailboxes k)\<rparr>,
                     Notify_one))))"

text \<open>The waiting call: \<open>gpr 5\<close> holds the output address during the whole call.\<close>

definition resume_mbx :: "u32 \<Rightarrow> State \<Rightarrow> Kernel \<Rightarrow> (State \<times> Kernel) option" where
  "resume_mbx uid s k =
     (case objects (mailboxes k) uid of
        None \<Rightarrow> None
      | Some b \<Rightarrow>
          if mailbox_available (exit_requested k) b then
            let (outcome, b) = mailbox_finish (exit_requested k) b;
                k = k\<lparr>mailboxes := update_object uid b (mailboxes k)\<rparr> in
            Some (case outcome of
                Inl code \<Rightarrow> (set_result code s, k)
              | Inr None \<Rightarrow> (set_result 0 s, k)
              | Inr (Some address) \<Rightarrow> (set_result 0 (put_word s (gpr s 5) address), k))
          else None)"

definition timeout_mbx :: "u32 \<Rightarrow> State \<Rightarrow> Kernel \<Rightarrow> State \<times> Kernel" where
  "timeout_mbx uid s k =
     (case resume_mbx uid s k of Some r \<Rightarrow> r | None \<Rightarrow> (set_result wait_timeout s, k))"

definition receive_mbx :: "State \<Rightarrow> Kernel \<Rightarrow> State \<times> Kernel \<times> bool option" where
  "receive_mbx s k =
     (case lookup (mailboxes k) (gpr s 4) of
        None \<Rightarrow> (set_result unknown_mailbox s, k, None)
      | Some b \<Rightarrow>
          if guest_pointer s (gpr s 5) 4 = None then (set_result unimplemented s, k, None)
          else (case read_timeout s (gpr s 6) of
              None \<Rightarrow> (set_result unimplemented s, k, None)
            | Some timeout \<Rightarrow>
                (case resume_mbx (gpr s 4) s k of
                   Some (s, k) \<Rightarrow> (s, k, None)
                 | None \<Rightarrow> (s, k, Some (timeout \<noteq> None)))))"

definition receive_mbx_cb :: "State \<Rightarrow> Kernel \<Rightarrow> State \<times> Kernel \<times> bool option" where
  "receive_mbx_cb s k = receive_mbx s k"

section \<open>The queue\<close>

text \<open>What threads do to a mailbox that stays open: the answer and the new queue.\<close>

datatype Mailbox_op = Send u32 u8 | Receive

datatype Mailbox_answer = Sent bool | Received "u32 option"

fun mailbox_op :: "u32 \<Rightarrow> Mailbox_op \<Rightarrow> Message list \<Rightarrow> Mailbox_answer \<times> Message list" where
  "mailbox_op attributes (Send address priority) ms =
     (let (ok, ms) = enqueue_message ms attributes address priority in (Sent ok, ms))"
| "mailbox_op attributes Receive ms =
     (case ms of [] \<Rightarrow> (Received None, []) | m # ms \<Rightarrow> (Received (Some (message_address m)), ms))"

text \<open>
  The specification keeps the messages in the order they were sent. A receiver gets the
  oldest message or, with the priority attribute, the oldest of those whose priority value
  is lowest.
\<close>

definition first_lowest :: "Message list \<Rightarrow> Message" where
  "first_lowest h = hd (filter (\<lambda>m. \<forall>q \<in> set h. message_priority m \<le> message_priority q) h)"

fun spec_op :: "u32 \<Rightarrow> Mailbox_op \<Rightarrow> Message list \<Rightarrow> Mailbox_answer \<times> Message list" where
  "spec_op attributes (Send address priority) h =
     (if address \<in> message_address ` set h then (Sent False, h)
      else (Sent True, h @ [\<lparr>message_address = address, message_priority = priority\<rparr>]))"
| "spec_op attributes Receive h =
     (if h = [] then (Received None, [])
      else let m = (if attributes AND 0x400 = 0 then hd h else first_lowest h) in
        (Received (Some (message_address m)), filter (\<lambda>q. q \<noteq> m) h))"

fun run_ops :: "('op \<Rightarrow> 's \<Rightarrow> 'answer \<times> 's) \<Rightarrow> 'op list \<Rightarrow> 's \<Rightarrow> 'answer list \<times> 's" where
  "run_ops f [] s = ([], s)"
| "run_ops f (x # xs) s = (let (a, s) = f x s; (as, s) = run_ops f xs s in (a # as, s))"

definition delivery_order :: "u32 \<Rightarrow> Message list \<Rightarrow> Message list" where
  "delivery_order attributes h = (if attributes AND 0x400 = 0 then h else sort_key message_priority h)"

lemma takeWhile_filter:
  fixes f :: "'a \<Rightarrow> 'b :: linorder"
  assumes "sorted (map f xs)"
  shows "takeWhile (\<lambda>q. \<not> f q > p) xs = filter (\<lambda>q. f q \<le> p) xs \<and>
    dropWhile (\<lambda>q. \<not> f q > p) xs = filter (\<lambda>q. \<not> f q \<le> p) xs"
  using assms
proof (induction xs)
  case (Cons a xs)
  have "filter (\<lambda>q. f q \<le> p) xs = [] \<and> filter (\<lambda>q. \<not> f q \<le> p) xs = xs" if "p < f a"
    using Cons.prems that by (force simp: filter_empty_conv filter_id_conv)
  with Cons show ?case by auto
qed simp

lemma sort_key_snoc:
  fixes f :: "'a \<Rightarrow> 'b :: linorder"
  shows "sort_key f (xs @ [x]) =
    takeWhile (\<lambda>q. \<not> f q > f x) (sort_key f xs) @ x # dropWhile (\<lambda>q. \<not> f q > f x) (sort_key f xs)"
    (is "_ = ?l @ x # ?r")
proof (rule properties_for_sort_key)
  have e: "?l = filter (\<lambda>q. f q \<le> f x) (sort_key f xs)" "?r = filter (\<lambda>q. \<not> f q \<le> f x) (sort_key f xs)"
    using takeWhile_filter [of f "sort_key f xs" "f x"] by simp_all
  have lr: "?l @ ?r = sort_key f xs" by simp
  have "mset (?l @ ?r) = mset xs" unfolding lr by simp
  then show "mset (?l @ x # ?r) = mset (xs @ [x])" by (simp del: takeWhile_dropWhile_id)
  show "filter (\<lambda>q. f k = f q) (?l @ x # ?r) = filter (\<lambda>q. f k = f q) (xs @ [x])" for k
  proof -
    have "filter (\<lambda>q. f k = f q) ?l @ filter (\<lambda>q. f k = f q) ?r = filter (\<lambda>q. f k = f q) (sort_key f xs)"
      by (simp only: lr flip: filter_append)
    also have "\<dots> = filter (\<lambda>q. f k = f q) xs" using sort_key_stable [of f "f k" xs] by (simp only: eq_commute [of "f k"])
    finally have a: "filter (\<lambda>q. f k = f q) ?l @ filter (\<lambda>q. f k = f q) ?r = filter (\<lambda>q. f k = f q) xs" .
    show ?thesis
    proof (cases "f k = f x")
      case True
      then have "filter (\<lambda>q. f k = f q) ?r = []" unfolding e by (auto simp: filter_empty_conv)
      with a True show ?thesis by simp
    next
      case False
      with a show ?thesis by simp
    qed
  qed
  show "sorted (map f (?l @ x # ?r))"
    unfolding e by (auto simp: sorted_append sorted_filter)
qed

lemma hd_sort_key:
  fixes f :: "'a \<Rightarrow> 'b :: linorder"
  assumes "h \<noteq> []"
  shows "hd (sort_key f h) = hd (filter (\<lambda>m. \<forall>q \<in> set h. f m \<le> f q) h)"
proof -
  obtain y ys where y: "sort_key f h = y # ys" using assms by (metis list.exhaust set_empty set_sort)
  have "sorted (map f (y # ys))" using y by (metis sorted_sort_key)
  moreover have "set h = set (y # ys)" using y by (metis set_sort)
  ultimately have "(\<lambda>m. \<forall>q \<in> set h. f m \<le> f q) x \<longleftrightarrow> f x = f y" if "x \<in> set h" for x
    using that by (auto intro: antisym)
  then have "filter (\<lambda>m. \<forall>q \<in> set h. f m \<le> f q) h = filter (\<lambda>m. f m = f y) h"
    by (intro filter_cong) simp_all
  also have "\<dots> = filter (\<lambda>m. f m = f y) (y # ys)" by (metis sort_key_stable y)
  finally show ?thesis using y by simp
qed

lemma tl_is_filter: "distinct xs \<Longrightarrow> xs \<noteq> [] \<Longrightarrow> tl xs = filter (\<lambda>q. q \<noteq> hd xs) xs"
  by (cases xs) (auto intro!: filter_True [symmetric])

lemma mailbox_op_refines:
  assumes "distinct (map message_address h)"
  shows "mailbox_op attributes x (delivery_order attributes h) =
      (fst (spec_op attributes x h), delivery_order attributes (snd (spec_op attributes x h)))"
    "distinct (map message_address (snd (spec_op attributes x h)))"
proof -
  have d: "distinct h" using assms by (simp add: distinct_map)
  let ?o = "delivery_order attributes"
  have o: "set (?o h) = set h" "?o h = [] \<longleftrightarrow> h = []" "distinct (?o h)"
    using d by (auto simp: delivery_order_def simp flip: set_empty)
  show "mailbox_op attributes x (?o h) = (fst (spec_op attributes x h), ?o (snd (spec_op attributes x h)))"
  proof (cases x)
    case (Send address priority)
    then show ?thesis
      using o(1) sort_key_snoc [of message_priority h "\<lparr>message_address = address, message_priority = priority\<rparr>"]
      by (auto simp: enqueue_message_def Let_def delivery_order_def)
  next
    case Receive
    show ?thesis
    proof (cases "h = []")
      case False
      then obtain m ms where m: "?o h = m # ms" using o(2) by (metis list.exhaust)
      have hd: "m = (if attributes AND 0x400 = 0 then hd h else first_lowest h)"
        using hd_sort_key [OF False, of message_priority] arg_cong [OF m, of hd]
        by (auto simp: delivery_order_def first_lowest_def)
      have "ms = filter (\<lambda>q. q \<noteq> m) (?o h)"
        using tl_is_filter [of "?o h"] o m by simp
      also have "\<dots> = ?o (filter (\<lambda>q. q \<noteq> m) h)"
        by (simp add: delivery_order_def filter_sort)
      finally show ?thesis using Receive False m hd by (simp add: Let_def)
    qed (simp add: Receive delivery_order_def)
  qed
  show "distinct (map message_address (snd (spec_op attributes x h)))"
    using assms by (cases x) (auto simp: Let_def distinct_map_filter)
qed

text \<open>
  C25. A mailbox delivers in order. Every sequence of sends and receives on a mailbox gets the
  answers of the specification: a second send of an address still in the queue is refused, a
  receiver gets the oldest message, or the oldest among the most urgent with the priority
  attribute, and the queue holds exactly what was sent and not received.
\<close>

theorem mailbox_delivers:
  "run_ops (mailbox_op attributes) ops [] =
     (fst (run_ops (spec_op attributes) ops []),
      delivery_order attributes (snd (run_ops (spec_op attributes) ops [])))"
proof -
  have "run_ops (mailbox_op attributes) ops (delivery_order attributes h) =
      (fst (run_ops (spec_op attributes) ops h),
       delivery_order attributes (snd (run_ops (spec_op attributes) ops h)))"
    if "distinct (map message_address h)" for h
    using that
  proof (induction ops arbitrary: h)
    case (Cons x ops)
    obtain a g where s: "spec_op attributes x h = (a, g)" by fastforce
    then show ?case
      using mailbox_op_refines [OF Cons.prems, of attributes x] Cons.IH [of g]
      by (simp add: split_beta)
  qed simp
  from this [of "[]"] show ?thesis
    by (cases "attributes AND 0x400 = 0") (simp_all add: delivery_order_def)
qed

lemma mailbox_delivers_example:
  "fst (run_ops (mailbox_op 0x400) [Send 1 5, Send 2 3, Send 1 0, Send 3 3, Receive, Receive, Receive] []) =
     [Sent True, Sent True, Sent False, Sent True, Received (Some 2), Received (Some 3), Received (Some 1)]"
  by (simp add: enqueue_message_def)

section \<open>A mailbox and the threads waiting for it\<close>

datatype Mailbox_call = Mbx_send u32 u8 | Mbx_poll | Mbx_delete

fun mailbox_call :: "Mailbox_call \<Rightarrow> Mailbox \<Rightarrow> Mailbox \<times> notify" where
  "mailbox_call (Mbx_send address priority) b =
     (case enqueue_message (messages b) (mailbox_attributes b) address priority of
        (False, _) \<Rightarrow> (b, Notify_none)
      | (True, ms) \<Rightarrow> (b\<lparr>messages := ms\<rparr>, Notify_one))"
| "mailbox_call Mbx_poll b = (b\<lparr>messages := tl (messages b)\<rparr>, Notify_none)"
| "mailbox_call Mbx_delete b = (b\<lparr>mailbox_deleted := True\<rparr>, Notify_all)"

lemma enqueue_length:
  "length (snd (enqueue_message ms attributes address priority)) =
     length ms + (if fst (enqueue_message ms attributes address priority) then 1 else 0)"
proof -
  have "length (takeWhile P ms) + length (dropWhile P ms) = length ms" for P
    by (metis length_append takeWhile_dropWhile_id)
  then show ?thesis by (simp add: enqueue_message_def Let_def)
qed

interpretation mailbox: counted_object "\<lambda>b (w :: int). mailbox_available False b" mailbox_call
  "\<lambda>(thread :: int) b. Some (b, thread)" "\<lambda>w b. (snd (mailbox_finish False b), Notify_none)"
  "\<lambda>w b. Some (b, Notify_none)" "\<lambda>b. length (messages b)" mailbox_deleted
proof unfold_locales
  fix c n and s t :: Mailbox
  assume c: "mailbox_call c s = (t, n)"
  then show "n = Notify_all \<or> (mailbox_deleted t = mailbox_deleted s \<and>
      length (messages t) \<le> length (messages s) + (if n = Notify_one then 1 else 0))"
  proof (cases c)
    case (Mbx_send address priority)
    obtain ok ms where e: "enqueue_message (messages s) (mailbox_attributes s) address priority = (ok, ms)"
      by fastforce
    then show ?thesis
      using c Mbx_send enqueue_length [of "messages s" "mailbox_attributes s" address priority]
      by (cases ok) auto
  qed auto
  show "mailbox_deleted s \<Longrightarrow> mailbox_deleted t"
    using c by (cases c) (auto split: prod.splits bool.splits)
qed (auto simp: mailbox_available_def mailbox_finish_def neq_Nil_conv split: if_splits)

abbreviation mailbox_step where
  "mailbox_step \<equiv> wait_step (\<lambda>b (w :: int). mailbox_available False b) mailbox_call
     (\<lambda>thread b. Some (b, thread)) (\<lambda>w b. (snd (mailbox_finish False b), Notify_none))
     (\<lambda>w b. Some (b, Notify_none))"

text \<open>
  C37. A message does not wait while its receivers sleep. Although a send wakes a single thread,
  in every reachable state in which some thread sleeps the mailbox exists and there are at
  least as many woken threads on their way to it as there are messages in it.
\<close>

theorem mailbox_receivers_come:
  assumes "mailbox_step\<^sup>*\<^sup>* (b0, [], []) (b, S, A)" "w \<in> set S"
  shows "\<not> mailbox_deleted b \<and> length (messages b) \<le> length A"
  using mailbox.stock_has_takers [OF assms] .

lemma mailbox_receivers_come_witness:
  "\<exists>b :: Mailbox. messages b = [\<lparr>message_address = 0x08800000, message_priority = 1\<rparr>] \<and> \<not> mailbox_deleted b \<and> length (messages b) \<le> 1"
proof -
  let ?b = "\<lparr>mailbox_name = [], mailbox_attributes = 0, messages = [], mailbox_deleted = False\<rparr>"
  let ?c = "?b\<lparr>messages := [\<lparr>message_address = 0x08800000, message_priority = 1\<rparr>]\<rparr>"
  have a: "mailbox_step (?b, [], []) (?b, [1], [])" and a': "mailbox_step (?b, [1], []) (?b, [2, 1], [])"
    by (rule wait_step.sleep; simp add: mailbox_available_def)+
  have "mailbox_step (?b, [2, 1], []) (?c, remove1 2 [2, 1], [2])"
    by (rule wait_step.call [where c = "Mbx_send 0x08800000 1", OF _ wakes.one])
      (simp_all add: enqueue_message_def)
  then have "mailbox_step\<^sup>*\<^sup>* (?b, [], []) (?c, [1], [2])"
    using a a' by (auto intro: converse_rtranclp_into_rtranclp)
  then have "\<not> mailbox_deleted ?c \<and> length (messages ?c) \<le> length [2 :: int]"
    by (rule mailbox_receivers_come [of _ _ "[1]" _ 1]) simp
  then show ?thesis by (auto intro!: exI [of _ ?c])
qed

end
