(* ===== verification/Memory_Pools.thy ===== *)
theory Memory_Pools
  imports Kernel_State
begin

text \<open>
  Guest memory handed out by the kernel calls: partition blocks, fixed pools (blocks of one
  size, taken from the heap when the pool is made) and variable pools (one heap block, cut
  and merged by the pool). A variable pool is a second \<open>block_allocator\<close>; a fixed pool is a
  \<open>counted_object\<close>. \<open>live_blocks\<close> collects every block the kernel tables hold, and
  \<open>kernel_memory_disjoint\<close> shows they never overlap.
\<close>

section \<open>Partition memory\<close>

definition alloc_partition_memory :: "State \<Rightarrow> Kernel \<Rightarrow> State \<times> Kernel" where
  "alloc_partition_memory s k =
     (let n = gpr s 7; (address, h) = allocate_heap (heap k) n 64; k = k\<lparr>heap := h\<rparr> in
      if address = 0 then (set_result out_of_memory s, k)
      else let (uid, k) = allocate_uid k in
        (set_result uid s, k\<lparr>memory_blocks := emplace uid (block address n) (memory_blocks k)\<rparr>))"

definition free_partition_memory :: "State \<Rightarrow> Kernel \<Rightarrow> State \<times> Kernel" where
  "free_partition_memory s k =
     (case lookup (memory_blocks k) (gpr s 4) of
        None \<Rightarrow> (set_result unimplemented s, k)
      | Some b \<Rightarrow>
          (set_result 0 s, k\<lparr>heap := free_heap (heap k) (block_address b) (block_size b),
                             memory_blocks := erase (gpr s 4) (memory_blocks k)\<rparr>))"

definition get_block_head_addr :: "State \<Rightarrow> Kernel \<Rightarrow> State" where
  "get_block_head_addr s k =
     (case lookup (memory_blocks k) (gpr s 4) of
        None \<Rightarrow> s
      | Some b \<Rightarrow> set_result (block_address b) s)"

text \<open>The sizes the kernel reports. The total is summed in 64 bits and cut to 32.\<close>

definition maximum_free_size :: "Heap \<Rightarrow> u32" where
  "maximum_free_size h =
     foldl (\<lambda>largest b. max largest (block_size b))
       (if stack_cursor h > heap_cursor h then stack_cursor h - heap_cursor h else 0)
       (free_heap_blocks h)"

definition total_free_size :: "Heap \<Rightarrow> u32" where
  "total_free_size h =
     (let total = foldl (\<lambda>total b. total + ucast (block_size b))
                    (ucast (if stack_cursor h > heap_cursor h then stack_cursor h - heap_cursor h else 0) :: u64)
                    (free_heap_blocks h) in
      ucast (min total 0xffffffff))"

definition max_free_mem_size :: "State \<Rightarrow> Kernel \<Rightarrow> State" where
  "max_free_mem_size s k = set_result (maximum_free_size (heap k)) s"

definition total_free_mem_size :: "State \<Rightarrow> Kernel \<Rightarrow> State" where
  "total_free_mem_size s k = set_result (total_free_size (heap k)) s"

section \<open>Fixed pools\<close>

text \<open>The loop that takes the blocks; when the heap runs out, those taken go back.\<close>

fun free_all :: "Heap \<Rightarrow> MemoryBlock list \<Rightarrow> Heap" where
  "free_all h [] = h"
| "free_all h (b # bs) = free_all (free_heap h (block_address b) (block_size b)) bs"

fun take_blocks :: "nat \<Rightarrow> u32 \<Rightarrow> MemoryBlock list \<Rightarrow> Heap \<Rightarrow> MemoryBlock list option \<times> Heap" where
  "take_blocks 0 n taken h = (Some taken, h)"
| "take_blocks (Suc left) n taken h =
     (let (address, h') = allocate_heap h n 64 in
      if address = 0 then (None, free_all h' taken)
      else take_blocks left n (taken @ [block address n]) h')"

definition create_fpl :: "State \<Rightarrow> Kernel \<Rightarrow> State \<times> Kernel" where
  "create_fpl s k =
     (let n = gpr s 7; amount = gpr s 8 in
      if n = 0 \<or> amount = 0 then (set_result out_of_memory s, k)
      else (case take_blocks (unat amount) n [] (heap k) of
          (None, h) \<Rightarrow> (set_result out_of_memory s, k\<lparr>heap := h\<rparr>)
        | (Some backing, h) \<Rightarrow>
            let (uid, k) = allocate_uid (k\<lparr>heap := h\<rparr>);
                p = \<lparr>fixed_backing = backing, fixed_available = map block_address backing\<rparr> in
            (set_result uid s, k\<lparr>fixed_pools := emplace uid p (fixed_pools k)\<rparr>)))"

definition delete_fpl :: "State \<Rightarrow> Kernel \<Rightarrow> State \<times> Kernel" where
  "delete_fpl s k =
     (case lookup (fixed_pools k) (gpr s 4) of
        None \<Rightarrow> (set_result unimplemented s, k)
      | Some p \<Rightarrow>
          (set_result 0 s, k\<lparr>heap := free_all (heap k) (fixed_backing p),
                             fixed_pools := erase (gpr s 4) (fixed_pools k)\<rparr>))"

text \<open>\<open>available.back()\<close> and \<open>pop_back()\<close>; address 0 stands for no block.\<close>

definition fixed_take :: "FixedPool \<Rightarrow> u32 \<times> FixedPool" where
  "fixed_take p =
     (if fixed_available p = [] then (0, p)
      else (last (fixed_available p), p\<lparr>fixed_available := butlast (fixed_available p)\<rparr>))"

definition fixed_put :: "u32 \<Rightarrow> FixedPool \<Rightarrow> FixedPool" where
  "fixed_put address p = p\<lparr>fixed_available := fixed_available p @ [address]\<rparr>"

definition fixed_pool_available :: "bool \<Rightarrow> FixedPool \<Rightarrow> bool" where
  "fixed_pool_available exiting p \<longleftrightarrow> fixed_available p \<noteq> [] \<or> exiting"

definition try_allocate_fpl :: "State \<Rightarrow> Kernel \<Rightarrow> State \<times> Kernel" where
  "try_allocate_fpl s k =
     (case lookup (fixed_pools k) (gpr s 4) of
        None \<Rightarrow> (set_result unimplemented s, k)
      | Some p \<Rightarrow>
          let (address, p) = fixed_take p; k = k\<lparr>fixed_pools := update_object (gpr s 4) p (fixed_pools k)\<rparr> in
          if address = 0 then (set_result out_of_memory s, k)
          else (set_result 0 (put_word s (gpr s 5) address), k))"

definition resume_fpl :: "u32 \<Rightarrow> State \<Rightarrow> Kernel \<Rightarrow> (State \<times> Kernel) option" where
  "resume_fpl uid s k =
     (case objects (fixed_pools k) uid of
        None \<Rightarrow> None
      | Some p \<Rightarrow>
          if fixed_pool_available (exit_requested k) p then
            let (address, p) = fixed_take p; k = k\<lparr>fixed_pools := update_object uid p (fixed_pools k)\<rparr> in
            Some (if address = 0 then (s, k) else (set_result 0 (put_word s (gpr s 5) address), k))
          else None)"

definition allocate_fpl :: "State \<Rightarrow> Kernel \<Rightarrow> (State \<times> Kernel) option" where
  "allocate_fpl s k =
     (case lookup (fixed_pools k) (gpr s 4) of
        None \<Rightarrow> Some (s, k)
      | Some p \<Rightarrow> resume_fpl (gpr s 4) s k)"

definition free_fpl :: "State \<Rightarrow> Kernel \<Rightarrow> State \<times> Kernel \<times> notify" where
  "free_fpl s k =
     (case lookup (fixed_pools k) (gpr s 4) of
        None \<Rightarrow> (s, k, Notify_none)
      | Some p \<Rightarrow>
          (set_result 0 s, k\<lparr>fixed_pools := update_object (gpr s 4) (fixed_put (gpr s 5) p) (fixed_pools k)\<rparr>,
           Notify_one))"

section \<open>Variable pools\<close>

fun vpl_fit :: "u32 \<Rightarrow> MemoryBlock list \<Rightarrow> (u32 \<times> MemoryBlock list) option" where
  "vpl_fit n [] = None"
| "vpl_fit n (b # bs) =
     (if block_size b < n then map_option (\<lambda>(a, rest). (a, b # rest)) (vpl_fit n bs)
      else Some (block_address b,
        (if block_size b - n = 0 then bs else block (block_address b + n) (block_size b - n) # bs)))"

text \<open>\<open>emplace\<close> keeps the size an address already has.\<close>

definition vpl_allocate :: "u32 \<Rightarrow> VariablePool \<Rightarrow> u32 \<times> VariablePool" where
  "vpl_allocate n p =
     (case vpl_fit n (variable_available p) of
        None \<Rightarrow> (0, p)
      | Some (a, bs) \<Rightarrow>
          (a, p\<lparr>variable_available := bs,
                allocated := (if allocated p a = None then (allocated p)(a \<mapsto> n) else allocated p)\<rparr>))"

definition vpl_free :: "u32 \<Rightarrow> VariablePool \<Rightarrow> VariablePool option" where
  "vpl_free a p =
     (case allocated p a of
        None \<Rightarrow> None
      | Some n \<Rightarrow>
          Some (p\<lparr>variable_available := coalesce (sort_key block_address (variable_available p @ [block a n])),
                  allocated := (allocated p)(a := None)\<rparr>))"

definition create_vpl :: "State \<Rightarrow> Kernel \<Rightarrow> State \<times> Kernel" where
  "create_vpl s k =
     (let n = gpr s 7 in
      if n = 0 then (set_result out_of_memory s, k)
      else let (address, h) = allocate_heap (heap k) n 8; k = k\<lparr>heap := h\<rparr> in
        if address = 0 then (set_result out_of_memory s, k)
        else let (uid, k) = allocate_uid k;
                 p = \<lparr>variable_backing = block address n, variable_available = [block address n],
                      allocated = Map.empty\<rparr> in
          (set_result uid s, k\<lparr>variable_pools := emplace uid p (variable_pools k)\<rparr>))"

definition delete_vpl :: "State \<Rightarrow> Kernel \<Rightarrow> State \<times> Kernel" where
  "delete_vpl s k =
     (case lookup (variable_pools k) (gpr s 4) of
        None \<Rightarrow> (s, k)
      | Some p \<Rightarrow>
          (set_result 0 s,
           k\<lparr>heap := free_heap (heap k) (block_address (variable_backing p)) (block_size (variable_backing p)),
             variable_pools := erase (gpr s 4) (variable_pools k)\<rparr>))"

text \<open>\<open>gpr 5\<close> is the size, \<open>gpr 6\<close> the output address.\<close>

definition try_allocate_vpl :: "State \<Rightarrow> Kernel \<Rightarrow> State \<times> Kernel" where
  "try_allocate_vpl s k =
     (case lookup (variable_pools k) (gpr s 4) of
        None \<Rightarrow> (s, k)
      | Some p \<Rightarrow>
          let (address, p) = vpl_allocate (align_up (gpr s 5) 8) p;
              k = k\<lparr>variable_pools := update_object (gpr s 4) p (variable_pools k)\<rparr> in
          if address = 0 then (set_result out_of_memory s, k)
          else (set_result 0 (put_word s (gpr s 6) address), k))"

text \<open>One round of the loop of the waiting call, with the object the thread holds.\<close>

definition resume_vpl :: "u32 \<Rightarrow> State \<Rightarrow> Kernel \<Rightarrow> (State \<times> Kernel) option" where
  "resume_vpl uid s k =
     (case objects (variable_pools k) uid of
        None \<Rightarrow> None
      | Some p \<Rightarrow>
          let (address, p) = vpl_allocate (align_up (gpr s 5) 8) p;
              k = k\<lparr>variable_pools := update_object uid p (variable_pools k)\<rparr> in
          if address \<noteq> 0 then Some (set_result 0 (put_word s (gpr s 6) address), k)
          else if exit_requested k then Some (set_result out_of_memory s, k)
          else None)"

definition allocate_vpl :: "State \<Rightarrow> Kernel \<Rightarrow> (State \<times> Kernel) option" where
  "allocate_vpl s k =
     (case lookup (variable_pools k) (gpr s 4) of
        None \<Rightarrow> Some (s, k)
      | Some p \<Rightarrow> resume_vpl (gpr s 4) s k)"

text \<open>The variant with callbacks repeats the code.\<close>

definition allocate_vpl_cb :: "State \<Rightarrow> Kernel \<Rightarrow> (State \<times> Kernel) option" where
  "allocate_vpl_cb s k =
     (case lookup (variable_pools k) (gpr s 4) of
        None \<Rightarrow> Some (s, k)
      | Some p \<Rightarrow> resume_vpl (gpr s 4) s k)"

definition free_vpl :: "State \<Rightarrow> Kernel \<Rightarrow> State \<times> Kernel \<times> notify" where
  "free_vpl s k =
     (case lookup (variable_pools k) (gpr s 4) of
        None \<Rightarrow> (s, k, Notify_none)
      | Some p \<Rightarrow>
          (case vpl_free (gpr s 5) p of
             None \<Rightarrow> (s, k, Notify_none)
           | Some p \<Rightarrow>
               (set_result 0 s, k\<lparr>variable_pools := update_object (gpr s 4) p (variable_pools k)\<rparr>, Notify_one)))"

section \<open>A variable pool keeps blocks apart\<close>

lemma vpl_fit_cover:
  assumes "vpl_fit n bs = Some (a, rest)"
    and "\<forall>b \<in> set bs. unat (block_address b) + unat (block_size b) < 2 ^ 32"
  shows "cover rest x + cover [block a n] x = cover bs x"
  using assms
proof (induction bs arbitrary: rest)
  case (Cons b bs)
  show ?case
  proof (cases "block_size b < n")
    case True
    then show ?thesis using Cons by auto
  next
    case False
    then have n: "unat n \<le> unat (block_size b)" by (simp add: word_le_nat_alt not_less)
    have "unat (block_address b + n) = unat (block_address b) + unat n"
      using Cons.prems(2) n by (intro unat_plus_small) simp
    moreover have "unat (block_size b - n) = unat (block_size b) - unat n"
      using False by (intro unat_minus_small) (simp add: not_less)
    moreover have "block_size b = n \<longleftrightarrow> unat (block_size b) = unat n" by (simp add: word_unat_eq_iff)
    ultimately show ?thesis
      using False Cons.prems(1) n by (auto simp: in_block_def split: if_splits)
  qed
qed simp

definition vpl_inv :: "MemoryBlock list \<Rightarrow> VariablePool \<Rightarrow> bool" where
  "vpl_inv L p \<longleftrightarrow>
     unat (block_address (variable_backing p)) + unat (block_size (variable_backing p)) < 2 ^ 32 \<and>
     (\<forall>x. cover (variable_available p) x + cover L x \<le> (if in_block (variable_backing p) x then 1 else 0)) \<and>
     (\<forall>b \<in> set L. block_size b \<noteq> 0) \<and> distinct (map block_address L) \<and>
     allocated p = map_of (map (\<lambda>b. (block_address b, block_size b)) L)"

lemma vpl_inv_bounds:
  assumes "vpl_inv L p" "b \<in> set (variable_available p) \<or> b \<in> set L"
  shows "unat (block_address b) + unat (block_size b) < 2 ^ 32"
proof (cases "block_size b = 0")
  case True
  then show ?thesis using unsigned_less [of "block_address b", where 'a = nat] by simp
next
  case False
  define x where "x = unat (block_address b) + unat (block_size b) - 1"
  have pos: "0 < unat (block_size b)" using False by (simp add: unat_gt_0)
  then have "in_block b x" by (auto simp: in_block_def x_def)
  then have "1 \<le> cover (variable_available p) x + cover L x"
    using assms(2) in_cover [of b _ x] by (metis trans_le_add1 trans_le_add2)
  moreover have "cover (variable_available p) x + cover L x \<le> (if in_block (variable_backing p) x then 1 else 0)"
    using assms(1) by (simp add: vpl_inv_def)
  ultimately have "in_block (variable_backing p) x" by (auto split: if_splits)
  then have "x < unat (block_address (variable_backing p)) + unat (block_size (variable_backing p))"
    by (simp add: in_block_def)
  then show ?thesis using pos assms(1) unfolding x_def vpl_inv_def by linarith
qed

definition vpl_request :: "VariablePool \<Rightarrow> u32 \<Rightarrow> (MemoryBlock \<times> VariablePool) option" where
  "vpl_request p n =
     (let m = align_up n 8; (a, p) = vpl_allocate m p in if a = 0 then None else Some (block a m, p))"

definition vpl_release :: "VariablePool \<Rightarrow> MemoryBlock \<Rightarrow> VariablePool" where
  "vpl_release p b = (case vpl_free (block_address b) p of None \<Rightarrow> p | Some q \<Rightarrow> q)"

definition vpl_valid :: "u32 \<Rightarrow> bool" where
  "vpl_valid n \<longleftrightarrow> n \<noteq> 0 \<and> n \<le> 0xffffffc0"

lemma vpl_request_inv:
  assumes inv: "vpl_inv L p" and n: "vpl_valid n" and r: "vpl_request p n = Some (b, q)"
  shows "vpl_inv (b # L) q \<and> unat n \<le> unat (block_size b)"
proof
  define m where "m = align_up n 8"
  have "unat n + 64 \<le> 2 ^ 32" using n by (simp add: vpl_valid_def word_le_nat_alt)
  then have nm: "unat n \<le> unat m" using align_up_ge(1) [of n 3] by (simp add: m_def)
  moreover have "0 < unat n" using n by (simp add: vpl_valid_def unat_gt_0)
  ultimately have m0: "m \<noteq> 0" by (metis less_le_trans unat_0 less_irrefl)
  obtain a bs where f: "vpl_fit m (variable_available p) = Some (a, bs)" and b: "b = block a m"
    and q: "q = p\<lparr>variable_available := bs,
        allocated := (if allocated p a = None then (allocated p)(a \<mapsto> m) else allocated p)\<rparr>"
    using r by (auto simp: vpl_request_def vpl_allocate_def Let_def m_def [symmetric] split: option.splits if_splits)
  show "unat n \<le> unat (block_size b)" using nm by (simp add: b)
  have c: "cover bs x + cover [block a m] x = cover (variable_available p) x" for x
    using vpl_inv_bounds [OF inv] by (intro vpl_fit_cover [OF f]) blast
  have once: "cover bs x + cover (b # L) x \<le> (if in_block (variable_backing p) x then 1 else 0)" for x
  proof -
    have "cover bs x + cover (b # L) x = cover (variable_available p) x + cover L x"
      using c [of x] by (simp add: b)
    moreover have "cover (variable_available p) x + cover L x \<le> (if in_block (variable_backing p) x then 1 else 0)"
      using inv unfolding vpl_inv_def by blast
    ultimately show ?thesis by (simp only:)
  qed
  have "block_address c \<noteq> a" if "c \<in> set L" for c
  proof
    assume e: "block_address c = a"
    have "block_size c \<noteq> 0" using inv that by (simp add: vpl_inv_def)
    then have "in_block c (unat a)" using e by (simp add: in_block_def unat_gt_0)
    then have "1 \<le> cover L (unat a)" using that by (rule in_cover [rotated])
    moreover have "in_block b (unat a)" using m0 by (simp add: b in_block_def unat_gt_0)
    ultimately have "2 \<le> cover (b # L) (unat a)" by simp
    then show False using once [of "unat a"] by (auto split: if_splits)
  qed
  moreover from this have "map_of (map (\<lambda>b. (block_address b, block_size b)) L) a = None"
    by (fastforce simp: map_of_eq_None_iff)
  ultimately show "vpl_inv (b # L) q"
    using inv m0 once by (auto simp: vpl_inv_def q b)
qed

lemma map_of_remove1:
  "distinct (map f L) \<Longrightarrow> b \<in> set L \<Longrightarrow>
   (map_of (map (\<lambda>b. (f b, g b)) L))(f b := None) = map_of (map (\<lambda>b. (f b, g b)) (remove1 b L))"
proof (induction L)
  case (Cons c L)
  show ?case
  proof (cases "c = b")
    case True
    then have "map_of (map (\<lambda>b. (f b, g b)) L) (f b) = None"
      using Cons.prems by (auto simp: map_of_eq_None_iff)
    then show ?thesis using True by (auto simp: fun_eq_iff)
  next
    case False
    then have "f c \<in> f ` set L \<or> f b \<noteq> f c" using Cons.prems(2) by (metis image_eqI set_ConsD)
    then have "f b \<noteq> f c" using Cons.prems(1) by simp
    have "(map_of (map (\<lambda>b. (f b, g b)) L))(f b := None) = map_of (map (\<lambda>b. (f b, g b)) (remove1 b L))"
      using Cons.prems False by (intro Cons.IH) auto
    note this [symmetric]
    then show ?thesis using False \<open>f b \<noteq> f c\<close> by (auto simp: fun_eq_iff)
  qed
qed simp

lemma vpl_release_inv:
  assumes inv: "vpl_inv L p" and b: "b \<in> set L"
  shows "vpl_inv (remove1 b L) (vpl_release p b)"
proof -
  let ?bs = "sort_key block_address (variable_available p @ [b])"
  have a: "allocated p (block_address b) = Some (block_size b)"
    using inv b by (auto simp: vpl_inv_def intro!: map_of_is_SomeI simp: comp_def)
  have eb: "block (block_address b) (block_size b) = b" by (cases b) simp
  have q: "vpl_release p b = p\<lparr>variable_available := coalesce ?bs,
      allocated := (allocated p)(block_address b := None)\<rparr>"
    by (simp add: vpl_release_def vpl_free_def a eb)
  have "cover (coalesce ?bs) x = cover ?bs x" for x
    using vpl_inv_bounds [OF inv] b by (intro cover_coalesce) auto
  moreover have "cover ?bs x = cover (variable_available p @ [b]) x" for x
    by (rule cover_mset) simp
  ultimately have "cover (coalesce ?bs) x + cover (remove1 b L) x = cover (variable_available p) x + cover L x" for x
    using cover_remove1 [OF b, of x] by simp
  moreover have "distinct (map block_address (remove1 b L))"
    using inv by (simp add: vpl_inv_def distinct_map inj_on_def)
  ultimately show ?thesis
    using inv map_of_remove1 [of block_address L b block_size] b
    by (auto simp: vpl_inv_def q dest: subsetD [OF set_remove1_subset])
qed

interpretation vpl: block_allocator vpl_request vpl_release vpl_inv
  "\<lambda>p x. in_block (variable_backing p) x" vpl_valid id
proof unfold_locales
  fix L p x b r q
  assume inv: "vpl_inv L p"
  have c: "cover (variable_available p) x + cover L x \<le> (if in_block (variable_backing p) x then 1 else 0)" for x
    using inv by (simp add: vpl_inv_def)
  show "cover L x \<le> 1" using c [of x] by (auto split: if_splits)
  show "in_block (variable_backing p) x" if "b \<in> set L" "in_block b x"
    using c [of x] in_cover [OF that] by (auto split: if_splits)
  show "vpl_inv (b # L) q" "unat (id r) \<le> unat (block_size b)"
    if "vpl_valid r" "vpl_request p r = Some (b, q)"
    using vpl_request_inv [OF inv that] by simp_all
  show "vpl_inv (remove1 b L) (vpl_release p b)" if "b \<in> set L"
    using inv that by (rule vpl_release_inv)
qed

section \<open>All kernel memory is disjoint\<close>

definition table_sum :: "('a \<Rightarrow> 'b multiset) \<Rightarrow> 'a Table \<Rightarrow> 'b multiset" where
  "table_sum f tab = (\<Sum>uid\<in>UNIV. case lookup tab uid of None \<Rightarrow> {#} | Some x \<Rightarrow> f x)"

lemma table_sum_split:
  "table_sum f tab = (case lookup tab uid of None \<Rightarrow> {#} | Some x \<Rightarrow> f x) +
     (\<Sum>v\<in>UNIV - {uid}. case lookup tab v of None \<Rightarrow> {#} | Some x \<Rightarrow> f x)"
  unfolding table_sum_def by (rule sum.remove) simp_all

lemma table_sum_rest:
  "(\<And>v. v \<noteq> uid \<Longrightarrow> lookup tab v = lookup tab' v) \<Longrightarrow>
   (\<Sum>v\<in>UNIV - {uid}. case lookup tab v of None \<Rightarrow> {#} | Some x \<Rightarrow> f x) =
   (\<Sum>v\<in>UNIV - {uid}. case lookup tab' v of None \<Rightarrow> {#} | Some x \<Rightarrow> f x)"
  by (rule sum.cong) simp_all

lemma table_sum_emplace:
  "lookup tab uid = None \<Longrightarrow> table_sum f (emplace uid x tab) = f x + table_sum f tab"
  unfolding table_sum_split [of f tab uid] table_sum_split [of f "emplace uid x tab" uid]
  by (subst table_sum_rest [of uid "emplace uid x tab" tab]) simp_all

lemma table_sum_erase:
  "lookup tab uid = Some x \<Longrightarrow> table_sum f tab = f x + table_sum f (erase uid tab)"
  unfolding table_sum_split [of f tab uid] table_sum_split [of f "erase uid tab" uid]
  by (subst table_sum_rest [of uid "erase uid tab" tab]) simp_all

lemma table_sum_update:
  "objects tab uid = Some x \<Longrightarrow> f y = f x \<Longrightarrow> table_sum f (update_object uid y tab) = table_sum f tab"
  unfolding table_sum_def
  by (rule sum.cong) (auto simp: lookup_def update_object_def split: option.splits if_splits)

text \<open>The blocks the tables hold.\<close>

definition live_blocks :: "Kernel \<Rightarrow> MemoryBlock multiset" where
  "live_blocks k =
     table_sum (\<lambda>b. {#b#}) (memory_blocks k) +
     table_sum (\<lambda>p. mset (fixed_backing p)) (fixed_pools k) +
     table_sum (\<lambda>p. {#variable_backing p#}) (variable_pools k)"

lemma heap_inv_mset: "mset L = mset L' \<Longrightarrow> heap_inv limit L h \<longleftrightarrow> heap_inv limit L' h"
  using cover_mset [of L L'] by (simp add: heap_inv_def)

definition memory_inv :: "nat \<Rightarrow> Kernel \<Rightarrow> bool" where
  "memory_inv limit k \<longleftrightarrow>
     (\<exists>L. mset L = live_blocks k \<and> heap_inv limit L (heap k)) \<and>
     (\<forall>uid. next_uid k \<le> uid \<longrightarrow> lookup (memory_blocks k) uid = None \<and>
        lookup (fixed_pools k) uid = None \<and> lookup (variable_pools k) uid = None)"

lemma heap_alloc:
  assumes inv: "heap_inv limit L h" and j: "j \<le> 6" and h: "allocate_heap h n (2 ^ j) = (a, t)"
  shows "a \<noteq> 0 \<Longrightarrow> heap_inv limit (block a n # L) t" "a = 0 \<Longrightarrow> heap_inv limit L t"
proof -
  show "heap_inv limit (block a n # L) t" if "a \<noteq> 0"
    using heap_request_inv [OF inv, of "Heap_block n (2 ^ j)" "block a n" t] that h j by auto
  show "heap_inv limit L t" if "a = 0"
  proof (cases "find_fit n (2 ^ j) (free_heap_blocks h)")
    case (Some x)
    then have "heap_inv limit (block a n # L) t"
      using heap_free_list_inv [OF inv _ h] by (cases x) fastforce
    then have "heap_inv limit L (t\<lparr>free_heap_blocks := free_heap_blocks t\<rparr>)"
      by (rule heap_inv_cover) simp
    then show ?thesis by simp
  next
    case None
    define d where "d = align_up (heap_cursor h) (2 ^ j)"
    have "t = h"
    proof (rule ccontr)
      assume "t \<noteq> h"
      then have g: "n \<le> stack_cursor h" "d \<le> stack_cursor h - n" and a: "a = memory_start h + d"
        using h None by (auto simp: allocate_heap_def Let_def d_def not_less split: if_splits)
      have i: "limit + 64 \<le> 2 ^ 32" "unat (memory_start h) + unat (stack_cursor h) \<le> limit" "memory_start h \<noteq> 0"
        using inv by (simp_all add: heap_inv_def)
      have "unat d \<le> unat (stack_cursor h)"
        using g unat_minus_small [OF g(1)] by (simp add: word_le_nat_alt)
      then have "unat a = unat (memory_start h) + unat d"
        unfolding a using i by (intro unat_plus_small) simp
      then show False using i(3) \<open>a = 0\<close> by (simp add: unat_eq_0)
    qed
    then show ?thesis using inv by simp
  qed
qed

lemma heap_free:
  assumes "heap_inv limit (b # L) h"
  shows "heap_inv limit L (free_heap h (block_address b) (block_size b))"
  using heap_release_inv [OF assms, of b] by (simp add: heap_release_def)

lemma heap_free_all: "heap_inv limit (bs @ L) h \<Longrightarrow> heap_inv limit L (free_all h bs)"
  by (induction bs arbitrary: h) (simp_all add: heap_free)

lemma heap_take_blocks:
  assumes "heap_inv limit (taken @ L) h" "take_blocks i n taken h = (r, t)"
  shows "case r of None \<Rightarrow> heap_inv limit L t | Some bs \<Rightarrow> heap_inv limit (bs @ L) t"
  using assms
proof (induction i n taken h rule: take_blocks.induct)
  case (2 i n taken h)
  obtain a h' where a: "allocate_heap h n 64 = (a, h')" by fastforce
  then have h': "allocate_heap h n (2 ^ 6) = (a, h')" by simp
  note alloc = heap_alloc [OF 2(2) _ h', simplified]
  show ?case
  proof (cases "a = 0")
    case True
    then show ?thesis using 2(3) a alloc(2) by (auto intro: heap_free_all)
  next
    case False
    then have "heap_inv limit ((taken @ [block a n]) @ L) h'"
      using alloc(1) by (subst heap_inv_mset [of _ "block a n # taken @ L"]) simp_all
    then show ?thesis using 2(1) [OF a [symmetric] refl False] 2(3) a False by simp
  qed
qed auto

text \<open>
  The kernel after any sequence of calls. Other calls draw identifiers and leave the heap
  and the tables of memory alone; the identifiers are not used up.
\<close>

inductive memory_reachable :: "Kernel \<Rightarrow> Kernel \<Rightarrow> bool" for k0 where
  configured: "memory_reachable k0 k0"
| partition: "memory_reachable k0 k \<Longrightarrow> next_uid k < 0xffffffff \<Longrightarrow>
    memory_reachable k0 (snd (alloc_partition_memory s k))"
| free_partition: "memory_reachable k0 k \<Longrightarrow> memory_reachable k0 (snd (free_partition_memory s k))"
| fixed_pool: "memory_reachable k0 k \<Longrightarrow> next_uid k < 0xffffffff \<Longrightarrow>
    memory_reachable k0 (snd (create_fpl s k))"
| free_fixed_pool: "memory_reachable k0 k \<Longrightarrow> memory_reachable k0 (snd (delete_fpl s k))"
| fixed_take: "memory_reachable k0 k \<Longrightarrow> memory_reachable k0 (snd (try_allocate_fpl s k))"
| fixed_resume: "memory_reachable k0 k \<Longrightarrow> resume_fpl uid s k = Some (s', k') \<Longrightarrow> memory_reachable k0 k'"
| fixed_put: "memory_reachable k0 k \<Longrightarrow> memory_reachable k0 (fst (snd (free_fpl s k)))"
| variable_pool: "memory_reachable k0 k \<Longrightarrow> next_uid k < 0xffffffff \<Longrightarrow>
    memory_reachable k0 (snd (create_vpl s k))"
| free_variable_pool: "memory_reachable k0 k \<Longrightarrow> memory_reachable k0 (snd (delete_vpl s k))"
| variable_take: "memory_reachable k0 k \<Longrightarrow> memory_reachable k0 (snd (try_allocate_vpl s k))"
| variable_resume: "memory_reachable k0 k \<Longrightarrow> resume_vpl uid s k = Some (s', k') \<Longrightarrow> memory_reachable k0 k'"
| variable_put: "memory_reachable k0 k \<Longrightarrow> memory_reachable k0 (fst (snd (free_vpl s k)))"
| other: "memory_reachable k0 k \<Longrightarrow> next_uid k \<le> next_uid k' \<Longrightarrow> heap k' = heap k \<Longrightarrow>
    memory_blocks k' = memory_blocks k \<Longrightarrow> fixed_pools k' = fixed_pools k \<Longrightarrow>
    variable_pools k' = variable_pools k \<Longrightarrow> memory_reachable k0 k'"

lemma next_uid_fresh:
  "next_uid k < 0xffffffff \<Longrightarrow> (next_uid k + 1 \<le> uid \<Longrightarrow> uid \<noteq> next_uid k \<and> next_uid k \<le> uid)"
proof -
  assume a: "next_uid k < 0xffffffff" and b: "next_uid k + 1 \<le> uid"
  have "unat (next_uid k + 1) = unat (next_uid k) + 1"
    using a by (subst unat_plus_small) (simp_all add: word_less_nat_alt)
  then show ?thesis using b by (auto simp: word_le_nat_alt)
qed

text \<open>A change of the heap with the matching change of the tables.\<close>

lemma memory_inv_change:
  assumes "memory_inv limit k"
    and "\<And>L. mset L = live_blocks k \<Longrightarrow> heap_inv limit L (heap k) \<Longrightarrow>
       \<exists>L'. mset L' = live_blocks k' \<and> heap_inv limit L' (heap k')"
    and "\<And>uid. next_uid k' \<le> uid \<Longrightarrow> next_uid k \<le> uid \<and>
       (lookup (memory_blocks k) uid = None \<longrightarrow> lookup (memory_blocks k') uid = None) \<and>
       (lookup (fixed_pools k) uid = None \<longrightarrow> lookup (fixed_pools k') uid = None) \<and>
       (lookup (variable_pools k) uid = None \<longrightarrow> lookup (variable_pools k') uid = None)"
  shows "memory_inv limit k'"
  using assms(1,2,3) unfolding memory_inv_def by metis

lemma memory_inv_partition:
  assumes inv: "memory_inv limit k" and u: "next_uid k < 0xffffffff"
  shows "memory_inv limit (snd (alloc_partition_memory s k))"
proof -
  obtain a h where a: "allocate_heap (heap k) (gpr s 7) 64 = (a, h)" by fastforce
  have f: "lookup (memory_blocks k) (next_uid k) = None" using inv by (simp add: memory_inv_def)
  show ?thesis
  proof (rule memory_inv_change [OF inv])
    fix L assume L: "mset L = live_blocks k" "heap_inv limit L (heap k)"
    note h = heap_alloc [OF L(2), of 6, simplified, OF a]
    show "\<exists>L'. mset L' = live_blocks (snd (alloc_partition_memory s k)) \<and>
        heap_inv limit L' (heap (snd (alloc_partition_memory s k)))"
    proof (cases "a = 0")
      case True
      then show ?thesis
        using h(2) L a by (intro exI [of _ L]) (simp add: alloc_partition_memory_def Let_def live_blocks_def)
    next
      case False
      then show ?thesis
        using h(1) L(1) a f
        by (intro exI [of _ "block a (gpr s 7) # L"])
          (simp add: alloc_partition_memory_def Let_def live_blocks_def allocate_uid_def table_sum_emplace)
    qed
  next
    fix uid assume "next_uid (snd (alloc_partition_memory s k)) \<le> uid"
    then show "next_uid k \<le> uid \<and>
       (lookup (memory_blocks k) uid = None \<longrightarrow> lookup (memory_blocks (snd (alloc_partition_memory s k))) uid = None) \<and>
       (lookup (fixed_pools k) uid = None \<longrightarrow> lookup (fixed_pools (snd (alloc_partition_memory s k))) uid = None) \<and>
       (lookup (variable_pools k) uid = None \<longrightarrow> lookup (variable_pools (snd (alloc_partition_memory s k))) uid = None)"
      using next_uid_fresh [OF u, of uid] a
      by (auto simp: alloc_partition_memory_def Let_def allocate_uid_def split: if_splits)
  qed
qed

lemma memory_inv_create_fpl:
  assumes inv: "memory_inv limit k" and u: "next_uid k < 0xffffffff"
  shows "memory_inv limit (snd (create_fpl s k))"
proof -
  obtain r h where a: "take_blocks (unat (gpr s 8)) (gpr s 7) [] (heap k) = (r, h)" by fastforce
  have f: "lookup (fixed_pools k) (next_uid k) = None" using inv by (simp add: memory_inv_def)
  show ?thesis
  proof (cases "gpr s 7 = 0 \<or> gpr s 8 = 0")
    case True
    then show ?thesis using inv by (simp add: create_fpl_def Let_def)
  next
    case False
    show ?thesis
    proof (rule memory_inv_change [OF inv])
      fix L assume L: "mset L = live_blocks k" "heap_inv limit L (heap k)"
      note h = heap_take_blocks [of limit "[]" L "heap k", simplified, OF L(2) a]
      show "\<exists>L'. mset L' = live_blocks (snd (create_fpl s k)) \<and> heap_inv limit L' (heap (snd (create_fpl s k)))"
      proof (cases r)
        case None
        then show ?thesis
          using h L a False by (intro exI [of _ L]) (simp add: create_fpl_def Let_def live_blocks_def)
      next
        case (Some bs)
        then show ?thesis
          using h L(1) a f False
          by (intro exI [of _ "bs @ L"])
            (simp add: create_fpl_def Let_def live_blocks_def allocate_uid_def table_sum_emplace)
      qed
    next
      fix uid assume "next_uid (snd (create_fpl s k)) \<le> uid"
      then show "next_uid k \<le> uid \<and>
         (lookup (memory_blocks k) uid = None \<longrightarrow> lookup (memory_blocks (snd (create_fpl s k))) uid = None) \<and>
         (lookup (fixed_pools k) uid = None \<longrightarrow> lookup (fixed_pools (snd (create_fpl s k))) uid = None) \<and>
         (lookup (variable_pools k) uid = None \<longrightarrow> lookup (variable_pools (snd (create_fpl s k))) uid = None)"
        using next_uid_fresh [OF u, of uid] a False
        by (auto simp: create_fpl_def Let_def allocate_uid_def split: option.splits)
    qed
  qed
qed

lemma memory_inv_create_vpl:
  assumes inv: "memory_inv limit k" and u: "next_uid k < 0xffffffff"
  shows "memory_inv limit (snd (create_vpl s k))"
proof (cases "gpr s 7 = 0")
  case True
  then show ?thesis using inv by (simp add: create_vpl_def Let_def)
next
  case False
  obtain a h where a: "allocate_heap (heap k) (gpr s 7) 8 = (a, h)" by fastforce
  have f: "lookup (variable_pools k) (next_uid k) = None" using inv by (simp add: memory_inv_def)
  show ?thesis
  proof (rule memory_inv_change [OF inv])
    fix L assume L: "mset L = live_blocks k" "heap_inv limit L (heap k)"
    note h = heap_alloc [OF L(2), of 3, simplified, OF a]
    show "\<exists>L'. mset L' = live_blocks (snd (create_vpl s k)) \<and> heap_inv limit L' (heap (snd (create_vpl s k)))"
    proof (cases "a = 0")
      case True
      then show ?thesis
        using h(2) L a False by (intro exI [of _ L]) (simp add: create_vpl_def Let_def live_blocks_def)
    next
      case a0: False
      then show ?thesis
        using h(1) L(1) a f False
        by (intro exI [of _ "block a (gpr s 7) # L"])
          (simp add: create_vpl_def Let_def live_blocks_def allocate_uid_def table_sum_emplace)
    qed
  next
    fix uid assume "next_uid (snd (create_vpl s k)) \<le> uid"
    then show "next_uid k \<le> uid \<and>
       (lookup (memory_blocks k) uid = None \<longrightarrow> lookup (memory_blocks (snd (create_vpl s k))) uid = None) \<and>
       (lookup (fixed_pools k) uid = None \<longrightarrow> lookup (fixed_pools (snd (create_vpl s k))) uid = None) \<and>
       (lookup (variable_pools k) uid = None \<longrightarrow> lookup (variable_pools (snd (create_vpl s k))) uid = None)"
      using next_uid_fresh [OF u, of uid] a False
      by (auto simp: create_vpl_def Let_def allocate_uid_def split: if_splits)
  qed
qed

text \<open>Deleting an object gives back exactly the blocks it holds.\<close>

lemma memory_inv_delete:
  assumes inv: "memory_inv limit k"
  shows "memory_inv limit (snd (free_partition_memory s k))" "memory_inv limit (snd (delete_fpl s k))"
    "memory_inv limit (snd (delete_vpl s k))"
proof -
  obtain L where L: "mset L = live_blocks k" "heap_inv limit L (heap k)"
    using inv by (auto simp: memory_inv_def)
  have split: "heap_inv limit (bs @ L') (heap k)" if "live_blocks k = mset bs + M" "mset L' = M" for bs L' M
    using L that by (subst heap_inv_mset [of _ L]) simp_all
  show "memory_inv limit (snd (free_partition_memory s k))"
  proof (cases "lookup (memory_blocks k) (gpr s 4)")
    case (Some b)
    let ?k = "snd (free_partition_memory s k)"
    have "live_blocks k = mset [b] + live_blocks ?k"
      using table_sum_erase [OF Some, of "\<lambda>b. {#b#}"] by (simp add: free_partition_memory_def Some live_blocks_def)
    moreover obtain L' where L': "mset L' = live_blocks ?k" by (metis ex_mset)
    ultimately have "heap_inv limit L' (heap ?k)"
      using heap_free [of limit b L' "heap k"] split by (fastforce simp: free_partition_memory_def Some)
    then show ?thesis
      using inv L' by (auto simp: memory_inv_def free_partition_memory_def Some)
  qed (simp add: inv free_partition_memory_def)
  show "memory_inv limit (snd (delete_fpl s k))"
  proof (cases "lookup (fixed_pools k) (gpr s 4)")
    case (Some p)
    let ?k = "snd (delete_fpl s k)"
    have "live_blocks k = mset (fixed_backing p) + live_blocks ?k"
      using table_sum_erase [OF Some, of "\<lambda>p. mset (fixed_backing p)"] by (simp add: delete_fpl_def Some live_blocks_def)
    moreover obtain L' where L': "mset L' = live_blocks ?k" by (metis ex_mset)
    ultimately have "heap_inv limit L' (heap ?k)"
      using heap_free_all [of limit "fixed_backing p" L' "heap k"] split by (simp add: delete_fpl_def Some)
    then show ?thesis
      using inv L' by (auto simp: memory_inv_def delete_fpl_def Some)
  qed (simp add: inv delete_fpl_def)
  show "memory_inv limit (snd (delete_vpl s k))"
  proof (cases "lookup (variable_pools k) (gpr s 4)")
    case (Some p)
    let ?k = "snd (delete_vpl s k)"
    have "live_blocks k = mset [variable_backing p] + live_blocks ?k"
      using table_sum_erase [OF Some, of "\<lambda>p. {#variable_backing p#}"] by (simp add: delete_vpl_def Some live_blocks_def)
    moreover obtain L' where L': "mset L' = live_blocks ?k" by (metis ex_mset)
    ultimately have "heap_inv limit L' (heap ?k)"
      using heap_free [of limit "variable_backing p" L' "heap k"] split by (fastforce simp: delete_vpl_def Some)
    then show ?thesis
      using inv L' by (auto simp: memory_inv_def delete_vpl_def Some)
  qed (simp add: inv delete_vpl_def)
qed

text \<open>What happens inside a pool moves no heap block.\<close>

definition same_blocks :: "Kernel \<Rightarrow> Kernel \<Rightarrow> bool" where
  "same_blocks k k' \<longleftrightarrow> heap k' = heap k \<and> next_uid k' = next_uid k \<and> live_blocks k' = live_blocks k \<and>
     (\<forall>uid. lookup (memory_blocks k') uid = None \<longleftrightarrow> lookup (memory_blocks k) uid = None) \<and>
     (\<forall>uid. lookup (fixed_pools k') uid = None \<longleftrightarrow> lookup (fixed_pools k) uid = None) \<and>
     (\<forall>uid. lookup (variable_pools k') uid = None \<longleftrightarrow> lookup (variable_pools k) uid = None)"

lemma memory_inv_same: "same_blocks k k' \<Longrightarrow> memory_inv limit k \<Longrightarrow> memory_inv limit k'"
  by (simp add: same_blocks_def memory_inv_def)

lemma same_blocks_refl [simp]: "same_blocks k k"
  by (simp add: same_blocks_def)

lemma lookup_update_None:
  "objects tab uid = Some x \<Longrightarrow> lookup (update_object uid y tab) v = None \<longleftrightarrow> lookup tab v = None"
  by (auto simp: lookup_def update_object_def)

lemma same_blocks_fixed:
  assumes "objects (fixed_pools k) uid = Some p" "fixed_backing q = fixed_backing p"
  shows "same_blocks k (k\<lparr>fixed_pools := update_object uid q (fixed_pools k)\<rparr>)"
  using table_sum_update [OF assms(1), of "\<lambda>p. mset (fixed_backing p)" q] assms
  by (simp add: same_blocks_def live_blocks_def lookup_update_None del: lookup_table)

lemma same_blocks_variable:
  assumes "objects (variable_pools k) uid = Some p" "variable_backing q = variable_backing p"
  shows "same_blocks k (k\<lparr>variable_pools := update_object uid q (variable_pools k)\<rparr>)"
  using table_sum_update [OF assms(1), of "\<lambda>p. {#variable_backing p#}" q] assms
  by (simp add: same_blocks_def live_blocks_def lookup_update_None del: lookup_table)

lemma backing_simps:
  "fixed_backing (snd (fixed_take p)) = fixed_backing p" "fixed_backing (fixed_put a p) = fixed_backing p"
  "variable_backing (snd (vpl_allocate n q)) = variable_backing q"
  "vpl_free a q = Some q' \<Longrightarrow> variable_backing q' = variable_backing q"
  by (auto simp: fixed_take_def fixed_put_def vpl_allocate_def vpl_free_def split: option.splits)

lemma same_blocks_calls:
  "same_blocks k (snd (try_allocate_fpl s k))" "same_blocks k (fst (snd (free_fpl s k)))"
  "resume_fpl uid s k = Some (s', k') \<Longrightarrow> same_blocks k k'"
  "same_blocks k (snd (try_allocate_vpl s k))" "same_blocks k (fst (snd (free_vpl s k)))"
  "resume_vpl uid s k = Some (s', k') \<Longrightarrow> same_blocks k k'"
proof -
  show "same_blocks k (snd (try_allocate_fpl s k))" "same_blocks k (fst (snd (free_fpl s k)))"
    by (auto simp: try_allocate_fpl_def free_fpl_def Let_def split_beta backing_simps dest: lookup_objects
        intro!: same_blocks_fixed split: option.split)
  show "resume_fpl uid s k = Some (s', k') \<Longrightarrow> same_blocks k k'"
    by (auto simp: resume_fpl_def Let_def split_beta backing_simps
        intro!: same_blocks_fixed split: option.splits if_splits)
  show "same_blocks k (snd (try_allocate_vpl s k))" "same_blocks k (fst (snd (free_vpl s k)))"
    by (auto simp: try_allocate_vpl_def free_vpl_def Let_def split_beta backing_simps dest: lookup_objects
        intro!: same_blocks_variable split: option.split)
  show "resume_vpl uid s k = Some (s', k') \<Longrightarrow> same_blocks k k'"
    by (auto simp: resume_vpl_def Let_def split_beta backing_simps
        intro!: same_blocks_variable split: option.splits if_splits)
qed

lemma memory_reachable_inv:
  "memory_reachable k0 k \<Longrightarrow> memory_inv limit k0 \<Longrightarrow> memory_inv limit k"
proof (induction rule: memory_reachable.induct)
  case (other k k')
  then show ?case by (auto simp: memory_inv_def live_blocks_def)
qed (auto intro: memory_inv_partition memory_inv_create_fpl memory_inv_create_vpl memory_inv_delete
    memory_inv_same [OF same_blocks_calls(1)] memory_inv_same [OF same_blocks_calls(2)]
    memory_inv_same [OF same_blocks_calls(3)] memory_inv_same [OF same_blocks_calls(4)]
    memory_inv_same [OF same_blocks_calls(5)] memory_inv_same [OF same_blocks_calls(6)])

lemma table_sum_empty [simp]: "table_sum f empty_table = {#}"
  by (simp add: table_sum_def)

lemma memory_inv_start:
  "sane_configuration base size_bytes image_size image_start \<Longrightarrow>
   memory_inv (unat base + size_bytes)
     (initial_kernel (configure_heap base size_bytes image_size image_start))"
  using configure_heap_inv by (auto simp: memory_inv_def initial_kernel_def live_blocks_def intro!: exI [of _ "[]"])



section \<open>The threads waiting for a pool\<close>

datatype Fixed_call = Fixed_try | Fixed_free u32

fun fixed_call :: "Fixed_call \<Rightarrow> FixedPool \<Rightarrow> FixedPool \<times> notify" where
  "fixed_call Fixed_try p = (snd (fixed_take p), Notify_none)"
| "fixed_call (Fixed_free a) p = (fixed_put a p, Notify_one)"

interpretation fixed: counted_object "\<lambda>p (w :: int). fixed_pool_available False p" fixed_call
  "\<lambda>(thread :: int) p. Some (p, thread)" "\<lambda>w p. (snd (fixed_take p), Notify_none)" "\<lambda>_ _. None"
  "\<lambda>p. length (fixed_available p)" "\<lambda>_. False"
  by unfold_locales
    (auto simp: fixed_pool_available_def fixed_take_def fixed_put_def elim!: fixed_call.elims split: if_splits)

text \<open>
  A variable pool notifies one thread for each block freed, but its waiters ask for different
  sizes. The thread woken may be one that still cannot go on: it sleeps again, and the
  thread that could has not been woken.
\<close>

definition vpl_ready :: "VariablePool \<Rightarrow> u32 \<Rightarrow> bool" where
  "vpl_ready p n \<longleftrightarrow> fst (vpl_allocate n p) \<noteq> 0"

datatype Vpl_call = Vpl_try u32 | Vpl_free u32

fun vpl_call :: "Vpl_call \<Rightarrow> VariablePool \<Rightarrow> VariablePool \<times> notify" where
  "vpl_call (Vpl_try n) p = (snd (vpl_allocate (align_up n 8) p), Notify_none)"
| "vpl_call (Vpl_free a) p = (case vpl_free a p of None \<Rightarrow> (p, Notify_none) | Some q \<Rightarrow> (q, Notify_one))"

abbreviation vpl_step where
  "vpl_step \<equiv> wait_step vpl_ready vpl_call (\<lambda>n p. Some (p, align_up n 8))
     (\<lambda>n p. (snd (vpl_allocate n p), Notify_none)) (\<lambda>_ _. None)"

text \<open>
  C39. A variable pool loses wake-ups. From a new pool a run exists that ends with no thread woken
  and a thread asleep whose request the pool could satisfy.
\<close>

theorem vpl_lost_wakeup:
  "\<exists>p q S w. variable_available p = [variable_backing p] \<and> allocated p = Map.empty \<and>
     vpl_step\<^sup>*\<^sup>* (p, [], []) (q, S, []) \<and> w \<in> set S \<and> vpl_ready q w"
proof -
  let ?p = "\<lambda>bs m. \<lparr>variable_backing = block 0x08800000 64, variable_available = bs, allocated = m\<rparr>"
  let ?b0 = "block 0x08800000 64"
  let ?p1 = "?p [block 0x08800008 56] [0x08800000 \<mapsto> 8]"
  let ?p2 = "?p [] [0x08800000 \<mapsto> 8, 0x08800008 \<mapsto> 56]"
  let ?p3 = "?p [block 0x08800000 8] [0x08800008 \<mapsto> 56]"
  have e: "0x08800000 \<noteq> (0x08800008 :: u32)" by simp
  have a: "vpl_step (?p [?b0] Map.empty, [], []) (?p1, [], [])"
    by (rule wait_step.call [where c = "Vpl_try 8" and n = Notify_none])
      (simp_all add: align_up_def vpl_allocate_def)
  have b: "vpl_step (?p1, [], []) (?p2, [], [])"
    by (rule wait_step.call [where c = "Vpl_try 56" and n = Notify_none])
      (simp_all add: align_up_def vpl_allocate_def)
  have c: "vpl_step (?p2, [], []) (?p2, [8], [])"
    by (rule wait_step.sleep [where r = 8]) (simp_all add: align_up_def vpl_ready_def vpl_allocate_def)
  have d: "vpl_step (?p2, [8], []) (?p2, [64, 8], [])"
    by (rule wait_step.sleep [where r = 64]) (simp_all add: align_up_def vpl_ready_def vpl_allocate_def)
  have f: "vpl_step (?p2, [64, 8], []) (?p3, remove1 64 [64, 8], [64])"
    by (rule wait_step.call [where c = "Vpl_free 0x08800000", OF _ wakes.one])
      (auto simp: vpl_free_def fun_upd_def)
  have g: "vpl_step (?p3, [8], [64]) (?p3, [64, 8], remove1 64 [64])"
    by (rule wait_step.again) (simp_all add: vpl_ready_def vpl_allocate_def)
  have "vpl_step\<^sup>*\<^sup>* (?p [?b0] Map.empty, [], []) (?p3, [64, 8], [])"
    using a b c d f g by (simp add: converse_rtranclp_into_rtranclp)
  moreover have "vpl_ready ?p3 8" by (simp add: vpl_ready_def vpl_allocate_def)
  ultimately show ?thesis
    by (intro exI [of _ "?p [?b0] Map.empty"] exI [of _ ?p3] exI [of _ "[64, 8]"] exI [of _ 8]) simp
qed

section \<open>Blocks cut from a variable pool\<close>

inductive vpl_reachable :: "VariablePool \<Rightarrow> MemoryBlock list \<Rightarrow> VariablePool \<Rightarrow> bool" for p0 where
  created: "vpl_reachable p0 [] p0"
| cut: "vpl_reachable p0 L p \<Longrightarrow> vpl_valid n \<Longrightarrow> vpl_request p n = Some (b, q) \<Longrightarrow>
    vpl_reachable p0 (b # L) q"
| return: "vpl_reachable p0 L p \<Longrightarrow> b \<in> set L \<Longrightarrow> vpl_reachable p0 (remove1 b L) (vpl_release p b)"

lemma vpl_reachable_inv: "vpl_reachable p0 L p \<Longrightarrow> vpl_inv [] p0 \<Longrightarrow> vpl_inv L p"
  by (induction rule: vpl_reachable.induct) (auto intro: vpl.alloc_inv vpl.free_inv)

lemma vpl_backing:
  "variable_backing (vpl_release p b) = variable_backing p"
  "vpl_request p n = Some (b, q) \<Longrightarrow> variable_backing q = variable_backing p"
  by (auto simp: vpl_release_def vpl_request_def Let_def vpl_allocate_def backing_simps split: option.splits if_splits prod.splits)

lemma vpl_reachable_backing: "vpl_reachable p0 L p \<Longrightarrow> variable_backing p = variable_backing p0"
  by (induction rule: vpl_reachable.induct) (auto simp: vpl_backing)



end
