(* ===== verification/Execution_Lock.thy ===== *)
theory Execution_Lock
  imports Kernel_State
begin

text \<open>
  The lock around guest code in \<open>refract/src/runtime.cpp\<close>: guest threads are host threads,
  and \<open>acquire_guest_execution\<close> and \<open>release_guest_execution\<close> let one at a time run. A
  thread draws a ticket and waits until it is served; a release serves the next ticket and
  wakes all. A call that blocks gives the lock up with \<open>GuestExecutionPause\<close> and draws a new
  ticket when it goes on. \<open>locked_threads\<close> are the threads whose thread-local
  \<open>guest_execution_locked\<close> is set.
\<close>

record Execution =
  next_guest_ticket :: nat
  serving_guest_ticket :: nat
  locked_threads :: "int set"

record Execution_waiter =
  guest_thread :: int
  guest_ticket :: nat

definition initial_execution :: Execution where
  "initial_execution = \<lparr>next_guest_ticket = 0, serving_guest_ticket = 0, locked_threads = {}\<rparr>"

text \<open>\<open>acquire_guest_execution\<close> up to the wait, its predicate, and what follows the wait.\<close>

definition acquire_ticket :: "int \<Rightarrow> Execution \<Rightarrow> Execution \<times> Execution_waiter" where
  "acquire_ticket thread e =
     (e\<lparr>next_guest_ticket := next_guest_ticket e + 1\<rparr>,
      \<lparr>guest_thread = thread, guest_ticket = next_guest_ticket e\<rparr>)"

definition execution_served :: "bool \<Rightarrow> Execution \<Rightarrow> Execution_waiter \<Rightarrow> bool" where
  "execution_served exiting e w \<longleftrightarrow> guest_ticket w = serving_guest_ticket e \<or> exiting"

definition acquire_served :: "bool \<Rightarrow> Execution_waiter \<Rightarrow> Execution \<Rightarrow> bool \<times> Execution" where
  "acquire_served exiting w e =
     (if exiting then (False, e\<lparr>locked_threads := locked_threads e - {guest_thread w}\<rparr>)
      else (True, e\<lparr>locked_threads := insert (guest_thread w) (locked_threads e)\<rparr>))"

definition release_guest_execution :: "int \<Rightarrow> Execution \<Rightarrow> Execution" where
  "release_guest_execution thread e =
     e\<lparr>locked_threads := locked_threads e - {thread},
       serving_guest_ticket := serving_guest_ticket e + 1\<rparr>"

text \<open>
  The lock is released by the destructor of \<open>GuestExecutionLock\<close> and the constructor of
  \<open>GuestExecutionPause\<close>, both only by a thread that holds it; and a thread that holds it
  does not acquire it.
\<close>

datatype Execution_call = Release int

fun execution_call :: "Execution_call \<Rightarrow> Execution \<Rightarrow> Execution \<times> notify" where
  "execution_call (Release thread) e =
     (if thread \<in> locked_threads e then (release_guest_execution thread e, Notify_all) else (e, Notify_none))"

definition execution_enter :: "int \<Rightarrow> Execution \<Rightarrow> (Execution \<times> Execution_waiter) option" where
  "execution_enter thread e = (if thread \<in> locked_threads e then None else Some (acquire_ticket thread e))"

text \<open>
  Either nobody holds the lock and the waiting tickets are all those from the one served, or
  one thread holds it and the waiting tickets are all those after.
\<close>

definition execution_inv :: "Execution \<Rightarrow> Execution_waiter multiset \<Rightarrow> bool" where
  "execution_inv e W \<longleftrightarrow>
     (locked_threads e = {} \<and> serving_guest_ticket e \<le> next_guest_ticket e \<and>
        image_mset guest_ticket W = mset_set {serving_guest_ticket e ..< next_guest_ticket e} \<or>
      (\<exists>t. locked_threads e = {t}) \<and> serving_guest_ticket e < next_guest_ticket e \<and>
        image_mset guest_ticket W = mset_set {serving_guest_ticket e + 1 ..< next_guest_ticket e})"

lemma execution_ticket:
  assumes "execution_inv e W" "w \<in># W"
  shows "serving_guest_ticket e \<le> guest_ticket w" "guest_ticket w < next_guest_ticket e"
    "locked_threads e \<noteq> {} \<Longrightarrow> serving_guest_ticket e < guest_ticket w"
proof -
  have w: "guest_ticket w \<in># image_mset guest_ticket W" using assms(2) by simp
  have "guest_ticket w \<in> {(if locked_threads e = {} then serving_guest_ticket e else serving_guest_ticket e + 1) ..<
      next_guest_ticket e}"
    using assms(1) w unfolding execution_inv_def by (elim disjE conjE; simp only: elem_mset_set finite_atLeastLessThan) auto
  then show "serving_guest_ticket e \<le> guest_ticket w" "guest_ticket w < next_guest_ticket e"
    "locked_threads e \<noteq> {} \<Longrightarrow> serving_guest_ticket e < guest_ticket w"
    by (auto split: if_splits)
qed

lemma mset_set_upto:
  "i < j \<Longrightarrow> mset_set {i ..< j} = add_mset i (mset_set {i + 1 ..< j :: nat})"
  "i \<le> j \<Longrightarrow> mset_set {i ..< j + 1} = add_mset j (mset_set {i ..< j :: nat})"
proof -
  assume "i < j"
  then have "{i ..< j} = insert i {i + 1 ..< j}" by auto
  then show "mset_set {i ..< j} = add_mset i (mset_set {i + 1 ..< j})" by simp
next
  assume "i \<le> j"
  then have "{i ..< j + 1} = insert j {i ..< j}" by auto
  then show "mset_set {i ..< j + 1} = add_mset j (mset_set {i ..< j})" by simp
qed

interpretation execution: broadcast_object "execution_served False" execution_call execution_enter
  "\<lambda>w e. (snd (acquire_served False w e), Notify_none)" "\<lambda>_ _. None" execution_inv
proof unfold_locales
  fix e t u :: Execution and W :: "Execution_waiter multiset" and c n v w r
  assume inv: "execution_inv e W"
  obtain thread where c: "c = Release thread" by (cases c)
  show "execution_inv t W" if "execution_call c e = (t, n)"
    using that inv by (auto simp: c release_guest_execution_def execution_inv_def split: if_splits)
  show "execution_served False e v"
    if "execution_call c e = (t, n)" "n \<noteq> Notify_all" "v \<in># W" "execution_served False t v"
    using that by (auto simp: c split: if_splits)
  have next_free: "locked_threads e = {} \<and> serving_guest_ticket e = next_guest_ticket e \<and> W = {#}"
    if "serving_guest_ticket e = next_guest_ticket e"
    using inv that by (auto simp: execution_inv_def)
  show "execution_inv t (add_mset w W)" if e: "execution_enter r e = Some (t, w)" "\<not> execution_served False t w"
  proof -
    have t: "t = e\<lparr>next_guest_ticket := next_guest_ticket e + 1\<rparr>" "guest_ticket w = next_guest_ticket e"
      using e(1) by (auto simp: execution_enter_def acquire_ticket_def split: if_splits)
    then show ?thesis using inv mset_set_upto(2) by (auto simp: execution_inv_def)
  qed
  show "execution_served False e v"
    if "execution_enter r e = Some (t, w)" "\<not> execution_served False t w" "v \<in># W" "execution_served False t v"
    using that by (auto simp: execution_enter_def acquire_ticket_def execution_served_def split: if_splits)
  show "execution_inv t W"
    if "execution_enter r e = Some (u, w)" "execution_served False u w"
      "(snd (acquire_served False w u), Notify_none) = (t, n)"
  proof -
    have u: "u = e\<lparr>next_guest_ticket := next_guest_ticket e + 1\<rparr>" "guest_ticket w = next_guest_ticket e"
      using that(1) by (auto simp: execution_enter_def acquire_ticket_def split: if_splits)
    then have f: "locked_threads e = {}" "serving_guest_ticket e = next_guest_ticket e" "W = {#}"
      using next_free that(2) by (simp_all add: execution_served_def)
    have "t = u\<lparr>locked_threads := {guest_thread w}\<rparr>" using that(3) f(1) u(1) by (simp add: acquire_served_def)
    then show ?thesis using f u(1) by (simp add: execution_inv_def)
  qed
  show "execution_served False e v"
    if "execution_enter r e = Some (u, w)" "execution_served False u w"
      "(snd (acquire_served False w u), Notify_none) = (t, n)" "n \<noteq> Notify_all" "v \<in># W"
      "execution_served False t v"
    using that by (auto simp: execution_enter_def acquire_ticket_def execution_served_def acquire_served_def
        split: if_splits)
next
  fix e t :: Execution and W :: "Execution_waiter multiset" and n v w
  assume inv: "execution_inv e (add_mset w W)"
  show "execution_inv t W"
    if "execution_served False e w" "(snd (acquire_served False w e), Notify_none) = (t, n)"
  proof -
    have g: "guest_ticket w = serving_guest_ticket e" using that(1) by (simp add: execution_served_def)
    then have l: "locked_threads e = {}" using execution_ticket(3) [OF inv, of w] by auto
    then have s: "serving_guest_ticket e < next_guest_ticket e"
      "add_mset (serving_guest_ticket e) (image_mset guest_ticket W) =
        mset_set {serving_guest_ticket e ..< next_guest_ticket e}"
      using inv g execution_ticket(2) [OF inv, of w] by (auto simp: execution_inv_def)
    then have "image_mset guest_ticket W = mset_set {serving_guest_ticket e + 1 ..< next_guest_ticket e}"
      by (simp add: mset_set_upto(1))
    then show ?thesis using that(2) s(1) l by (auto simp: acquire_served_def execution_inv_def)
  qed
  show "execution_served False e v"
    if "execution_served False e w" "(snd (acquire_served False w e), Notify_none) = (t, n)"
      "n \<noteq> Notify_all" "v \<in># W" "execution_served False t v"
    using that by (auto simp: acquire_served_def execution_served_def)
qed simp_all

abbreviation execution_step where
  "execution_step \<equiv> wait_step (execution_served False) execution_call execution_enter
     (\<lambda>w e. (snd (acquire_served False w e), Notify_none)) (\<lambda>_ _. None)"

text \<open>
  C17. Guest code runs one thread at a time. In every reachable state at most one thread holds the
  execution lock; while one does, no waiting thread can go on; the threads waiting hold
  distinct tickets and only the lowest can be served; and when nobody holds the lock but
  somebody waits, the thread with the lowest ticket is awake and can go on, so the lock is
  never lost.
\<close>

theorem guest_execution_exclusive:
  assumes "execution_step\<^sup>*\<^sup>* (initial_execution, [], []) (e, S, A)"
  shows "(\<forall>a \<in> locked_threads e. \<forall>b \<in> locked_threads e. a = b) \<and>
    (locked_threads e \<noteq> {} \<longrightarrow> (\<forall>w \<in> set (S @ A). \<not> execution_served False e w)) \<and>
    distinct (map guest_ticket (S @ A)) \<and>
    (\<forall>w \<in> set (S @ A). execution_served False e w \<longrightarrow> (\<forall>v \<in> set (S @ A). guest_ticket w \<le> guest_ticket v)) \<and>
    (locked_threads e = {} \<and> S @ A \<noteq> [] \<longrightarrow> (\<exists>w \<in> set A. execution_served False e w))"
proof -
  have i0: "execution_inv initial_execution {#}" by (simp add: execution_inv_def initial_execution_def)
  note inv = execution.no_lost_wakeup(2) [OF assms i0]
  have all: "set (S @ A) = set_mset (mset S + mset A)" by simp
  have "mset (map guest_ticket (S @ A)) = image_mset guest_ticket (mset S + mset A)" by simp
  also obtain i j where "\<dots> = mset [i ..< j]"
    using inv unfolding execution_inv_def mset_upt by blast
  finally have d: "distinct (map guest_ticket (S @ A))"
    by (metis distinct_upt mset_eq_imp_distinct_iff)
  have served: "\<exists>w \<in> set A. execution_served False e w" if "locked_threads e = {}" "S @ A \<noteq> []"
  proof -
    have "image_mset guest_ticket (mset S + mset A) = mset_set {serving_guest_ticket e ..< next_guest_ticket e}"
      using inv that(1) by (auto simp: execution_inv_def)
    moreover have "serving_guest_ticket e < next_guest_ticket e"
      using execution_ticket(1,2) [OF inv] that(2) all by (metis last_in_set le_less_trans)
    ultimately have "serving_guest_ticket e \<in># image_mset guest_ticket (mset S + mset A)" by simp
    then obtain w where "w \<in># mset S + mset A" and g: "guest_ticket w = serving_guest_ticket e" by (metis in_image_mset imageE)
    then have w: "w \<in> set S \<or> w \<in> set A" by simp
    then have "execution_served False e w" using g by (simp add: execution_served_def)
    then show ?thesis using execution.no_lost_wakeup(1) [OF assms i0] w by blast
  qed
  have one: "\<forall>a \<in> locked_threads e. \<forall>b \<in> locked_threads e. a = b"
    using inv by (auto simp: execution_inv_def)
  have low: "serving_guest_ticket e \<le> guest_ticket w" "locked_threads e \<noteq> {} \<Longrightarrow> serving_guest_ticket e < guest_ticket w"
    if "w \<in> set (S @ A)" for w
    using that execution_ticket [OF inv, of w] by simp_all
  show ?thesis
  proof (intro conjI ballI impI)
    show "distinct (map guest_ticket (S @ A))" by (rule d)
    show "locked_threads e \<noteq> {} \<Longrightarrow> w \<in> set (S @ A) \<Longrightarrow> \<not> execution_served False e w" for w
      using low(2) [of w] by (simp add: execution_served_def)
    show "execution_served False e w \<Longrightarrow> v \<in> set (S @ A) \<Longrightarrow> guest_ticket w \<le> guest_ticket v" for w v
      using low(1) [of v] by (simp add: execution_served_def)
  qed (use one served in blast)+
qed

text \<open>Thread 1 runs, thread 2 waits, thread 1 blocks in a call and gives the lock up.\<close>

lemma guest_execution_exclusive_witness:
  "\<exists>e w. locked_threads e = {} \<and>
     execution_step\<^sup>*\<^sup>* (initial_execution, [], []) (e, [], [w]) \<and> execution_served False e w"
proof -
  let ?e = "\<lambda>i j t. \<lparr>next_guest_ticket = i, serving_guest_ticket = j, locked_threads = t\<rparr> :: Execution"
  let ?w = "\<lparr>guest_thread = 2, guest_ticket = 1\<rparr> :: Execution_waiter"
  have a: "execution_step (initial_execution, [], []) (?e 1 0 {1}, [], [])"
    by (rule wait_step.enter [where r = 1 and n = Notify_none])
      (simp add: execution_enter_def acquire_ticket_def initial_execution_def execution_served_def acquire_served_def)+
  have b: "execution_step (?e 1 0 {1}, [], []) (?e 2 0 {1}, [?w], [])"
    by (rule wait_step.sleep [where r = 2])
      (simp_all add: execution_enter_def acquire_ticket_def execution_served_def)
  have c: "execution_step (?e 2 0 {1}, [?w], []) (?e 2 1 {}, [], [?w])"
    by (rule wait_step.call [where c = "Release 1" and n = Notify_all])
      (simp_all add: release_guest_execution_def)
  have r: "execution_step\<^sup>*\<^sup>* (initial_execution, [], []) (?e 2 1 {}, [], [?w])"
    by (rule converse_rtranclp_into_rtranclp, rule a, rule converse_rtranclp_into_rtranclp, rule b,
        rule r_into_rtranclp, rule c)
  have "locked_threads (?e 2 1 {}) = {} \<and> [] @ [?w] \<noteq> [] \<longrightarrow> (\<exists>w \<in> set [?w]. execution_served False (?e 2 1 {}) w)"
    by (rule guest_execution_exclusive [OF r, THEN conjunct2, THEN conjunct2, THEN conjunct2, THEN conjunct2])
  then have "execution_served False (?e 2 1 {}) ?w" by simp
  then show ?thesis using r by (intro exI [of _ "?e 2 1 {}"] exI [of _ ?w]) simp
qed

end
