(* ===== verification/Code_Map.thy ===== *)
theory Code_Map
  imports Prelude
begin

text \<open>
  The code map of \<open>src/elf.hpp\<close>, its reader in \<open>src/elf/code_map.cpp\<close> and its lookups in
  \<open>src/elf/image.cpp\<close>. The map lists the functions, blocks and register values an analysis
  found, and the address ranges that hold data and must not be translated.

  \<open>std::sort\<close> leaves the order of equal keys open. It matters for symbols of one address
  only, where \<open>sort_key\<close> keeps the order of the file; no lemma depends on that.
\<close>

section \<open>Data\<close>

record AddressRange =
  range_begin :: u32
  range_end :: u32

record FunctionSymbol =
  symbol_address :: u32
  symbol_name :: string

record FunctionRange =
  function_begin :: u32
  function_end :: u32
  function_name :: string

record RegisterMetadata =
  metadata_address :: u32
  metadata_value :: u32

record CodeMap =
  map_version :: u32
  map_entry :: u32
  function_starts :: "u32 list"
  function_ranges :: "FunctionRange list"
  function_symbols :: "FunctionSymbol list"
  block_entries :: "u32 list"
  gp_values :: "RegisterMetadata list"
  t9_values :: "RegisterMetadata list"
  overlay_starts :: "u32 list"
  excluded_ranges :: "AddressRange list"

definition empty_code_map :: CodeMap where
  "empty_code_map = \<lparr>map_version = 1, map_entry = 0, function_starts = [], function_ranges = [],
     function_symbols = [], block_entries = [], gp_values = [], t9_values = [],
     overlay_starts = [], excluded_ranges = []\<rparr>"

section \<open>Tokens and numbers\<close>

definition is_blank :: "char \<Rightarrow> bool" where
  "is_blank c \<longleftrightarrow> c = CHR '' '' \<or> c = CHR 0x09 \<or> c = CHR 0x0D \<or> c = CHR 0x0A"

definition next_token :: "string \<Rightarrow> string \<times> string" where
  "next_token rest =
     (let rest = dropWhile is_blank rest
      in (takeWhile (\<lambda>c. \<not> is_blank c) rest, dropWhile (\<lambda>c. \<not> is_blank c) rest))"

definition digit_value :: "char \<Rightarrow> nat option" where
  "digit_value c =
     (let n = of_char c :: nat in
      if 48 \<le> n \<and> n \<le> 57 then Some (n - 48)
      else if 97 \<le> n \<and> n \<le> 102 then Some (n - 87)
      else if 65 \<le> n \<and> n \<le> 70 then Some (n - 55)
      else None)"

definition is_digit :: "nat \<Rightarrow> char \<Rightarrow> bool" where
  "is_digit base c = (case digit_value c of None \<Rightarrow> False | Some d \<Rightarrow> d < base)"

text \<open>
  \<open>std::from_chars\<close> reads the longest prefix of digits; it fails when there is none or when
  the value does not fit.
\<close>

definition from_chars :: "nat \<Rightarrow> string \<Rightarrow> u32 option \<times> string" where
  "from_chars base s =
     (let digits = takeWhile (is_digit base) s; rest = dropWhile (is_digit base) s;
          n = fold (\<lambda>c n. n * base + the (digit_value c)) digits 0
      in if digits = [] then (None, s)
         else if 2 ^ 32 \<le> n then (None, rest)
         else (Some (of_nat n), rest))"

definition parse_u32 :: "string \<Rightarrow> u32 option" where
  "parse_u32 v =
     (if v = [] then None
      else let prefixed = (2 \<le> length v \<and> v ! 0 = CHR ''0'' \<and> (v ! 1 = CHR ''x'' \<or> v ! 1 = CHR ''X''));
               digits = (if prefixed then drop 2 v else v)
        in if prefixed \<and> digits = [] then None
           else case from_chars (if prefixed then 16 else 10) digits of
             (Some n, []) \<Rightarrow> Some n
           | _ \<Rightarrow> None)"

section \<open>One line\<close>

definition parse_address :: "string \<Rightarrow> u32 result" where
  "parse_address v = (case parse_u32 v of
     None \<Rightarrow> Inl ''invalid address in code map line'' | Some a \<Rightarrow> Inr a)"

definition invalid_line :: "'a result" where
  "invalid_line = Inl ''invalid code map line''"

text \<open>A symbol is added when the line gives a name.\<close>

definition add_symbol :: "u32 \<Rightarrow> string \<Rightarrow> CodeMap \<Rightarrow> CodeMap" where
  "add_symbol a name cm =
     (if name = [] then cm
      else cm\<lparr>function_symbols := function_symbols cm @ [\<lparr>symbol_address = a, symbol_name = name\<rparr>]\<rparr>)"

definition bad_range :: "u32 \<Rightarrow> u32 \<Rightarrow> bool" where
  "bad_range b e \<longleftrightarrow> e \<le> b \<or> b AND 3 \<noteq> 0 \<or> e AND 3 \<noteq> 0"

definition read_function_range :: "string \<Rightarrow> string \<Rightarrow> CodeMap \<Rightarrow> CodeMap result" where
  "read_function_range first view cm =
     (let (second, view) = next_token view in
      if second = [] then invalid_line
      else bind_result (parse_address first) (\<lambda>b. bind_result (parse_address second) (\<lambda>e.
        if bad_range b e then Inl ''invalid function range in code map line''
        else let name = fst (next_token view);
                 cm = cm\<lparr>function_ranges := function_ranges cm @
                       [\<lparr>function_begin = b, function_end = e, function_name = name\<rparr>],
                       function_starts := function_starts cm @ [b]\<rparr>
          in Inr (add_symbol b name cm))))"

definition read_metadata_line :: "bool \<Rightarrow> string \<Rightarrow> string \<Rightarrow> CodeMap \<Rightarrow> CodeMap result" where
  "read_metadata_line gp first view cm =
     (let (second, view) = next_token view in
      if second = [] then invalid_line
      else bind_result (parse_address first) (\<lambda>a. bind_result (parse_address second) (\<lambda>v.
        let r = \<lparr>metadata_address = a, metadata_value = v\<rparr> in
        Inr (if gp then cm\<lparr>gp_values := gp_values cm @ [r]\<rparr>
             else cm\<lparr>t9_values := t9_values cm @ [r]\<rparr>))))"

definition read_excluded :: "string \<Rightarrow> string \<Rightarrow> CodeMap \<Rightarrow> CodeMap result" where
  "read_excluded first view cm =
     (let (second, view) = next_token view in
      if second = [] then invalid_line
      else bind_result (parse_address first) (\<lambda>b. bind_result (parse_address second) (\<lambda>e.
        if bad_range b e then Inl ''invalid excluded range in code map line''
        else Inr (cm\<lparr>excluded_ranges := excluded_ranges cm @ [\<lparr>range_begin = b, range_end = e\<rparr>]\<rparr>))))"

definition read_line :: "CodeMap \<Rightarrow> string \<Rightarrow> CodeMap result" where
  "read_line cm line =
     (let view = dropWhile is_blank line in
      if view = [] \<or> hd view = CHR ''#'' then Inr cm
      else let (kind, view) = next_token view; (first, view) = next_token view in
        if first = [] then invalid_line
        else if kind = ''entry'' then bind_result (parse_address first) (\<lambda>a. Inr (cm\<lparr>map_entry := a\<rparr>))
        else if kind = ''version'' then
          bind_result (parse_address first) (\<lambda>v.
            if v \<noteq> 1 \<and> v \<noteq> 2 then Inl ''unsupported code map version in line''
            else Inr (cm\<lparr>map_version := v\<rparr>))
        else if kind = ''function'' then
          bind_result (parse_address first) (\<lambda>a.
            Inr (add_symbol a (fst (next_token view)) (cm\<lparr>function_starts := function_starts cm @ [a]\<rparr>)))
        else if kind = ''function_range'' then read_function_range first view cm
        else if kind = ''block'' then
          bind_result (parse_address first) (\<lambda>a. Inr (cm\<lparr>block_entries := block_entries cm @ [a]\<rparr>))
        else if kind = ''gp'' \<or> kind = ''t9'' then read_metadata_line (kind = ''gp'') first view cm
        else if kind = ''overlay'' then
          bind_result (parse_address first) (\<lambda>a. Inr (cm\<lparr>overlay_starts := overlay_starts cm @ [a]\<rparr>))
        else if kind = ''exclude'' then read_excluded first view cm
        else invalid_line)"

text \<open>\<open>std::getline\<close>: a line ends at a line feed or, unless it is empty, at the end of the file.\<close>

fun split_lines :: "string \<Rightarrow> string \<Rightarrow> string list" where
  "split_lines line [] = (if line = [] then [] else [line])"
| "split_lines line (c # cs) = (if c = CHR 0x0A then line # split_lines [] cs else split_lines (line @ [c]) cs)"

fun read_lines :: "CodeMap \<Rightarrow> string list \<Rightarrow> CodeMap result" where
  "read_lines cm [] = Inr cm"
| "read_lines cm (l # ls) = bind_result (read_line cm l) (\<lambda>cm. read_lines cm ls)"

section \<open>The end of the reader\<close>

definition sort_unique :: "u32 list \<Rightarrow> u32 list" where
  "sort_unique xs = remdups_adj (sort xs)"

fun ranges_overlap :: "FunctionRange list \<Rightarrow> bool" where
  "ranges_overlap (r # s # rs) = (function_begin s < function_end r \<or> ranges_overlap (s # rs))"
| "ranges_overlap _ = False"

definition merge_range :: "AddressRange list \<Rightarrow> AddressRange \<Rightarrow> AddressRange list" where
  "merge_range merged r =
     (if merged \<noteq> [] \<and> range_begin r \<le> range_end (last merged)
      then butlast merged @ [(last merged)\<lparr>range_end := max (range_end (last merged)) (range_end r)\<rparr>]
      else merged @ [r])"

definition finish_code_map :: "CodeMap \<Rightarrow> CodeMap result" where
  "finish_code_map cm =
     (let ranges = sort_key function_begin (function_ranges cm) in
      if ranges_overlap ranges then Inl ''overlapping function ranges in code map''
      else Inr (cm\<lparr>function_starts := sort_unique (function_starts cm), function_ranges := ranges,
             block_entries := sort_unique (block_entries cm), overlay_starts := sort_unique (overlay_starts cm),
             function_symbols := sort_key symbol_address (function_symbols cm),
             excluded_ranges := foldl merge_range [] (sort_key range_begin (excluded_ranges cm))\<rparr>))"

definition load_code_map :: "string option \<Rightarrow> CodeMap result" where
  "load_code_map file = (case file of
     None \<Rightarrow> Inl ''cannot open code map''
   | Some text \<Rightarrow> bind_result (read_lines empty_code_map (split_lines [] text)) finish_code_map)"

section \<open>Lookups\<close>

text \<open>
  \<open>std::upper_bound\<close> and \<open>std::lower_bound\<close> on a range sorted by a key: the number of
  elements before the first one past the value.
\<close>

definition upper_bound :: "('a \<Rightarrow> u32) \<Rightarrow> 'a list \<Rightarrow> u32 \<Rightarrow> nat" where
  "upper_bound key xs a = length (takeWhile (\<lambda>x. key x \<le> a) xs)"

definition lower_bound :: "('a \<Rightarrow> u32) \<Rightarrow> 'a list \<Rightarrow> u32 \<Rightarrow> nat" where
  "lower_bound key xs a = length (takeWhile (\<lambda>x. key x < a) xs)"

definition contains_address :: "CodeMap \<Rightarrow> u32 \<Rightarrow> bool" where
  "contains_address cm a =
     (let after = upper_bound range_begin (excluded_ranges cm) a in
      if after = 0 then True
      else let candidate = excluded_ranges cm ! (after - 1)
        in a < range_begin candidate \<or> range_end candidate \<le> a)"

definition symbol_at :: "CodeMap \<Rightarrow> u32 \<Rightarrow> string option" where
  "symbol_at cm a =
     (let found = lower_bound symbol_address (function_symbols cm) a in
      if found \<noteq> length (function_symbols cm) \<and> symbol_address (function_symbols cm ! found) = a
      then Some (symbol_name (function_symbols cm ! found)) else None)"

definition function_containing :: "CodeMap \<Rightarrow> u32 \<Rightarrow> FunctionRange option" where
  "function_containing cm a =
     (let after = upper_bound function_begin (function_ranges cm) a in
      if after = 0 then None
      else let candidate = function_ranges cm ! (after - 1)
        in if a < function_end candidate then Some candidate else None)"

section \<open>Searching sorted ranges\<close>

lemma upper_bound_split:
  fixes xs :: "'a list" and lo :: "'a \<Rightarrow> u32"
  assumes "sorted_wrt (\<lambda>x y. lo x \<le> lo y) xs"
  shows "i < upper_bound lo xs a \<Longrightarrow> lo (xs ! i) \<le> a"
    "upper_bound lo xs a \<le> i \<Longrightarrow> i < length xs \<Longrightarrow> a < lo (xs ! i)"
    "upper_bound lo xs a \<le> length xs"
proof -
  let ?k = "upper_bound lo xs a"
  show "i < ?k \<Longrightarrow> lo (xs ! i) \<le> a"
    using nth_mem [of i "takeWhile (\<lambda>x. lo x \<le> a) xs"] set_takeWhileD [of "xs ! i" "\<lambda>x. lo x \<le> a" xs]
    by (simp add: upper_bound_def takeWhile_nth)
  show "?k \<le> length xs" by (simp add: upper_bound_def length_takeWhile_le)
  show "a < lo (xs ! i)" if "?k \<le> i" "i < length xs"
  proof -
    have "?k < length xs" using that by simp
    then have k: "\<not> lo (xs ! ?k) \<le> a" unfolding upper_bound_def by (rule nth_length_takeWhile)
    show ?thesis
    proof (cases "i = ?k")
      case False
      then have "lo (xs ! ?k) \<le> lo (xs ! i)" using sorted_wrt_nth_less [OF assms, of ?k i] that by simp
      then show ?thesis using k by simp
    qed (use k in simp)
  qed
qed

text \<open>The candidate before the bound is the only range that can hold the address.\<close>

lemma range_lookup:
  fixes xs :: "'a list" and lo hi :: "'a \<Rightarrow> u32" and a :: u32
  assumes "sorted_wrt (\<lambda>x y. hi x \<le> lo y) xs" "\<forall>x\<in>set xs. lo x < hi x"
  defines "k \<equiv> upper_bound lo xs a"
  shows "(\<exists>x\<in>set xs. lo x \<le> a \<and> a < hi x) \<longleftrightarrow> k \<noteq> 0 \<and> a < hi (xs ! (k - 1))"
    "x \<in> set xs \<Longrightarrow> lo x \<le> a \<Longrightarrow> a < hi x \<Longrightarrow> x = xs ! (k - 1)"
    "k \<noteq> 0 \<Longrightarrow> xs ! (k - 1) \<in> set xs \<and> lo (xs ! (k - 1)) \<le> a"
proof -
  have "sorted_wrt (\<lambda>x y. lo x \<le> lo y) xs"
    using assms(1,2) by (auto simp: sorted_wrt_iff_nth_less) (meson dual_order.trans less_imp_le nth_mem order.strict_trans)
  note split = upper_bound_split [OF this, where a = a, folded k_def]
  show last: "k \<noteq> 0 \<Longrightarrow> xs ! (k - 1) \<in> set xs \<and> lo (xs ! (k - 1)) \<le> a"
    using split(1) [of "k - 1"] split(3) by (auto intro!: nth_mem)
  have only: "i = k - 1 \<and> k \<noteq> 0" if "i < length xs" "lo (xs ! i) \<le> a" "a < hi (xs ! i)" for i
  proof -
    have "i < k" using split(2) [of i] that by (metis not_le)
    moreover have "\<not> i < k - 1"
    proof
      assume "i < k - 1"
      then have "hi (xs ! i) \<le> lo (xs ! (k - 1))"
        using sorted_wrt_nth_less [OF assms(1), of i "k - 1"] split(3) by simp
      then show False using last \<open>i < k\<close> that(3) by auto
    qed
    ultimately show ?thesis by simp
  qed
  show "x \<in> set xs \<Longrightarrow> lo x \<le> a \<Longrightarrow> a < hi x \<Longrightarrow> x = xs ! (k - 1)"
    using only by (auto simp: in_set_conv_nth)
  show "(\<exists>x\<in>set xs. lo x \<le> a \<and> a < hi x) \<longleftrightarrow> k \<noteq> 0 \<and> a < hi (xs ! (k - 1))"
  proof
    assume "\<exists>x\<in>set xs. lo x \<le> a \<and> a < hi x"
    then obtain i where i: "i < length xs" "lo (xs ! i) \<le> a" "a < hi (xs ! i)" by (metis in_set_conv_nth)
    show "k \<noteq> 0 \<and> a < hi (xs ! (k - 1))" using only [OF i] i(3) by simp
  next
    assume "k \<noteq> 0 \<and> a < hi (xs ! (k - 1))"
    then show "\<exists>x\<in>set xs. lo x \<le> a \<and> a < hi x" using last by blast
  qed
qed

section \<open>Merging the excluded ranges\<close>

definition covered :: "AddressRange list \<Rightarrow> u32 \<Rightarrow> bool" where
  "covered rs a \<longleftrightarrow> (\<exists>r\<in>set rs. range_begin r \<le> a \<and> a < range_end r)"

definition apart :: "AddressRange list \<Rightarrow> bool" where
  "apart rs \<longleftrightarrow> sorted_wrt (\<lambda>x y. range_end x < range_begin y) rs \<and> (\<forall>r\<in>set rs. range_begin r < range_end r)"

lemma covered_simps [simp]:
  "covered [] a = False" "covered (r # rs) a \<longleftrightarrow> (range_begin r \<le> a \<and> a < range_end r) \<or> covered rs a"
  "covered (rs @ ss) a \<longleftrightarrow> covered rs a \<or> covered ss a"
  by (auto simp: covered_def)

lemma joined_intervals:
  fixes b r :: "'a :: linorder"
  assumes "b \<le> r" "r \<le> b'"
  shows "(b \<le> a \<and> a < max b' r') \<longleftrightarrow> (b \<le> a \<and> a < b') \<or> (r \<le> a \<and> a < r')"
proof (cases "a < b'")
  case True
  then show ?thesis using order_trans [OF assms(1)] by (auto simp: less_max_iff_disj)
next
  case False
  then have "r \<le> a" "b \<le> a" using assms by simp_all
  then show ?thesis using False by (simp add: less_max_iff_disj)
qed

lemma merge_range_step:
  assumes "apart ms" "range_begin r < range_end r" "ms = [] \<or> range_begin (last ms) \<le> range_begin r"
  shows "apart (merge_range ms r) \<and> merge_range ms r \<noteq> [] \<and> range_begin (last (merge_range ms r)) \<le> range_begin r \<and>
    (\<forall>a. covered (merge_range ms r) a \<longleftrightarrow> covered ms a \<or> (range_begin r \<le> a \<and> a < range_end r))"
proof (cases "ms \<noteq> [] \<and> range_begin r \<le> range_end (last ms)")
  case True
  then obtain bs b where ms: "ms = bs @ [b]" by (metis rev_exhaust)
  have b: "range_begin b \<le> range_begin r" "range_begin r \<le> range_end b" using True assms(3) ms by auto
  have m: "merge_range ms r = bs @ [b\<lparr>range_end := max (range_end b) (range_end r)\<rparr>]"
    using True by (simp add: merge_range_def ms)
  have c: "covered (merge_range ms r) a \<longleftrightarrow> covered ms a \<or> (range_begin r \<le> a \<and> a < range_end r)" for a
    using joined_intervals [OF b, of a "range_end r"] unfolding m by (simp add: ms)
  have "sorted_wrt (\<lambda>x y. range_end x < range_begin y) bs" "\<forall>x\<in>set bs. range_end x < range_begin b"
    "\<forall>x\<in>set bs. range_begin x < range_end x" "range_begin b < range_end b"
    using assms(1) by (simp_all add: ms apart_def sorted_wrt_append)
  then have "apart (merge_range ms r)" by (simp add: m apart_def sorted_wrt_append less_max_iff_disj)
  then show ?thesis using b(1) c by (simp add: m)
next
  case False
  then have m: "merge_range ms r = ms @ [r]" by (auto simp: merge_range_def)
  have "range_end x < range_begin r" if x: "x \<in> set ms" for x
  proof -
    obtain bs b where ms: "ms = bs @ [b]" using x by (cases ms rule: rev_cases) auto
    have "range_end b < range_begin r" using False ms by auto
    moreover have "x = b \<or> range_end x < range_begin b" "range_begin b < range_end b"
      using assms(1) x by (auto simp: ms apart_def sorted_wrt_append)
    ultimately show ?thesis by auto
  qed
  then have "apart (merge_range ms r)" using assms(1,2) by (simp add: m apart_def sorted_wrt_append)
  then show ?thesis by (simp add: m)
qed

lemma merge_ranges:
  assumes "sorted_wrt (\<lambda>x y. range_begin x \<le> range_begin y) rs" "\<forall>r\<in>set rs. range_begin r < range_end r"
    "apart ms" "\<forall>r\<in>set rs. ms = [] \<or> range_begin (last ms) \<le> range_begin r"
  shows "apart (foldl merge_range ms rs) \<and> (\<forall>a. covered (foldl merge_range ms rs) a \<longleftrightarrow> covered ms a \<or> covered rs a)"
  using assms
proof (induction rs arbitrary: ms)
  case (Cons r rs)
  have s: "apart (merge_range ms r)" "range_begin (last (merge_range ms r)) \<le> range_begin r"
    "\<And>a. covered (merge_range ms r) a \<longleftrightarrow> covered ms a \<or> (range_begin r \<le> a \<and> a < range_end r)"
    using merge_range_step [of ms r] Cons.prems by auto
  have "\<forall>x\<in>set rs. merge_range ms r = [] \<or> range_begin (last (merge_range ms r)) \<le> range_begin x"
    using s(2) Cons.prems(1) by (auto intro: order_trans)
  then have "apart (foldl merge_range (merge_range ms r) rs) \<and>
      (\<forall>a. covered (foldl merge_range (merge_range ms r) rs) a \<longleftrightarrow> covered (merge_range ms r) a \<or> covered rs a)"
    using Cons.prems s(1) by (intro Cons.IH) auto
  then show ?case using s(3) by auto
qed simp

section \<open>What a loaded map is\<close>

text \<open>Every range a line adds is checked.\<close>

definition ranges_ok :: "CodeMap \<Rightarrow> bool" where
  "ranges_ok cm \<longleftrightarrow> (\<forall>r\<in>set (function_ranges cm). \<not> bad_range (function_begin r) (function_end r) \<and>
       function_begin r \<in> set (function_starts cm)) \<and>
     (\<forall>r\<in>set (excluded_ranges cm). \<not> bad_range (range_begin r) (range_end r)) \<and>
     map_version cm \<in> {1, 2}"

lemma ranges_ok_add_symbol [simp]: "ranges_ok (add_symbol a n cm) \<longleftrightarrow> ranges_ok cm"
  by (simp add: ranges_ok_def add_symbol_def)

lemma ranges_ok_updates [simp]:
  "ranges_ok (cm\<lparr>map_entry := a\<rparr>) \<longleftrightarrow> ranges_ok cm" "ranges_ok (cm\<lparr>block_entries := as\<rparr>) \<longleftrightarrow> ranges_ok cm"
  "ranges_ok (cm\<lparr>gp_values := rs\<rparr>) \<longleftrightarrow> ranges_ok cm" "ranges_ok (cm\<lparr>t9_values := rs\<rparr>) \<longleftrightarrow> ranges_ok cm"
  "ranges_ok (cm\<lparr>overlay_starts := as\<rparr>) \<longleftrightarrow> ranges_ok cm"
  "v \<in> {1, 2} \<Longrightarrow> ranges_ok cm \<Longrightarrow> ranges_ok (cm\<lparr>map_version := v\<rparr>)"
  "ranges_ok cm \<Longrightarrow> ranges_ok (cm\<lparr>function_starts := function_starts cm @ as\<rparr>)"
  by (auto simp: ranges_ok_def)

lemma range_lines_ok:
  "read_function_range f v cm = Inr cm' \<Longrightarrow> ranges_ok cm \<Longrightarrow> ranges_ok cm'"
  "read_metadata_line gp f v cm = Inr cm' \<Longrightarrow> ranges_ok cm \<Longrightarrow> ranges_ok cm'"
  "read_excluded f v cm = Inr cm' \<Longrightarrow> ranges_ok cm \<Longrightarrow> ranges_ok cm'"
proof -
  show "ranges_ok cm'" if r: "read_function_range f v cm = Inr cm'" and ok: "ranges_ok cm"
  proof -
    obtain b e name where "\<not> bad_range b e" and c: "cm' = add_symbol b name (cm\<lparr>function_ranges := function_ranges cm @
        [\<lparr>function_begin = b, function_end = e, function_name = name\<rparr>], function_starts := function_starts cm @ [b]\<rparr>)"
      using r by (auto simp: read_function_range_def Let_def case_prod_unfold bind_result_Inr invalid_line_def split: if_splits)
    then show ?thesis using ok unfolding c ranges_ok_add_symbol by (auto simp: ranges_ok_def)
  qed
  show "read_metadata_line gp f v cm = Inr cm' \<Longrightarrow> ranges_ok cm \<Longrightarrow> ranges_ok cm'"
    by (auto simp: read_metadata_line_def Let_def case_prod_unfold bind_result_Inr invalid_line_def split: if_splits)
  show "ranges_ok cm'" if r: "read_excluded f v cm = Inr cm'" and ok: "ranges_ok cm"
  proof -
    obtain b e where "\<not> bad_range b e" and c: "cm' = cm\<lparr>excluded_ranges := excluded_ranges cm @ [\<lparr>range_begin = b, range_end = e\<rparr>]\<rparr>"
      using r by (auto simp: read_excluded_def Let_def case_prod_unfold bind_result_Inr invalid_line_def split: if_splits)
    then show ?thesis using ok unfolding c by (auto simp: ranges_ok_def)
  qed
qed

lemma read_line_ok:
  assumes "read_line cm l = Inr cm'" "ranges_ok cm"
  shows "ranges_ok cm'"
  using assms range_lines_ok
  by (auto simp: read_line_def Let_def case_prod_unfold bind_result_Inr invalid_line_def split: if_splits)

lemma read_lines_ok: "read_lines cm ls = Inr cm' \<Longrightarrow> ranges_ok cm \<Longrightarrow> ranges_ok cm'"
  by (induction cm ls rule: read_lines.induct) (auto simp: bind_result_Inr intro: read_line_ok)

text \<open>
  A loaded map is well formed: the lists of addresses are strictly ascending, function ranges
  are aligned, disjoint and ascending and start at known functions, excluded ranges are
  disjoint and ascending with gaps between them.
\<close>

definition wf_code_map :: "CodeMap \<Rightarrow> bool" where
  "wf_code_map cm \<longleftrightarrow> sorted_wrt (<) (function_starts cm) \<and> sorted_wrt (<) (block_entries cm) \<and>
     sorted_wrt (<) (overlay_starts cm) \<and> sorted (map symbol_address (function_symbols cm)) \<and>
     sorted_wrt (\<lambda>r s. function_end r \<le> function_begin s) (function_ranges cm) \<and>
     (\<forall>r\<in>set (function_ranges cm). \<not> bad_range (function_begin r) (function_end r) \<and>
        function_begin r \<in> set (function_starts cm)) \<and>
     apart (excluded_ranges cm) \<and> map_version cm \<in> {1, 2}"

lemma set_sort_unique [simp]: "set (sort_unique xs) = set xs"
  by (simp add: sort_unique_def)

lemma sorted_remdups_adj_strict: "sorted xs \<Longrightarrow> sorted_wrt (<) (remdups_adj (xs :: u32 list))"
  by (induction xs rule: remdups_adj.induct) (auto simp: less_le)

lemma sort_unique_sorted: "sorted_wrt (<) (sort_unique xs)"
  unfolding sort_unique_def by (rule sorted_remdups_adj_strict) simp

lemma no_overlap_sorted:
  assumes "\<not> ranges_overlap rs" "\<forall>r\<in>set rs. function_begin r < function_end r"
  shows "sorted_wrt (\<lambda>r s. function_end r \<le> function_begin s) rs"
  using assms
proof (induction rs rule: ranges_overlap.induct)
  case (1 r s rs)
  then have IH: "sorted_wrt (\<lambda>r s. function_end r \<le> function_begin s) (s # rs)" "function_end r \<le> function_begin s"
    "function_begin s < function_end s" by auto
  have "function_end r \<le> function_begin x" if "x \<in> set rs" for x
  proof -
    have "function_end s \<le> function_begin x" using IH(1) that by simp
    then show ?thesis using IH(2,3) by order
  qed
  then show ?case using IH(1,2) by simp
qed simp_all

lemma finish_code_map_wf:
  assumes "finish_code_map cm = Inr cm'" "ranges_ok cm"
  shows "wf_code_map cm'" "set (function_ranges cm') = set (function_ranges cm)"
    "set (function_symbols cm') = set (function_symbols cm)"
    "covered (excluded_ranges cm') a \<longleftrightarrow> covered (excluded_ranges cm) a"
proof -
  let ?fs = "sort_key function_begin (function_ranges cm)" and ?es = "sort_key range_begin (excluded_ranges cm)"
  have o: "\<not> ranges_overlap ?fs" and cm': "cm' = cm\<lparr>function_starts := sort_unique (function_starts cm), function_ranges := ?fs,
      block_entries := sort_unique (block_entries cm), overlay_starts := sort_unique (overlay_starts cm),
      function_symbols := sort_key symbol_address (function_symbols cm),
      excluded_ranges := foldl merge_range [] ?es\<rparr>"
    using assms(1) by (auto simp: finish_code_map_def Let_def split: if_splits)
  have f: "sorted_wrt (\<lambda>r s. function_end r \<le> function_begin s) ?fs"
    by (rule no_overlap_sorted [OF o]) (use assms(2) in \<open>auto simp: ranges_ok_def bad_range_def\<close>)
  have "sorted_wrt (\<lambda>x y. range_begin x \<le> range_begin y) ?es"
    using sorted_sort_key [of range_begin "excluded_ranges cm"] by (simp add: sorted_wrt_map)
  then have e: "apart (foldl merge_range [] ?es) \<and>
      (\<forall>a. covered (foldl merge_range [] ?es) a \<longleftrightarrow> covered [] a \<or> covered ?es a)"
    by (rule merge_ranges) (use assms(2) in \<open>auto simp: ranges_ok_def bad_range_def apart_def\<close>)
  show "wf_code_map cm'"
    using f e sort_unique_sorted assms(2) unfolding cm' wf_code_map_def ranges_ok_def by simp
  show "set (function_ranges cm') = set (function_ranges cm)" "set (function_symbols cm') = set (function_symbols cm)"
    unfolding cm' by simp_all
  have "covered ?es a \<longleftrightarrow> covered (excluded_ranges cm) a" by (simp add: covered_def)
  then show "covered (excluded_ranges cm') a \<longleftrightarrow> covered (excluded_ranges cm) a" using e by (simp add: cm')
qed

lemma loaded_map:
  assumes "read_lines empty_code_map (split_lines [] content) = Inr raw" "load_code_map (Some content) = Inr cm"
  shows "finish_code_map raw = Inr cm" "ranges_ok raw"
proof -
  show "finish_code_map raw = Inr cm" using assms by (simp add: load_code_map_def)
  show "ranges_ok raw" by (rule read_lines_ok [OF assms(1)]) (simp add: ranges_ok_def empty_code_map_def)
qed

lemma symbol_at_sound:
  assumes "sorted (map symbol_address (function_symbols cm))"
  shows "case symbol_at cm a of None \<Rightarrow> \<forall>s\<in>set (function_symbols cm). symbol_address s \<noteq> a
    | Some n \<Rightarrow> \<lparr>symbol_address = a, symbol_name = n\<rparr> \<in> set (function_symbols cm)"
proof -
  let ?ss = "function_symbols cm" and ?k = "lower_bound symbol_address (function_symbols cm) a"
  have before: "symbol_address (?ss ! i) < a" if "i < ?k" for i
    using nth_mem [of i "takeWhile (\<lambda>x. symbol_address x < a) ?ss"]
      set_takeWhileD [of "?ss ! i" "\<lambda>x. symbol_address x < a" ?ss] that
    by (simp add: lower_bound_def takeWhile_nth)
  have after: "symbol_address (?ss ! ?k) \<le> symbol_address (?ss ! i)" if "?k \<le> i" "i < length ?ss" for i
    using sorted_nth_mono [OF assms, of ?k i] that by simp
  have no: "\<forall>s\<in>set ?ss. symbol_address s \<noteq> a" if "?k = length ?ss \<or> a < symbol_address (?ss ! ?k)"
  proof
    fix s assume "s \<in> set ?ss"
    then obtain i where i: "i < length ?ss" "s = ?ss ! i" by (metis in_set_conv_nth)
    then show "symbol_address s \<noteq> a" using before [of i] after [of i] that by (cases "i < ?k") auto
  qed
  show ?thesis
  proof (cases "?k = length ?ss")
    case True
    then show ?thesis using no by (simp add: symbol_at_def Let_def)
  next
    case False
    then have k: "?k < length ?ss" using length_takeWhile_le [of "\<lambda>x. symbol_address x < a" ?ss] by (simp add: lower_bound_def)
    then have "\<not> symbol_address (?ss ! ?k) < a" unfolding lower_bound_def by (rule nth_length_takeWhile)
    then consider "symbol_address (?ss ! ?k) = a" | "a < symbol_address (?ss ! ?k)" by force
    then show ?thesis
    proof cases
      case 1
      then have "symbol_at cm a = Some (symbol_name (?ss ! ?k))" using False by (simp add: symbol_at_def Let_def)
      moreover have "\<lparr>symbol_address = a, symbol_name = symbol_name (?ss ! ?k)\<rparr> = ?ss ! ?k" using 1 by simp
      ultimately show ?thesis using k by (simp del: FunctionSymbol.equality)
    next
      case 2
      then have "symbol_at cm a = None" by (auto simp: symbol_at_def Let_def)
      then show ?thesis using 2 no by simp
    qed
  qed
qed

text \<open>A small file, for the witnesses.\<close>

definition sample_map :: string where
  "sample_map = ''# sample'' @ [CHR 0x0A] @ ''function_range 0x10 0x20 main'' @ [CHR 0x0A] @
     ''exclude 20 28'' @ [CHR 0x0A] @ ''  exclude 16 0x14''"

definition sample_raw :: CodeMap where
  "sample_raw = empty_code_map\<lparr>function_starts := [0x10],
     function_ranges := [\<lparr>function_begin = 0x10, function_end = 0x20, function_name = ''main''\<rparr>],
     function_symbols := [\<lparr>symbol_address = 0x10, symbol_name = ''main''\<rparr>],
     excluded_ranges := [\<lparr>range_begin = 0x14, range_end = 0x1c\<rparr>, \<lparr>range_begin = 0x10, range_end = 0x14\<rparr>]\<rparr>"

definition sample_loaded :: CodeMap where
  "sample_loaded = sample_raw\<lparr>excluded_ranges := [\<lparr>range_begin = 0x10, range_end = 0x1c\<rparr>]\<rparr>"

lemmas read_simps = Let_def read_line_def next_token_def is_blank_def read_excluded_def read_function_range_def
  parse_address_def parse_u32_def from_chars_def is_digit_def digit_value_def bad_range_def add_symbol_def empty_code_map_def

lemma sample_lines: "split_lines [] sample_map =
    [''# sample'', ''function_range 0x10 0x20 main'', ''exclude 20 28'', ''  exclude 16 0x14'']"
  by (simp add: sample_map_def)

lemma sample_read: "read_lines empty_code_map (split_lines [] sample_map) = Inr sample_raw"
  unfolding sample_lines by (simp add: read_simps sample_raw_def)

lemma sample_load: "load_code_map (Some sample_map) = Inr sample_loaded"
  by (simp add: load_code_map_def sample_read finish_code_map_def)
     (simp add: sample_raw_def sample_loaded_def sort_unique_def empty_code_map_def sort_key_def merge_range_def)


text \<open>
  C23. The lookups answer what the lines of the file say: an address is to be translated unless an
  \<open>exclude\<close> line covers it, the function containing an address is the one whose
  \<open>function_range\<close> line covers it, a symbol is one that a line gave to the address.
\<close>

theorem code_map_lookups:
  assumes "read_lines empty_code_map (split_lines [] content) = Inr raw" "load_code_map (Some content) = Inr cm"
  shows "(contains_address cm (a :: u32) \<longleftrightarrow> \<not> covered (excluded_ranges raw) a) \<and>
    (function_containing cm a = Some f \<longleftrightarrow>
      f \<in> set (function_ranges raw) \<and> function_begin f \<le> a \<and> a < function_end f) \<and>
    (case symbol_at cm a of
       None \<Rightarrow> \<forall>s\<in>set (function_symbols raw). symbol_address s \<noteq> a
     | Some n \<Rightarrow> \<lparr>symbol_address = a, symbol_name = n\<rparr> \<in> set (function_symbols raw))"
proof -
  note l = loaded_map [OF assms] and f = finish_code_map_wf [OF loaded_map [OF assms]]
  let ?es = "excluded_ranges cm" and ?fs = "function_ranges cm" and ?ss = "function_symbols cm"
  have e: "sorted_wrt (\<lambda>x y. range_end x \<le> range_begin y) ?es" "\<forall>x\<in>set ?es. range_begin x < range_end x"
    using f(1) by (auto simp: wf_code_map_def apart_def intro: sorted_wrt_mono_rel [rotated])
  have "contains_address cm a \<longleftrightarrow> \<not> covered ?es a"
    using range_lookup(1,3) [OF e, where a = a] by (auto simp: contains_address_def covered_def Let_def not_le)
  moreover have r: "sorted_wrt (\<lambda>x y. function_end x \<le> function_begin y) ?fs" "\<forall>x\<in>set ?fs. function_begin x < function_end x"
    using f(1) by (auto simp: wf_code_map_def bad_range_def)
  have "function_containing cm a = Some g \<longleftrightarrow> g \<in> set ?fs \<and> function_begin g \<le> a \<and> a < function_end g" for g
  proof
    show "g \<in> set ?fs \<and> function_begin g \<le> a \<and> a < function_end g" if "function_containing cm a = Some g"
      using range_lookup(3) [OF r, where a = a] that by (auto simp: function_containing_def Let_def split: if_splits)
    show "function_containing cm a = Some g" if "g \<in> set ?fs \<and> function_begin g \<le> a \<and> a < function_end g"
      using range_lookup(1,2) [OF r, where a = a] that by (auto simp: function_containing_def Let_def)
  qed
  moreover have "case symbol_at cm a of None \<Rightarrow> \<forall>s\<in>set ?ss. symbol_address s \<noteq> a
      | Some n \<Rightarrow> \<lparr>symbol_address = a, symbol_name = n\<rparr> \<in> set ?ss"
    using symbol_at_sound [of cm a] f(1) by (simp add: wf_code_map_def)
  ultimately show ?thesis using f(2-4) by (simp split: option.splits)
qed

lemma code_map_lookups_witness:
  "load_code_map (Some sample_map) = Inr sample_loaded \<and>
   \<not> contains_address sample_loaded 0x18 \<and>
   function_containing sample_loaded 0x1c = Some \<lparr>function_begin = 0x10, function_end = 0x20, function_name = ''main''\<rparr>"
  using code_map_lookups [OF sample_read sample_load, where a = "0x18"]
    code_map_lookups [OF sample_read sample_load, where a = "0x1c" and f = "\<lparr>function_begin = 0x10, function_end = 0x20, function_name = ''main''\<rparr>"]
  by (simp add: sample_load sample_raw_def)


end
