(* ===== verification/Sha256.thy ===== *)
theory Sha256
  imports Prelude
begin

text \<open>
  The hash of \<open>src/hash.cpp\<close>: the class \<open>Sha256\<close> with its block buffer, and the two functions
  that hash a byte sequence and a file. The reference at the end of the theory is the
  definition of FIPS 180-4 on a padded message cut into blocks, with the message schedule as a
  recursive function. \<open>std::rotr\<close> is the rotation of the word library.
\<close>

section \<open>The class\<close>

definition round_constants :: "u32 list" where
  "round_constants =
     [0x428a2f98, 0x71374491, 0xb5c0fbcf, 0xe9b5dba5, 0x3956c25b] @
     [0x59f111f1, 0x923f82a4, 0xab1c5ed5, 0xd807aa98, 0x12835b01] @
     [0x243185be, 0x550c7dc3, 0x72be5d74, 0x80deb1fe, 0x9bdc06a7] @
     [0xc19bf174, 0xe49b69c1, 0xefbe4786, 0x0fc19dc6, 0x240ca1cc] @
     [0x2de92c6f, 0x4a7484aa, 0x5cb0a9dc, 0x76f988da, 0x983e5152] @
     [0xa831c66d, 0xb00327c8, 0xbf597fc7, 0xc6e00bf3, 0xd5a79147] @
     [0x06ca6351, 0x14292967, 0x27b70a85, 0x2e1b2138, 0x4d2c6dfc] @
     [0x53380d13, 0x650a7354, 0x766a0abb, 0x81c2c92e, 0x92722c85] @
     [0xa2bfe8a1, 0xa81a664b, 0xc24b8b70, 0xc76c51a3, 0xd192e819] @
     [0xd6990624, 0xf40e3585, 0x106aa070, 0x19a4c116, 0x1e376c08] @
     [0x2748774c, 0x34b0bcb5, 0x391c0cb3, 0x4ed8aa4a, 0x5b9cca4f] @
     [0x682e6ff3, 0x748f82ee, 0x78a5636f, 0x84c87814, 0x8cc70208] @
     [0x90befffa, 0xa4506ceb, 0xbef9a3f7, 0xc67178f2]"

record Hash_state =
  hash_state :: "u32 list"
  hash_block :: "u8 list"
  block_size :: nat
  total_bytes :: u64

definition initial_hash :: Hash_state where
  "initial_hash = \<lparr>
     hash_state = [0x6a09e667, 0xbb67ae85, 0x3c6ef372, 0xa54ff53a,
                   0x510e527f, 0x9b05688c, 0x1f83d9ab, 0x5be0cd19],
     hash_block = replicate 64 0, block_size = 0, total_bytes = 0\<rparr>"

definition block_word :: "u8 list \<Rightarrow> nat \<Rightarrow> u32" where
  "block_word block index =
     (let offset = index * 4 in
      push_bit 24 (ucast (block ! offset)) OR push_bit 16 (ucast (block ! (offset + 1))) OR
      push_bit 8 (ucast (block ! (offset + 2))) OR ucast (block ! (offset + 3)))"

definition small_sigma0 :: "u32 \<Rightarrow> u32" where
  "small_sigma0 x = word_rotr 7 x XOR word_rotr 18 x XOR drop_bit 3 x"

definition small_sigma1 :: "u32 \<Rightarrow> u32" where
  "small_sigma1 x = word_rotr 17 x XOR word_rotr 19 x XOR drop_bit 10 x"

text \<open>The array \<open>words\<close>: sixteen words of the block, then the loop that extends it.\<close>

definition extend_words :: "nat \<Rightarrow> u32 list \<Rightarrow> u32 list" where
  "extend_words index w =
     w[index := w ! (index - 16) + small_sigma0 (w ! (index - 15)) + w ! (index - 7) + small_sigma1 (w ! (index - 2))]"

definition message_words :: "u8 list \<Rightarrow> u32 list" where
  "message_words block =
     fold extend_words [16..<64]
       (fold (\<lambda>index w. w[index := block_word block index]) [0..<16] (replicate 64 0))"

type_synonym registers = "u32 \<times> u32 \<times> u32 \<times> u32 \<times> u32 \<times> u32 \<times> u32 \<times> u32"

definition round_step :: "u32 list \<Rightarrow> nat \<Rightarrow> registers \<Rightarrow> registers" where
  "round_step w index = (\<lambda>(a, b, c, d, e, f, g, h).
     let sum_one = word_rotr 6 e XOR word_rotr 11 e XOR word_rotr 25 e;
         choice = (e AND f) XOR (NOT e AND g);
         temporary_one = h + sum_one + choice + round_constants ! index + w ! index;
         sum_zero = word_rotr 2 a XOR word_rotr 13 a XOR word_rotr 22 a;
         majority = (a AND b) XOR (a AND c) XOR (b AND c);
         temporary_two = sum_zero + majority
     in (temporary_one + temporary_two, a, b, c, d + temporary_one, e, f, g))"

definition registers_of :: "u32 list \<Rightarrow> registers" where
  "registers_of s = (s ! 0, s ! 1, s ! 2, s ! 3, s ! 4, s ! 5, s ! 6, s ! 7)"

definition add_registers :: "u32 list \<Rightarrow> registers \<Rightarrow> u32 list" where
  "add_registers s = (\<lambda>(a, b, c, d, e, f, g, h).
     [s ! 0 + a, s ! 1 + b, s ! 2 + c, s ! 3 + d, s ! 4 + e, s ! 5 + f, s ! 6 + g, s ! 7 + h])"

definition compress :: "u8 list \<Rightarrow> u32 list \<Rightarrow> u32 list" where
  "compress block s =
     add_registers s (fold (round_step (message_words block)) [0..<64] (registers_of s))"

definition hash_transform :: "Hash_state \<Rightarrow> Hash_state" where
  "hash_transform st = st\<lparr>hash_state := compress (hash_block st) (hash_state st)\<rparr>"

definition push_byte :: "u8 \<Rightarrow> Hash_state \<Rightarrow> Hash_state" where
  "push_byte byte st =
     st\<lparr>hash_block := (hash_block st)[block_size st := byte], block_size := block_size st + 1\<rparr>"

definition update_byte :: "u8 \<Rightarrow> Hash_state \<Rightarrow> Hash_state" where
  "update_byte byte st =
     (let st = push_byte byte st in
      if block_size st = 64 then (hash_transform st)\<lparr>block_size := 0\<rparr> else st)"

definition hash_update :: "u8 list \<Rightarrow> Hash_state \<Rightarrow> Hash_state" where
  "hash_update bytes st =
     fold update_byte bytes (st\<lparr>total_bytes := total_bytes st + of_nat (length bytes)\<rparr>)"

text \<open>\<open>while (block_size_ < limit) block_[block_size_++] = 0;\<close>\<close>

function fill_zeros :: "nat \<Rightarrow> Hash_state \<Rightarrow> Hash_state" where
  "fill_zeros limit st = (if block_size st < limit then fill_zeros limit (push_byte 0 st) else st)"
  by pat_completeness auto
termination
  by (relation "measure (\<lambda>(limit, st). limit - block_size st)") (auto simp: push_byte_def)

declare fill_zeros.simps [simp del]

definition hash_finish :: "Hash_state \<Rightarrow> u8 list" where
  "hash_finish st =
     (let bit_count = total_bytes st * 8;
          st = push_byte 0x80 st;
          st = (if 56 < block_size st then (hash_transform (fill_zeros 64 st))\<lparr>block_size := 0\<rparr> else st);
          st = fill_zeros 56 st;
          st = st\<lparr>hash_block := fold (\<lambda>index b. b[63 - index := ucast (drop_bit (index * 8) bit_count)])
                 [0..<8] (hash_block st)\<rparr>;
          st = hash_transform st
      in concat (map (\<lambda>w. map (\<lambda>byte. ucast (drop_bit ((3 - byte) * 8) (hash_state st ! w))) [0..<4]) [0..<8]))"

definition hex_character :: "nat \<Rightarrow> char" where
  "hex_character n = ''0123456789abcdef'' ! n"

definition hex_digest :: "u8 list \<Rightarrow> string" where
  "hex_digest digest =
     concat (map (\<lambda>byte. [hex_character (unat byte div 16), hex_character (unat byte mod 16)]) digest)"

definition sha256_hex :: "u8 list \<Rightarrow> string" where
  "sha256_hex bytes = hex_digest (hash_finish (hash_update bytes initial_hash))"

text \<open>
  A file is read in pieces; the hash takes them one after the other. A file that cannot be
  opened is \<open>None\<close>. Pieces are what \<open>read\<close> and \<open>gcount\<close> give, the last may be shorter or
  empty.
\<close>

definition sha256_file :: "u8 list list option \<Rightarrow> string result" where
  "sha256_file pieces = (case pieces of
     None \<Rightarrow> Inl ''cannot open input for hashing''
   | Some ps \<Rightarrow> Inr (hex_digest (hash_finish
       (fold (\<lambda>p st. if p = [] then st else hash_update p st) ps initial_hash))))"

section \<open>The standard\<close>

text \<open>\<open>schedule block t\<close> is the word W of index t.\<close>

fun schedule :: "u8 list \<Rightarrow> nat \<Rightarrow> u32" where
  "schedule block t =
     (if t < 16 then block_word block t
      else schedule block (t - 16) + small_sigma0 (schedule block (t - 15)) +
           schedule block (t - 7) + small_sigma1 (schedule block (t - 2)))"

declare schedule.simps [simp del]

definition spec_compress :: "u8 list \<Rightarrow> u32 list \<Rightarrow> u32 list" where
  "spec_compress block s =
     add_registers s (fold (round_step (map (schedule block) [0..<64])) [0..<64] (registers_of s))"

definition big_endian64 :: "u64 \<Rightarrow> u8 list" where
  "big_endian64 v = map (\<lambda>i. ucast (drop_bit ((7 - i) * 8) v)) [0..<8]"

definition padding :: "nat \<Rightarrow> u8 list" where
  "padding n = 0x80 # replicate ((119 - n mod 64) mod 64) 0 @ big_endian64 (of_nat n * 8)"

fun blocks :: "u8 list \<Rightarrow> u8 list list" where
  "blocks bs = (if length bs < 64 then [] else take 64 bs # blocks (drop 64 bs))"

declare blocks.simps [simp del]

definition spec_hash :: "u8 list \<Rightarrow> u32 list" where
  "spec_hash bytes = fold spec_compress (blocks (bytes @ padding (length bytes))) (hash_state initial_hash)"

definition big_endian32 :: "u32 \<Rightarrow> u8 list" where
  "big_endian32 v = map (\<lambda>byte. ucast (drop_bit ((3 - byte) * 8) v)) [0..<4]"

definition spec_sha256 :: "u8 list \<Rightarrow> string" where
  "spec_sha256 bytes = hex_digest (concat (map big_endian32 (spec_hash bytes)))"

section \<open>The message schedule\<close>

lemma extend_words_schedule:
  assumes "length w = 64" "\<And>t. t < 16 \<Longrightarrow> w ! t = block_word block t" "16 \<le> n" "n \<le> 64"
  shows "length (fold extend_words [16..<n] w) = 64 \<and> (\<forall>t<n. fold extend_words [16..<n] w ! t = schedule block t)"
  using assms(3,4)
proof (induction n rule: dec_induct)
  case base
  then show ?case using assms(1,2) by (simp add: schedule.simps)
next
  case (step n)
  let ?w = "fold extend_words [16..<n] w"
  have IH: "length ?w = 64" "\<And>t. t < n \<Longrightarrow> ?w ! t = schedule block t" using step by simp_all
  have "fold extend_words [16..<Suc n] w = extend_words n ?w" using step(1) by simp
  moreover have "extend_words n ?w = ?w[n := schedule block n]"
    using step(1) IH(2) by (simp add: extend_words_def schedule.simps [of block n])
  ultimately show ?case using IH step.prems by (auto simp: nth_list_update less_Suc_eq)
qed

lemma first_words:
  "k \<le> 16 \<Longrightarrow> length (fold (\<lambda>index w. w[index := block_word block index]) [0..<k] (replicate 64 0)) = 64 \<and>
    (\<forall>t<k. fold (\<lambda>index w. w[index := block_word block index]) [0..<k] (replicate 64 0) ! t = block_word block t)"
  by (induction k) (auto simp: nth_list_update less_Suc_eq)

lemma message_words_schedule: "message_words block = map (schedule block) [0..<64]"
proof -
  define w where "w = fold (\<lambda>index w. w[index := block_word block index]) [0..<16] (replicate 64 (0 :: u32))"
  have "length w = 64" "\<And>t. t < 16 \<Longrightarrow> w ! t = block_word block t"
    unfolding w_def using first_words [of 16 block] by blast+
  then have "length (message_words block) = 64" "\<forall>t<64. message_words block ! t = schedule block t"
    using extend_words_schedule [of w block 64] unfolding message_words_def w_def by simp_all
  then show ?thesis by (intro nth_equalityI) simp_all
qed

lemma compress_spec: "compress = spec_compress"
  by (simp add: fun_eq_iff compress_def spec_compress_def message_words_schedule)

section \<open>The block buffer\<close>

lemma update_byte_fields:
  assumes "block_size st + 1 < 64"
  shows "update_byte b st = push_byte b st"
  using assms by (simp add: update_byte_def push_byte_def)

lemma take_update_append: "k < length b \<Longrightarrow> take (k + 1) (b[k := x]) = take k b @ [x]"
  by (simp add: take_Suc_conv_app_nth)

lemma fill_part:
  assumes "length (hash_block st) = 64" "block_size st + length xs < 64"
  shows "fold update_byte xs st =
    st\<lparr>hash_block := take (block_size st) (hash_block st) @ xs @ drop (block_size st + length xs) (hash_block st),
       block_size := block_size st + length xs\<rparr>"
  using assms
proof (induction xs arbitrary: st)
  case (Cons x xs)
  have u: "update_byte x st = push_byte x st" using Cons.prems(2) by (intro update_byte_fields) simp
  have "length (hash_block (push_byte x st)) = 64" "block_size (push_byte x st) + length xs < 64"
    using Cons.prems by (simp_all add: push_byte_def)
  note IH = Cons.IH [OF this]
  have k: "block_size st < length (hash_block st)" using Cons.prems by simp
  then have "take (block_size st + 1) ((hash_block st)[block_size st := x]) = take (block_size st) (hash_block st) @ [x]"
    by (rule take_update_append)
  then show ?case using k by (simp add: u IH) (simp add: push_byte_def)
qed simp

lemma fill_block:
  assumes "length (hash_block st) = 64" "block_size st + length xs = 64" "xs \<noteq> []"
  defines "block \<equiv> take (block_size st) (hash_block st) @ xs"
  shows "fold update_byte xs st = st\<lparr>hash_block := block, hash_state := compress block (hash_state st), block_size := 0\<rparr>"
proof -
  obtain ys y where xs: "xs = ys @ [y]" using assms(3) by (cases xs rule: rev_cases) auto
  define t where "t = fold update_byte ys st"
  have n: "block_size st + length ys = 63" using assms(2) xs by simp
  have t: "t = st\<lparr>hash_block := take (block_size st) (hash_block st) @ ys @ drop 63 (hash_block st), block_size := 63\<rparr>"
    unfolding t_def using fill_part [OF assms(1), of ys] n by simp
  have "length (drop 63 (hash_block st)) = 1" using assms(1) by simp
  then obtain z where z: "drop 63 (hash_block st) = [z]" by (metis One_nat_def length_0_conv length_Suc_conv)
  have l: "length (take (block_size st) (hash_block st) @ ys) = 63" using n assms(1) by simp
  have "(take (block_size st) (hash_block st) @ ys @ [z])[63 := y] = take (block_size st) (hash_block st) @ ys @ [y]"
    using l by (metis append.assoc list_update_length)
  then have "update_byte y t = st\<lparr>hash_block := block, hash_state := compress block (hash_state st), block_size := 0\<rparr>"
    by (simp add: t z update_byte_def push_byte_def hash_transform_def block_def xs Let_def)
  then show ?thesis by (simp add: xs t_def)
qed

lemma fill_zeros_part:
  assumes "length (hash_block st) = 64" "block_size st \<le> limit" "limit \<le> 64"
  shows "fill_zeros limit st =
    st\<lparr>hash_block := take (block_size st) (hash_block st) @ replicate (limit - block_size st) 0 @ drop limit (hash_block st),
       block_size := limit\<rparr>"
  using assms
proof (induction limit st rule: fill_zeros.induct)
  case (1 limit st)
  show ?case
  proof (cases "block_size st < limit")
    case True
    have p: "length (hash_block (push_byte 0 st)) = 64" "block_size (push_byte 0 st) \<le> limit"
      using 1(2) True by (simp_all add: push_byte_def)
    note IH = 1(1) [OF True p 1(4)]
    have k: "block_size st < length (hash_block st)" using 1 True by simp
    then have "take (block_size st + 1) ((hash_block st)[block_size st := 0]) = take (block_size st) (hash_block st) @ [0]"
      by (rule take_update_append)
    moreover have "replicate (limit - block_size st) (0 :: u8) = 0 # replicate (limit - (block_size st + 1)) 0"
      using True by (metis Suc_diff_Suc Suc_eq_plus1 replicate_Suc)
    ultimately show ?thesis using True by (simp add: fill_zeros.simps [of limit st] IH) (simp add: push_byte_def)
  next
    case False
    then have "block_size st = limit" using 1(3) by simp
    then show ?thesis by (simp add: fill_zeros.simps [of limit st])
  qed
qed

section \<open>What the state stands for\<close>

definition absorbed :: "Hash_state \<Rightarrow> u8 list \<Rightarrow> bool" where
  "absorbed st bs \<longleftrightarrow> (\<exists>ys r. bs = ys @ r \<and> 64 dvd length ys \<and> length r < 64 \<and>
     length (hash_block st) = 64 \<and> block_size st = length r \<and> take (length r) (hash_block st) = r \<and>
     hash_state st = fold compress (blocks ys) (hash_state initial_hash))"

lemma blocks_append: "64 dvd length xs \<Longrightarrow> blocks (xs @ ys) = blocks xs @ blocks ys"
proof (induction xs rule: blocks.induct)
  case (1 xs)
  show ?case
  proof (cases "length xs < 64")
    case True
    then have "xs = []" using 1(2) by (auto elim: dvdE)
    then show ?thesis by (simp add: blocks.simps [of "[]"])
  next
    case False
    have "64 dvd length (drop 64 xs)" using 1(2) False by simp
    then show ?thesis using 1(1) [OF False] False by (simp add: blocks.simps [of xs] blocks.simps [of "xs @ ys"])
  qed
qed

lemma blocks_one: "length b = 64 \<Longrightarrow> blocks b = [b]"
  by (simp add: blocks.simps [of b] blocks.simps [of "[]"])

lemma absorbed_initial: "absorbed (initial_hash\<lparr>total_bytes := n\<rparr>) []"
  by (auto simp: absorbed_def initial_hash_def blocks.simps)

lemma absorbed_byte:
  assumes "absorbed st bs" shows "absorbed (update_byte x st) (bs @ [x])"
proof -
  obtain ys r where a: "bs = ys @ r" "64 dvd length ys" "length r < 64" "length (hash_block st) = 64"
    "block_size st = length r" "take (length r) (hash_block st) = r"
    "hash_state st = fold compress (blocks ys) (hash_state initial_hash)"
    using assms by (auto simp: absorbed_def)
  show ?thesis
  proof (cases "length r + 1 = 64")
    case True
    have "update_byte x st = st\<lparr>hash_block := r @ [x], hash_state := compress (r @ [x]) (hash_state st), block_size := 0\<rparr>"
      using fill_block [of st "[x]"] a True by simp
    moreover have "blocks (ys @ r @ [x]) = blocks ys @ [r @ [x]]"
      using a(2) True by (simp add: blocks_append blocks_one)
    ultimately show ?thesis using a True unfolding absorbed_def
      by (intro exI [of _ "ys @ r @ [x]"] exI [of _ "[]"]) simp
  next
    case False
    then have "update_byte x st = st\<lparr>hash_block := r @ [x] @ drop (length r + 1) (hash_block st), block_size := length r + 1\<rparr>"
      using fill_part [of st "[x]"] a by simp
    then show ?thesis using a False unfolding absorbed_def
      by (intro exI [of _ ys] exI [of _ "r @ [x]"]) simp
  qed
qed

lemma absorbed_bytes: "absorbed st bs \<Longrightarrow> absorbed (fold update_byte xs st) (bs @ xs)"
proof (induction xs arbitrary: st bs)
  case (Cons x xs)
  show ?case using Cons.IH [OF absorbed_byte [OF Cons.prems, of x]] by simp
qed simp

lemma total_bytes_fold [simp]: "total_bytes (fold update_byte xs st) = total_bytes st"
  by (induction xs arbitrary: st) (simp_all add: update_byte_def push_byte_def hash_transform_def Let_def)

lemma absorbed_update:
  "absorbed st bs \<Longrightarrow> absorbed (hash_update xs st) (bs @ xs)"
  "total_bytes (hash_update xs st) = total_bytes st + of_nat (length xs)"
proof -
  have "absorbed st bs \<Longrightarrow> absorbed (st\<lparr>total_bytes := n\<rparr>) bs" for n by (simp add: absorbed_def)
  then show "absorbed st bs \<Longrightarrow> absorbed (hash_update xs st) (bs @ xs)"
    unfolding hash_update_def by (intro absorbed_bytes)
qed (simp add: hash_update_def)

section \<open>Padding\<close>

lemma length_bytes_set:
  assumes "length b = 64"
  shows "fold (\<lambda>index b. b[63 - index := f index]) [0..<8] b = take 56 b @ map (\<lambda>i. f (7 - i)) [0..<8]"
proof -
  define p q where "p = take 56 b" and "q = drop 56 b"
  have b: "b = p @ q" "length p = 56" "length q = 8" using assms by (simp_all add: p_def q_def)
  obtain q0 q1 q2 q3 q4 q5 q6 q7 where q: "q = [q0, q1, q2, q3, q4, q5, q6, q7]"
    using b(3) by (auto simp: length_Suc_conv numeral_eq_Suc)
  have u: "[0..<8] = [0, 1, 2, 3, 4, 5, 6, 7]" by (simp add: upt_conv_Cons)
  have "fold (\<lambda>index b. b[63 - index := f index]) [0..<8] (p @ q) = p @ map (\<lambda>i. f (7 - i)) [0..<8]"
    unfolding u q by (simp add: list_update_append b(2))
  then show ?thesis by (simp add: b)
qed

lemma padding_short: "n mod 64 \<le> 55 \<Longrightarrow>
    padding n = 0x80 # replicate (55 - n mod 64) 0 @ big_endian64 (of_nat n * 8)"
proof -
  assume "n mod 64 \<le> 55"
  then have "119 - n mod 64 = 64 + (55 - n mod 64)" by simp
  then have "(119 - n mod 64) mod 64 = 55 - n mod 64" by (simp only: mod_add_self1) simp
  then show ?thesis by (simp add: padding_def)
qed

lemma padding_long: "55 < n mod 64 \<Longrightarrow>
    padding n = (0x80 # replicate (63 - n mod 64) 0) @ replicate 56 0 @ big_endian64 (of_nat n * 8)"
proof -
  assume a: "55 < n mod 64"
  have "n mod 64 < 64" by simp
  then have "(119 - n mod 64) mod 64 = (63 - n mod 64) + 56" using a by simp
  then show ?thesis by (simp only: padding_def replicate_add) simp
qed

lemma length_compressed: "length (fold compress bl (hash_state initial_hash)) = 8"
proof -
  have "length (compress b s) = 8" for b s
    by (simp add: compress_def add_registers_def split: prod.splits)
  then show ?thesis by (induction bl rule: rev_induct) (simp_all add: initial_hash_def)
qed

text \<open>The end of the hash, with the state in which the last block is transformed.\<close>

lemma finish_block:
  assumes "length (hash_block st) = 64" "block_size st \<le> 56"
  shows "hash_state (hash_transform ((fill_zeros 56 st)\<lparr>hash_block :=
      fold (\<lambda>index b. b[63 - index := ucast (drop_bit (index * 8) v)]) [0..<8] (hash_block (fill_zeros 56 st))\<rparr>)) =
    compress (take (block_size st) (hash_block st) @ replicate (56 - block_size st) 0 @ big_endian64 v) (hash_state st)"
proof -
  have f: "fill_zeros 56 st = st\<lparr>hash_block := take (block_size st) (hash_block st) @
      replicate (56 - block_size st) 0 @ drop 56 (hash_block st), block_size := 56\<rparr>"
    by (rule fill_zeros_part) (use assms in simp_all)
  have l: "length (take (block_size st) (hash_block st) @ replicate (56 - block_size st) 0 @ drop 56 (hash_block st)) = 64"
    using assms by simp
  show ?thesis using assms length_bytes_set [OF l, of "\<lambda>index. ucast (drop_bit (index * 8) v)"]
    by (simp add: f hash_transform_def big_endian64_def)
qed

lemma finish_state:
  assumes "absorbed st bs" "total_bytes st = of_nat (length bs)"
  shows "hash_finish st = concat (map big_endian32 (hash_state (fold update_byte (padding (length bs)) st)))"
proof -
  define r where "r = take (block_size st) (hash_block st)"
  define p where "p = push_byte 0x80 st"
  define v where "v = (of_nat (length bs) * 8 :: u64)"
  define q where "q = (if 56 < block_size p then (hash_transform (fill_zeros 64 p))\<lparr>block_size := 0\<rparr> else p)"
  define S where "S = hash_state (hash_transform ((fill_zeros 56 q)\<lparr>hash_block :=
      fold (\<lambda>index b. b[63 - index := ucast (drop_bit (index * 8) v)]) [0..<8] (hash_block (fill_zeros 56 q))\<rparr>))"
  have a: "length (hash_block st) = 64" "block_size st = length r" "length r < 64" "length bs mod 64 = length r"
  proof -
    obtain ys r' where y: "bs = ys @ r'" "64 dvd length ys" "length r' < 64" "length (hash_block st) = 64"
      "block_size st = length r'" "take (length r') (hash_block st) = r'"
      using assms(1) by (auto simp: absorbed_def)
    have "r = r'" by (simp add: r_def y(5,6))
    moreover have "length bs mod 64 = length r'" using y(1-3) by (auto elim: dvdE)
    ultimately show "length (hash_block st) = 64" "block_size st = length r" "length r < 64" "length bs mod 64 = length r"
      using y by simp_all
  qed
  have t: "take (length r) (hash_block st) = r" using r_def a(2) by simp
  have "(hash_block st)[length r := 0x80] = take (length r) (hash_block st) @ 0x80 # drop (Suc (length r)) (hash_block st)"
    by (rule upd_conv_take_nth_drop) (use a in simp)
  then have p: "p = st\<lparr>hash_block := r @ [0x80] @ drop (length r + 1) (hash_block st), block_size := length r + 1\<rparr>"
    by (simp add: p_def push_byte_def a(2) t)
  have S: "S = hash_state (fold update_byte (padding (length bs)) st)"
  proof (cases "length r \<le> 55")
    case True
    then have q: "q = p" by (simp add: q_def p)
    have "S = compress (r @ padding (length bs)) (hash_state st)"
      unfolding S_def q by (subst finish_block) (use a True in \<open>simp_all add: p padding_short v_def Suc_diff_le\<close>)
    moreover have "length r + length (padding (length bs)) = 64" using a True by (simp add: padding_short big_endian64_def)
    ultimately show ?thesis using fill_block [of st "padding (length bs)"] a
      by (simp add: t padding_def)
  next
    case False
    let ?b = "r @ 0x80 # replicate (63 - length r) 0"
    have "fill_zeros 64 p = st\<lparr>hash_block := ?b, block_size := 64\<rparr>"
      by (subst fill_zeros_part) (use a in \<open>simp_all add: p\<close>)
    then have q: "q = st\<lparr>hash_block := ?b, hash_state := compress ?b (hash_state st), block_size := 0\<rparr>"
      using False by (simp add: q_def p hash_transform_def)
    have "fold update_byte (0x80 # replicate (63 - length r) 0) st = q"
      unfolding q by (subst fill_block) (use a in \<open>simp_all add: t\<close>)
    moreover have "S = compress (replicate 56 0 @ big_endian64 v) (hash_state q)"
      unfolding S_def by (subst finish_block) (use a in \<open>simp_all add: q\<close>)
    moreover have "hash_state (fold update_byte (replicate 56 0 @ big_endian64 v) q) =
        compress (replicate 56 0 @ big_endian64 v) (hash_state q)"
      by (subst fill_block) (use a in \<open>simp_all add: q big_endian64_def\<close>)
    moreover have "padding (length bs) = (0x80 # replicate (63 - length r) 0) @ replicate 56 0 @ big_endian64 v"
      using padding_long [of "length bs"] False a by (simp add: v_def)
    ultimately show ?thesis by (simp only: fold_append o_apply)
  qed
  have "hash_finish st = concat (map (\<lambda>w. big_endian32 (S ! w)) [0..<8])"
    by (simp add: hash_finish_def Let_def S_def q_def p_def v_def assms(2) big_endian32_def)
  moreover have "map (\<lambda>w. big_endian32 (S ! w)) [0..<8] = map big_endian32 S"
  proof -
    have "absorbed (fold update_byte (padding (length bs)) st) (bs @ padding (length bs))"
      by (rule absorbed_bytes [OF assms(1)])
    then have "length S = 8" unfolding S by (auto simp: absorbed_def length_compressed)
    then show ?thesis by (intro nth_equalityI) simp_all
  qed
  ultimately show ?thesis by (simp add: S)
qed

lemma padding_fills: "64 dvd n + length (padding n)"
proof -
  define k m where "k = n div 64" and "m = n mod 64"
  have n: "n = k * 64 + m" by (simp add: k_def m_def)
  have "length (padding n) + m = 64 \<or> length (padding n) + m = 128"
    using mod_less_divisor [of 64 n]
    by (cases "m \<le> 55") (simp_all add: padding_short padding_long big_endian64_def m_def [symmetric])
  then have "n + length (padding n) = k * 64 + 64 \<or> n + length (padding n) = k * 64 + 128" unfolding n by auto
  then show ?thesis by auto
qed

lemma finish_spec:
  assumes "absorbed st bs" "total_bytes st = of_nat (length bs)"
  shows "hash_finish st = concat (map big_endian32 (spec_hash bs))"
proof -
  let ?p = "padding (length bs)"
  have "absorbed (fold update_byte ?p st) (bs @ ?p)" by (rule absorbed_bytes [OF assms(1)])
  then obtain ys r where y: "bs @ ?p = ys @ r" "64 dvd length ys" "length r < 64"
    "hash_state (fold update_byte ?p st) = fold compress (blocks ys) (hash_state initial_hash)"
    by (auto simp: absorbed_def)
  have "64 dvd length ys + length r" using padding_fills [of "length bs"] y(1) by (metis length_append)
  then have "64 dvd length r" using y(2) by (simp add: dvd_add_right_iff)
  then have "r = []" using y(3) by (auto elim: dvdE)
  then have "hash_state (fold update_byte ?p st) = spec_hash bs"
    using y(1,4) by (simp add: spec_hash_def compress_spec)
  then show ?thesis using finish_state [OF assms] by simp
qed


text \<open>A file hashes to the digest of its bytes, however the reads cut it.\<close>

theorem sha256_pieces: "sha256_file (Some pieces) = Inr (sha256_hex (concat pieces))"
proof -
  let ?f = "\<lambda>p st. if p = [] then st else hash_update p st"
  have "absorbed (fold ?f ps st) (bs @ concat ps) \<and> total_bytes (fold ?f ps st) = of_nat (length (bs @ concat ps))"
    if "absorbed st bs" "total_bytes st = of_nat (length bs)" for ps st bs
    using that
  proof (induction ps arbitrary: st bs)
    case (Cons p ps)
    have "absorbed (?f p st) (bs @ p)" "total_bytes (?f p st) = of_nat (length (bs @ p))"
      using Cons.prems absorbed_update(1) [of st bs p] absorbed_update(2) [of p st] by auto
    from Cons.IH [OF this] show ?case by simp
  qed simp
  from this [of initial_hash "[]" pieces]
  have "hash_finish (fold ?f pieces initial_hash) = concat (map big_endian32 (spec_hash (concat pieces)))"
    using absorbed_initial [of 0] by (intro finish_spec) (simp_all add: initial_hash_def)
  moreover have "hash_finish (hash_update (concat pieces) initial_hash) = concat (map big_endian32 (spec_hash (concat pieces)))"
    using absorbed_initial [of 0] absorbed_update(1) [of initial_hash "[]" "concat pieces"] absorbed_update(2) [of "concat pieces" initial_hash] by (intro finish_spec) (simp_all add: initial_hash_def)
  ultimately show ?thesis by (simp add: sha256_file_def sha256_hex_def)
qed

text \<open>The test vector of the standard, computed by the model.\<close>

lemma sha256_abc:
  "sha256_hex [0x61, 0x62, 0x63] = ''ba7816bf8f01cfea414140de5dae2223b00361a396177a9cb410ff61f20015ad''"
  by code_simp

end
