(* ===== verification/Elf_Loader.thy ===== *)
theory Elf_Loader
  imports Compact_Relocation "HOL-Library.Sublist"
begin

text \<open>
  The image of an executable (\<open>src/elf.hpp\<close>), its loader \<open>src/elf/loader.cpp\<close> and the flat
  memory image of \<open>src/elf/image.cpp\<close>. The content of the file is a byte list, a file that
  cannot be opened or read is \<open>None\<close>. Every exception is a value on the left of the sum.
\<close>

section \<open>Data\<close>

record ExecutableSection =
  section_name :: string
  section_address :: u32
  section_bytes :: "u8 list"

record LoadSegment =
  program_index :: u8
  segment_address :: u32
  segment_memory_size :: u32
  segment_flags :: u32
  segment_bytes :: "u8 list"

record Import =
  import_library :: string
  import_nid :: u32
  stub_address :: u32
  library_flags :: u32

record ElfImage =
  elf_entry :: u32
  preferred_base :: u32
  gp_pointer_offset :: u32
  gp_value_offset :: u32
  executable_sections :: "ExecutableSection list"
  load_segments :: "LoadSegment list"
  elf_relocations :: "Relocation list"
  elf_imports :: "Import list"

record SectionHeader =
  header_name :: u32
  header_type :: u32
  header_flags :: u32
  header_address :: u32
  header_offset :: u32
  header_size :: u32
  header_info :: u32

record ProgramLoadHeader =
  load_file_offset :: u32
  load_address :: u32
  load_physical_address :: u32
  load_file_size :: u32

section \<open>Reading fields\<close>

definition elf_u16 :: "u8 list \<Rightarrow> nat \<Rightarrow> u16 result" where
  "elf_u16 data off =
     (if length data < off \<or> length data - off < 2 then Inl ''truncated ELF field''
      else Inr (le16 (data ! off) (data ! (off + 1))))"

definition elf_u32 :: "u8 list \<Rightarrow> nat \<Rightarrow> u32 result" where
  "elf_u32 data off =
     (if length data < off \<or> length data - off < 4 then Inl ''truncated ELF field''
      else Inr (le32 (data ! off) (data ! (off + 1)) (data ! (off + 2)) (data ! (off + 3))))"

definition char_of_byte :: "u8 \<Rightarrow> char" where
  "char_of_byte b = char_of (unat b)"

fun terminated_string :: "u8 list \<Rightarrow> string option" where
  "terminated_string [] = None"
| "terminated_string (b # bs) =
     (if b = 0 then Some []
      else case terminated_string bs of None \<Rightarrow> None | Some s \<Rightarrow> Some (char_of_byte b # s))"

definition string_at :: "u8 list \<Rightarrow> u32 \<Rightarrow> string result" where
  "string_at table off =
     (if length table \<le> unat off then Inl ''invalid ELF section name offset''
      else case terminated_string (drop (unat off) table) of
        None \<Rightarrow> Inl ''unterminated ELF section name''
      | Some s \<Rightarrow> Inr s)"

text \<open>\<open>inside data offset size\<close>: the two comparisons before a slice of the file is taken.\<close>

definition inside :: "u8 list \<Rightarrow> u32 \<Rightarrow> u32 \<Rightarrow> bool" where
  "inside data off sz \<longleftrightarrow> unat off \<le> length data \<and> unat sz \<le> length data - unat off"

definition file_slice :: "u8 list \<Rightarrow> u32 \<Rightarrow> u32 \<Rightarrow> u8 list" where
  "file_slice data off sz = slice_bytes data (unat off) (unat sz)"

section \<open>Program headers\<close>

definition read_program_header ::
  "u8 list \<Rightarrow> nat \<Rightarrow> nat \<Rightarrow> (LoadSegment \<times> ProgramLoadHeader) option result" where
  "read_program_header data off i =
     bind_result (elf_u32 data off) (\<lambda>type.
       if type \<noteq> 1 then Inr None
       else bind_result (elf_u32 data (off + 4)) (\<lambda>file_offset.
         bind_result (elf_u32 data (off + 8)) (\<lambda>address.
         bind_result (elf_u32 data (off + 12)) (\<lambda>physical_address.
         bind_result (elf_u32 data (off + 16)) (\<lambda>file_size.
         bind_result (elf_u32 data (off + 20)) (\<lambda>memory_size.
         bind_result (elf_u32 data (off + 24)) (\<lambda>flags.
           if memory_size < file_size \<or> \<not> inside data file_offset file_size
           then Inl ''invalid ELF load segment''
           else Inr (Some
             (\<lparr>program_index = of_nat i, segment_address = address, segment_memory_size = memory_size,
               segment_flags = flags, segment_bytes = file_slice data file_offset file_size\<rparr>,
              \<lparr>load_file_offset = file_offset, load_address = address,
               load_physical_address = physical_address, load_file_size = file_size\<rparr>)))))))))"

fun read_program_headers ::
  "u8 list \<Rightarrow> nat \<Rightarrow> nat \<Rightarrow> nat list \<Rightarrow> (LoadSegment \<times> ProgramLoadHeader) list result" where
  "read_program_headers data table entry_size [] = Inr []"
| "read_program_headers data table entry_size (i # is) =
     bind_result (read_program_header data (table + i * entry_size) i) (\<lambda>h.
     bind_result (read_program_headers data table entry_size is) (\<lambda>hs.
       Inr (case h of None \<Rightarrow> hs | Some p \<Rightarrow> p # hs)))"

definition program_table :: "u8 list \<Rightarrow> (LoadSegment \<times> ProgramLoadHeader) list result" where
  "program_table data =
     bind_result (elf_u32 data 28) (\<lambda>program_offset.
     bind_result (elf_u16 data 42) (\<lambda>entry_size.
     bind_result (elf_u16 data 44) (\<lambda>count.
       let table_size = unat count * unat entry_size in
       if (count \<noteq> 0 \<and> entry_size < 32) \<or> length data < table_size \<or>
          length data - table_size < unat program_offset
       then Inl ''invalid ELF program table''
       else read_program_headers data (unat program_offset) (unat entry_size) [0..<unat count])))"

section \<open>Fixed load addresses\<close>

definition psp_user_base :: u32 where "psp_user_base = 0x08000000"
definition psp_user_end :: u32 where "psp_user_end = 0x0c000000"

definition user_segment :: "LoadSegment \<Rightarrow> bool" where
  "user_segment s \<longleftrightarrow> psp_user_base \<le> segment_address s \<and> segment_address s < psp_user_end \<and>
     segment_memory_size s \<le> psp_user_end - segment_address s"

text \<open>When every segment lies in user memory the addresses become offsets from its base.\<close>

definition rebase :: "u32 \<Rightarrow> LoadSegment list \<Rightarrow> (u32 \<times> u32 \<times> LoadSegment list) result" where
  "rebase e segments =
     (if segments \<noteq> [] \<and> (\<forall>s\<in>set segments. user_segment s) then
        if e < psp_user_base then Inl ''fixed PSP ELF entry is below user memory''
        else Inr (psp_user_base, e - psp_user_base,
               map (\<lambda>s. s\<lparr>segment_address := segment_address s - psp_user_base\<rparr>) segments)
      else Inr (0, e, segments))"

section \<open>Sections\<close>

definition read_section_header :: "u8 list \<Rightarrow> nat \<Rightarrow> SectionHeader result" where
  "read_section_header data off =
     bind_result (elf_u32 data off) (\<lambda>name.
     bind_result (elf_u32 data (off + 4)) (\<lambda>type.
     bind_result (elf_u32 data (off + 8)) (\<lambda>flags.
     bind_result (elf_u32 data (off + 12)) (\<lambda>address.
     bind_result (elf_u32 data (off + 16)) (\<lambda>file_offset.
     bind_result (elf_u32 data (off + 20)) (\<lambda>sz.
     bind_result (elf_u32 data (off + 28)) (\<lambda>info.
       Inr \<lparr>header_name = name, header_type = type, header_flags = flags, header_address = address,
            header_offset = file_offset, header_size = sz, header_info = info\<rparr>)))))))"

fun traverse :: "('a \<Rightarrow> 'b result) \<Rightarrow> 'a list \<Rightarrow> 'b list result" where
  "traverse f [] = Inr []"
| "traverse f (x # xs) = bind_result (f x) (\<lambda>y. bind_result (traverse f xs) (\<lambda>ys. Inr (y # ys)))"

definition section_table :: "u8 list \<Rightarrow> (SectionHeader list \<times> u8 list) result" where
  "section_table data =
     bind_result (elf_u32 data 32) (\<lambda>section_offset.
     bind_result (elf_u16 data 46) (\<lambda>entry_size.
     bind_result (elf_u16 data 48) (\<lambda>count.
     bind_result (elf_u16 data 50) (\<lambda>name_table_index.
       if entry_size < 40 \<or> count \<le> name_table_index then Inl ''invalid ELF section table''
       else let table_size = unat count * unat entry_size in
         if length data < table_size \<or> length data - table_size < unat section_offset
         then Inl ''ELF section table is outside the file''
         else bind_result (traverse (\<lambda>i. read_section_header data (unat section_offset + i * unat entry_size))
                [0..<unat count]) (\<lambda>headers.
           let string_header = headers ! unat name_table_index in
           if \<not> inside data (header_offset string_header) (header_size string_header)
           then Inl ''ELF section-name table is outside the file''
           else Inr (headers, file_slice data (header_offset string_header) (header_size string_header)))))))"

definition executable_header :: "SectionHeader \<Rightarrow> bool" where
  "executable_header h \<longleftrightarrow> header_type h = 1 \<and> header_flags h AND 4 \<noteq> 0 \<and> header_size h \<noteq> 0"

definition read_executable :: "u8 list \<Rightarrow> u8 list \<Rightarrow> u32 \<Rightarrow> SectionHeader \<Rightarrow> ExecutableSection result" where
  "read_executable data names base h =
     (if \<not> inside data (header_offset h) (header_size h) then Inl ''executable section is outside the file''
      else if header_address h AND 3 \<noteq> 0 \<or> header_size h AND 3 \<noteq> 0
      then Inl ''executable section is not word-aligned''
      else bind_result (string_at names (header_name h)) (\<lambda>name.
        Inr \<lparr>section_name = name, section_address = header_address h - base,
             section_bytes = file_slice data (header_offset h) (header_size h)\<rparr>))"

definition read_executables ::
  "u8 list \<Rightarrow> u8 list \<Rightarrow> u32 \<Rightarrow> SectionHeader list \<Rightarrow> ExecutableSection list result" where
  "read_executables data names base headers =
     bind_result (traverse (read_executable data names base) (filter executable_header headers)) (\<lambda>ss.
       if ss = [] then Inl ''ELF has no executable code sections'' else Inr ss)"

section \<open>Relocations\<close>

definition read_relocation :: "u8 list \<Rightarrow> u32 \<Rightarrow> Relocation result" where
  "read_relocation data off =
     bind_result (elf_u32 data (unat off)) (\<lambda>relocation_offset.
     bind_result (elf_u32 data (unat (off + 4))) (\<lambda>info.
       Inr \<lparr>roffset = relocation_offset, reltype = ucast (info AND 15),
            rpatch = ucast (drop_bit 8 info AND 0xff), rtarget = ucast (drop_bit 16 info AND 0xff)\<rparr>))"

definition read_relocation_section :: "u8 list \<Rightarrow> SectionHeader \<Rightarrow> Relocation list result" where
  "read_relocation_section data h =
     (if header_size h AND 7 \<noteq> 0 \<or> \<not> inside data (header_offset h) (header_size h)
      then Inl ''invalid PSP relocation section''
      else traverse (\<lambda>k. read_relocation data (header_offset h + of_nat (k * 8)))
             [0..<unat (header_size h) div 8])"

definition read_relocations :: "u8 list \<Rightarrow> SectionHeader list \<Rightarrow> Relocation list result" where
  "read_relocations data headers =
     bind_result (traverse (read_relocation_section data) (filter (\<lambda>h. header_type h = 0x700000a0) headers))
       (\<lambda>rs. Inr (concat rs))"

section \<open>The flat image\<close>

fun image_size :: "u32 \<Rightarrow> LoadSegment list \<Rightarrow> u32 result" where
  "image_size sz [] = Inr sz"
| "image_size sz (s # ss) =
     (if 0xffffffff - segment_memory_size s < segment_address s then Inl ''load segment address overflow''
      else image_size (max sz (segment_address s + segment_memory_size s)) ss)"

definition memory_size_of :: "LoadSegment list \<Rightarrow> u32 result" where
  "memory_size_of segments = image_size 0 segments"

fun copy_segments :: "u8 list \<Rightarrow> LoadSegment list \<Rightarrow> u8 list result" where
  "copy_segments flat [] = Inr flat"
| "copy_segments flat (s # ss) =
     (if length flat < unat (segment_address s) \<or>
         length flat - unat (segment_address s) < length (segment_bytes s)
      then Inl ''load segment is outside memory image''
      else copy_segments (overwrite flat (unat (segment_address s)) (segment_bytes s)) ss)"

definition memory_image :: "LoadSegment list \<Rightarrow> u8 list result" where
  "memory_image segments =
     bind_result (memory_size_of segments) (\<lambda>sz. copy_segments (replicate (unat sz) 0) segments)"

definition image_offset :: "u32 \<Rightarrow> u32 \<Rightarrow> u32 result" where
  "image_offset base address =
     (if address < base then Inl ''PSP address is below the image base'' else Inr (address - base))"

definition image_u32 :: "u8 list \<Rightarrow> u32 \<Rightarrow> u32 \<Rightarrow> u32 result" where
  "image_u32 flat base address =
     bind_result (image_offset base address) (\<lambda>off. elf_u32 flat (unat off))"

text \<open>The name of a library: at most 255 characters, then a zero byte.\<close>

fun short_string :: "nat \<Rightarrow> u8 list \<Rightarrow> string result" where
  "short_string n [] = Inl ''unterminated PSP import string''"
| "short_string n (b # bs) =
     (if b = 0 then Inr []
      else if 255 < n + 1 then Inl ''PSP import string is too long''
      else bind_result (short_string (n + 1) bs) (\<lambda>s. Inr (char_of_byte b # s)))"

definition image_string :: "u8 list \<Rightarrow> u32 \<Rightarrow> u32 \<Rightarrow> string result" where
  "image_string flat base address =
     bind_result (image_offset base address) (\<lambda>off.
       if length flat \<le> unat off then Inl ''PSP import string is outside load image''
       else short_string 0 (drop (unat off) flat))"

section \<open>Module information\<close>

text \<open>The section with the name of the module header, the first that is large enough.\<close>

fun find_module_section :: "u8 list \<Rightarrow> SectionHeader list \<Rightarrow> u32 option result" where
  "find_module_section names [] = Inr None"
| "find_module_section names (h # hs) =
     bind_result (string_at names (header_name h)) (\<lambda>name.
       if name = ''.rodata.sceModuleInfo'' \<and> 0x34 \<le> header_size h then Inr (Some (header_address h))
       else find_module_section names hs)"

definition holds_module_info :: "u32 \<Rightarrow> ProgramLoadHeader \<Rightarrow> bool" where
  "holds_module_info off h \<longleftrightarrow> load_file_offset h \<le> off \<and> off - load_file_offset h \<le> load_file_size h \<and>
     0x34 \<le> load_file_size h - (off - load_file_offset h)"

definition find_module_info ::
  "u8 list \<Rightarrow> u8 list \<Rightarrow> SectionHeader list \<Rightarrow> ProgramLoadHeader list \<Rightarrow> u32 option result" where
  "find_module_info data names headers loads =
     bind_result (find_module_section names headers) (\<lambda>found.
       if found \<noteq> None then Inr found
       else bind_result (elf_u16 data 16) (\<lambda>type.
         if type = 0xffa0 \<and> loads \<noteq> [] then
           let off = load_physical_address (hd loads)
           in Inr (map_option (\<lambda>h. load_address h + (off - load_file_offset h)) (find (holds_module_info off) loads))
         else Inr None))"

definition find_program :: "u8 \<Rightarrow> LoadSegment list \<Rightarrow> LoadSegment option" where
  "find_program index segments = find (\<lambda>s. program_index s = index) segments"

text \<open>The first relocation of the \<open>gp_value\<close> field adds the address of its target segment.\<close>

fun relocate_gp :: "LoadSegment list \<Rightarrow> u32 \<Rightarrow> u32 \<Rightarrow> Relocation list \<Rightarrow> u32 result" where
  "relocate_gp segments pointer gp [] = Inr gp"
| "relocate_gp segments pointer gp (r # rs) =
     (case find_program (rpatch r) segments of
        None \<Rightarrow> relocate_gp segments pointer gp rs
      | Some patch \<Rightarrow>
          if reltype r \<noteq> 2 \<or> segment_address patch + roffset r \<noteq> pointer
          then relocate_gp segments pointer gp rs
          else case find_program (rtarget r) segments of
            None \<Rightarrow> Inl ''invalid PSP module gp relocation''
          | Some t \<Rightarrow> Inr (gp + segment_address t))"

definition read_import ::
  "u8 list \<Rightarrow> u32 \<Rightarrow> string \<Rightarrow> u32 \<Rightarrow> u32 \<Rightarrow> u32 \<Rightarrow> nat \<Rightarrow> Import result" where
  "read_import flat base library flags nid_table stub_table i =
     bind_result (image_u32 flat base (nid_table + of_nat i * 4)) (\<lambda>nid.
     bind_result (image_offset base stub_table) (\<lambda>stub.
       Inr \<lparr>import_library = library, import_nid = nid, stub_address = stub + of_nat i * 8,
            library_flags = flags\<rparr>))"

text \<open>One table of the import list: the offset of the next one and the imports of this one.\<close>

definition import_table :: "u8 list \<Rightarrow> u32 \<Rightarrow> u32 \<Rightarrow> u32 \<Rightarrow> (u32 \<times> Import list) result" where
  "import_table flat base stub_end cur =
     (if length flat < unat cur \<or> length flat - unat cur < 20 then Inl ''truncated PSP import table''
      else let c = unat cur in
        bind_result (elf_u32 flat c) (\<lambda>library_address.
        bind_result (elf_u32 flat (c + 4)) (\<lambda>flags.
        let length_words = flat ! (c + 8) in
        bind_result (elf_u16 flat (c + 10)) (\<lambda>function_count.
        bind_result (elf_u32 flat (c + 12)) (\<lambda>nid_table.
        bind_result (elf_u32 flat (c + 16)) (\<lambda>stub_table.
          if length_words < 5 \<or> stub_end - cur < ucast length_words * 4
          then Inl ''invalid PSP import-table length''
          else bind_result (image_string flat base library_address) (\<lambda>library.
            bind_result (traverse (read_import flat base library flags nid_table stub_table)
              [0..<unat function_count]) (\<lambda>imports.
              Inr (cur + ucast length_words * 4, imports)))))))))"

lemma import_table_advances:
  assumes "import_table flat base stub_end cur = Inr (next_cursor, ims)" "cur < stub_end"
  shows "cur < next_cursor \<and> next_cursor \<le> stub_end"
proof -
  obtain l :: u8 where l: "5 \<le> l" "ucast l * 4 \<le> stub_end - cur" "next_cursor = cur + ucast l * 4"
    using assms(1) by (auto simp: import_table_def Let_def bind_result_Inr not_less split: if_splits)
  have "unat l < 2 ^ 8" using unsigned_less [of l, where 'a = nat] by simp
  then have n: "unat (ucast l * 4 :: u32) = unat l * 4"
    by (simp add: unat_word_ariths unsigned_ucast_eq take_bit_nat_eq_self)
  have "5 \<le> unat l" using l(1) by (simp add: word_le_nat_alt)
  moreover have "unat (stub_end - cur) = unat stub_end - unat cur"
    using assms(2) by (simp add: unat_minus_small less_imp_le word_less_nat_alt)
  moreover have "unat l * 4 \<le> unat (stub_end - cur)" using l(2) n by (simp add: word_le_nat_alt)
  ultimately have "unat next_cursor = unat cur + unat l * 4"
    using n assms(2) unsigned_less [of stub_end, where 'a = nat] by (simp add: l(3) unat_word_ariths word_less_nat_alt)
  then show ?thesis
    using \<open>5 \<le> unat l\<close> \<open>unat l * 4 \<le> unat (stub_end - cur)\<close> \<open>unat (stub_end - cur) = _\<close> assms(2)
    by (simp add: word_less_nat_alt word_le_nat_alt)
qed

text \<open>\<open>while (cursor < stub_end)\<close>: it ends because a table is at least 20 bytes long.\<close>

function import_tables :: "u8 list \<Rightarrow> u32 \<Rightarrow> u32 \<Rightarrow> u32 \<Rightarrow> Import list \<Rightarrow> Import list result" where
  "import_tables flat base stub_end cur imports =
     (if stub_end \<le> cur then Inr imports
      else case import_table flat base stub_end cur of
        Inl e \<Rightarrow> Inl e
      | Inr (next_cursor, ims) \<Rightarrow> import_tables flat base stub_end next_cursor (imports @ ims))"
  by pat_completeness auto
termination
proof (relation "measure (\<lambda>(flat, base, stub_end, cur, imports). unat stub_end - unat cur)")
  fix flat :: "u8 list" and base stub_end cur :: u32 and acc ims :: "Import list" and r :: "u32 \<times> Import list" and next_cursor
  assume "\<not> stub_end \<le> cur" "import_table flat base stub_end cur = Inr r" "(next_cursor, ims) = r"
  then have "cur < next_cursor" "cur < stub_end" using import_table_advances [of flat base stub_end cur next_cursor ims] by auto
  then show "((flat, base, stub_end, next_cursor, acc @ ims), flat, base, stub_end, cur, acc)
      \<in> measure (\<lambda>(flat, base, stub_end, cur, acc). unat stub_end - unat cur)"
    by (simp add: word_less_nat_alt)
qed simp

declare import_tables.simps [simp del]

text \<open>The module header: where the \<open>$gp\<close> value is, what it will be, and the imports.\<close>

definition read_module_info ::
  "u8 list \<Rightarrow> u32 \<Rightarrow> LoadSegment list \<Rightarrow> Relocation list \<Rightarrow> u32 \<Rightarrow> (u32 \<times> u32 \<times> Import list) result" where
  "read_module_info flat base segments relocations address =
     bind_result (image_offset base (address + 0x20)) (\<lambda>pointer.
     bind_result (image_u32 flat base (address + 0x20)) (\<lambda>gp.
     bind_result (relocate_gp segments pointer gp relocations) (\<lambda>gp.
     bind_result (bind_result (image_u32 flat base (address + 0x2c)) (image_offset base)) (\<lambda>stub_begin.
     bind_result (bind_result (image_u32 flat base (address + 0x30)) (image_offset base)) (\<lambda>stub_end.
       if stub_end < stub_begin \<or> length flat < unat stub_end then Inl ''invalid PSP module import-table range''
       else bind_result (import_tables flat base stub_end stub_begin []) (\<lambda>imports.
         Inr (pointer, gp, imports)))))))"

section \<open>Loading a file\<close>

definition check_header :: "u8 list \<Rightarrow> unit result" where
  "check_header data =
     (if length data < 52 then Inl ''input is not a complete ELF32 file''
      else if data ! 0 \<noteq> 0x7f \<or> data ! 1 \<noteq> 0x45 \<or> data ! 2 \<noteq> 0x4c \<or> data ! 3 \<noteq> 0x46
      then Inl ''input is not an ELF file''
      else if data ! 4 \<noteq> 1 \<or> data ! 5 \<noteq> 1 then Inl ''only little-endian ELF32 is supported''
      else bind_result (elf_u16 data 18) (\<lambda>machine.
        if machine \<noteq> 8 then Inl ''ELF machine is not MIPS'' else Inr ()))"

definition load_elf :: "u8 list option \<Rightarrow> ElfImage result" where
  "load_elf file = (case file of None \<Rightarrow> Inl ''cannot open input'' | Some data \<Rightarrow>
     bind_result (check_header data) (\<lambda>_.
     bind_result (elf_u32 data 24) (\<lambda>e.
     bind_result (program_table data) (\<lambda>programs.
     bind_result (rebase e (map fst programs)) (\<lambda>(base, e, segments).
     bind_result (section_table data) (\<lambda>(headers, names).
     bind_result (read_executables data names base headers) (\<lambda>executables.
     bind_result (read_relocations data headers) (\<lambda>relocations.
     bind_result (memory_image segments) (\<lambda>flat.
     bind_result (find_module_info data names headers (map snd programs)) (\<lambda>info.
     bind_result (case info of None \<Rightarrow> Inr (0xffffffff, 0, [])
                  | Some address \<Rightarrow> read_module_info flat base segments relocations address)
       (\<lambda>(pointer, gp, imports).
       Inr \<lparr>elf_entry = e, preferred_base = base, gp_pointer_offset = pointer, gp_value_offset = gp,
            executable_sections = executables, load_segments = segments,
            elf_relocations = relocations, elf_imports = imports\<rparr>)))))))))))"

section \<open>The flat image holds the segments\<close>

definition segment_at :: "LoadSegment list \<Rightarrow> nat \<Rightarrow> LoadSegment option" where
  "segment_at segments k =
     find (\<lambda>s. unat (segment_address s) \<le> k \<and> k < unat (segment_address s) + length (segment_bytes s)) (rev segments)"

lemma find_append: "find P (xs @ ys) = (case find P xs of None \<Rightarrow> find P ys | Some x \<Rightarrow> Some x)"
  by (induction xs) simp_all

lemma copy_segments_bytes:
  assumes "copy_segments b segments = Inr flat"
  shows "length flat = length b \<and> (\<forall>k<length b. flat ! k = (case segment_at segments k of None \<Rightarrow> b ! k
      | Some s \<Rightarrow> segment_bytes s ! (k - unat (segment_address s)))) \<and>
    (\<forall>s\<in>set segments. unat (segment_address s) + length (segment_bytes s) \<le> length b)"
  using assms
proof (induction segments arbitrary: b)
  case (Cons s ss)
  let ?a = "unat (segment_address s)" and ?c = "overwrite b (unat (segment_address s)) (segment_bytes s)"
  have fits: "?a + length (segment_bytes s) \<le> length b" and c: "copy_segments ?c ss = Inr flat"
    using Cons.prems by (auto split: if_splits)
  have l: "length ?c = length b" using fits by simp
  note IH = Cons.IH [OF c]
  have "?c ! k = (if ?a \<le> k \<and> k < ?a + length (segment_bytes s) then segment_bytes s ! (k - ?a) else b ! k)"
    if "k < length b" for k using fits that by (simp add: nth_overwrite)
  then show ?case using IH l fits by (auto simp: segment_at_def find_append split: option.splits)
qed (simp add: segment_at_def)

lemma Max_insert_max: "finite S \<Longrightarrow> Max (insert (max a b) S) = Max (insert a (insert b S))"
  by (cases "S = {}") (simp_all add: max.assoc)

lemma image_size_spec:
  assumes "image_size n segments = Inr sz"
  shows "unat sz = Max (insert (unat n) ((\<lambda>s. unat (segment_address s) + unat (segment_memory_size s)) ` set segments)) \<and>
    (\<forall>s\<in>set segments. unat (segment_address s) + unat (segment_memory_size s) < 2 ^ 32)"
  using assms
proof (induction segments arbitrary: n)
  case (Cons s ss)
  let ?e = "unat (segment_address s) + unat (segment_memory_size s)"
  have ok: "segment_address s \<le> 0xffffffff - segment_memory_size s"
    and r: "image_size (max n (segment_address s + segment_memory_size s)) ss = Inr sz"
    using Cons.prems by (auto split: if_splits)
  have "unat (0xffffffff - segment_memory_size s) = 0xffffffff - unat (segment_memory_size s)"
    using unsigned_less [of "segment_memory_size s", where 'a = nat] by (subst unat_minus_small) (simp_all add: word_le_nat_alt)
  then have e: "?e < 2 ^ 32"
    using ok unsigned_less [of "segment_memory_size s", where 'a = nat] by (simp add: word_le_nat_alt)
  then have "unat (segment_address s + segment_memory_size s) = ?e" by (simp add: unat_word_ariths)
  then have "unat (max n (segment_address s + segment_memory_size s)) = max (unat n) ?e"
    by (simp add: max_def word_le_nat_alt)
  then show ?case using Cons.IH [OF r] e by (simp add: Max_insert_max)
qed simp

text \<open>
  The flat image is as long as the end of the last segment asks for; each of its bytes is the
  byte of the last segment that has one for it, and 0 where none has.
\<close>

theorem memory_image_bytes:
  assumes "memory_image segments = Inr flat"
  shows "length flat = Max (insert 0 ((\<lambda>s. unat (segment_address s) + unat (segment_memory_size s)) ` set segments)) \<and>
    (\<forall>k<length flat. flat ! k = (case segment_at segments k of None \<Rightarrow> 0
      | Some s \<Rightarrow> segment_bytes s ! (k - unat (segment_address s))))"
proof -
  obtain sz where sz: "image_size 0 segments = Inr sz" "copy_segments (replicate (unat sz) 0) segments = Inr flat"
    using assms by (auto simp: memory_image_def memory_size_of_def bind_result_Inr)
  show ?thesis using image_size_spec [OF sz(1)] copy_segments_bytes [OF sz(2)] by (simp split: option.splits)
qed

lemma memory_image_bytes_witness:
  "memory_image [\<lparr>program_index = 0, segment_address = 2, segment_memory_size = 3, segment_flags = 5, segment_bytes = [7, 8]\<rparr>]
     = Inr [0, 0, 7, 8, 0] \<and> [0, 0, 7, 8, 0 :: u8] ! 3 = 8"
proof -
  let ?s = "[\<lparr>program_index = 0, segment_address = 2, segment_memory_size = 3, segment_flags = 5, segment_bytes = [7, 8]\<rparr>]"
  have r: "replicate 5 (0 :: u8) = [0, 0, 0, 0, 0]" by (simp add: eval_nat_numeral)
  have o: "overwrite [0, 0, 0, 0, 0 :: u8] 2 [7, 8] = [0, 0, 7, 8, 0]"
    by (simp add: overwrite_def eval_nat_numeral)
  have m: "memory_image ?s = Inr [0, 0, 7, 8, 0]"
    by (simp add: memory_image_def memory_size_of_def r o max_def)
  have "(3 :: nat) < length [0, 0, 7, 8, 0 :: u8]" by simp
  from memory_image_bytes [OF m, THEN conjunct2, rule_format, OF this]
  show ?thesis using m by (simp add: segment_at_def)
qed

section \<open>A loaded image is well formed\<close>

lemma traverse_set:
  assumes "traverse f xs = Inr ys" and "y \<in> set ys"
  shows "\<exists>x\<in>set xs. f x = Inr y"
  using assms by (induction f xs arbitrary: ys rule: traverse.induct) (auto simp: bind_result_Inr)

lemma read_program_headers_set:
  assumes "read_program_headers data table n is = Inr ps" and "p \<in> set ps"
  obtains off i where "read_program_header data off i = Inr (Some p)"
  using assms
  by (induction data table n "is" arbitrary: ps rule: read_program_headers.induct)
    (auto simp: bind_result_Inr split: option.splits)

lemma length_file_slice: "inside data off sz \<Longrightarrow> length (file_slice data off sz) = unat sz"
  by (simp add: inside_def file_slice_def slice_bytes_def)

lemma sublist_file_slice: "sublist (file_slice data off sz) data"
  unfolding file_slice_def slice_bytes_def sublist_def by (metis append_take_drop_id)

lemma read_program_header_segment:
  assumes "read_program_header data off i = Inr (Some (s, l))"
  shows "length (segment_bytes s) \<le> unat (segment_memory_size s) \<and> sublist (segment_bytes s) data"
  using assms
  by (auto simp: read_program_header_def bind_result_Inr word_le_nat_alt length_file_slice sublist_file_slice not_less
      split: if_splits)

lemma rebase_segments:
  assumes "rebase e segments = Inr (base, e', segments')"
  shows "(base = 0 \<or> base = psp_user_base) \<and> map segment_bytes segments' = map segment_bytes segments \<and>
    map segment_memory_size segments' = map segment_memory_size segments"
  using assms by (auto simp: rebase_def split: if_splits)

lemma aligned_word: "unat (x :: u32) mod 4 = 0 \<longleftrightarrow> x AND 3 = 0"
proof -
  have "x AND 3 = take_bit 2 x" by (simp add: take_bit_eq_mask mask_eq_exp_minus_1)
  then have "unat (x AND 3) = unat x mod 4" by (simp add: take_bit_eq_mod unat_mod)
  then show ?thesis by (metis unat_eq_zero)
qed

lemma rebased_alignment: "unat (x - psp_user_base) mod 4 = unat x mod 4"
proof -
  have "uint (x - psp_user_base) mod 4 = ((uint x - 0x08000000) mod 2 ^ 32) mod 4"
    by (simp add: uint_word_ariths psp_user_base_def)
  also have "\<dots> = (uint x - 0x08000000) mod 4" by (rule mod_mod_cancel) simp
  also have "\<dots> = uint x mod 4" by presburger
  finally have "int (unat (x - psp_user_base) mod 4) = int (unat x mod 4)" by (simp add: zmod_int)
  then show ?thesis by linarith
qed

lemma read_executable_section:
  assumes "read_executable data names base h = Inr s" "executable_header h" "base = 0 \<or> base = psp_user_base"
  shows "section_bytes s \<noteq> [] \<and> length (section_bytes s) mod 4 = 0 \<and> unat (section_address s) mod 4 = 0 \<and>
    sublist (section_bytes s) data"
proof -
  have i: "inside data (header_offset h) (header_size h)" and a: "header_address h AND 3 = 0" "header_size h AND 3 = 0"
    and s: "section_address s = header_address h - base" "section_bytes s = file_slice data (header_offset h) (header_size h)"
    using assms(1) by (auto simp: read_executable_def bind_result_Inr split: if_splits)
  have "unat (section_address s) mod 4 = 0"
    using a assms(3) rebased_alignment [of "header_address h"] aligned_word [of "header_address h"] by (auto simp: s)
  moreover have "unat (header_size h) \<noteq> 0" using assms(2) by (simp add: executable_header_def unat_eq_zero)
  ultimately show ?thesis
    using a length_file_slice [OF i] by (auto simp: s aligned_word sublist_file_slice)
qed

lemma read_relocation_type:
  assumes "read_relocation data off = Inr r"
  shows "reltype r < 16"
proof -
  obtain info where "reltype r = ucast (info AND 15 :: u32)"
    using assms by (auto simp: read_relocation_def bind_result_Inr)
  moreover have "unat (ucast (info AND 15) :: u8) < 16"
    using word_and_le1 [of info 15] by (simp add: unsigned_ucast_eq take_bit_nat_eq_self word_le_nat_alt le_less_trans [of _ 15])
  ultimately show ?thesis by (simp add: word_less_nat_alt)
qed

lemma read_relocations_type:
  assumes "read_relocations data headers = Inr rs" "r \<in> set rs"
  shows "reltype r < 16"
proof -
  obtain rss where rss: "traverse (read_relocation_section data) (filter (\<lambda>h. header_type h = 0x700000a0) headers) = Inr rss"
    "rs = concat rss" using assms(1) by (auto simp: read_relocations_def bind_result_Inr)
  obtain xs where "xs \<in> set rss" "r \<in> set xs" using assms(2) rss(2) by auto
  then obtain h where "read_relocation_section data h = Inr xs" using traverse_set [OF rss(1)] by blast
  then obtain k where "read_relocation data k = Inr r"
    using \<open>r \<in> set xs\<close> by (auto simp: read_relocation_section_def split: if_splits dest!: traverse_set)
  then show ?thesis by (rule read_relocation_type)
qed

text \<open>
  C20. What a caller may rely on in an image the loader returns: every segment's bytes fit its size in
  memory and its end fits the address space, so the flat image can be built; there is code, every
  code section is a non-empty run of whole words at a word address and comes from the file, as the
  segments do; relocation types are four bits; addresses are relative to 0 or to user memory.
\<close>

theorem elf_image_well_formed:
  assumes "load_elf (Some data) = Inr img"
  shows "(\<forall>s\<in>set (load_segments img). length (segment_bytes s) \<le> unat (segment_memory_size s) \<and>
       unat (segment_address s) + unat (segment_memory_size s) < 2 ^ 32 \<and> sublist (segment_bytes s) data) \<and>
     executable_sections img \<noteq> [] \<and>
     (\<forall>s\<in>set (executable_sections img). section_bytes s \<noteq> [] \<and> length (section_bytes s) mod 4 = 0 \<and>
       unat (section_address s) mod 4 = 0 \<and> sublist (section_bytes s) data) \<and>
     (\<forall>r\<in>set (elf_relocations img). reltype r < 16) \<and>
     (\<exists>flat. memory_image (load_segments img) = Inr flat) \<and>
     (preferred_base img = 0 \<or> preferred_base img = psp_user_base)"
proof -
  obtain programs e e' base segments headers names executables relocations flat where
    ps: "program_table data = Inr programs" and rb: "rebase e (map fst programs) = Inr (base, e', segments)"
    and ex: "read_executables data names base headers = Inr executables"
    and rl: "read_relocations data headers = Inr relocations" and fl: "memory_image segments = Inr flat"
    and img: "load_segments img = segments" "executable_sections img = executables" "preferred_base img = base"
      "elf_relocations img = relocations"
    using assms by (auto simp: load_elf_def bind_result_Inr)
  note base = rebase_segments [OF rb]
  have seg: "length (segment_bytes s) \<le> unat (segment_memory_size s) \<and> sublist (segment_bytes s) data"
    if s: "s \<in> set segments" for s
  proof -
    obtain k where k: "k < length segments" "s = segments ! k" using s by (auto simp: in_set_conv_nth)
    have l: "length segments = length programs" using base by (metis length_map)
    obtain off i where "read_program_header data off i = Inr (Some (programs ! k))"
      using ps k l by (auto simp: program_table_def bind_result_Inr Let_def split: if_splits
          elim!: read_program_headers_set [where p = "programs ! k"])
    then have "length (segment_bytes (fst (programs ! k))) \<le> unat (segment_memory_size (fst (programs ! k))) \<and>
        sublist (segment_bytes (fst (programs ! k))) data"
      by (metis read_program_header_segment prod.collapse)
    moreover have "segment_bytes s = segment_bytes (fst (programs ! k))"
      using base k l by (metis (no_types, lifting) length_map nth_map)
    moreover have "segment_memory_size s = segment_memory_size (fst (programs ! k))"
      using base k l by (metis (no_types, lifting) length_map nth_map)
    ultimately show ?thesis by simp
  qed
  obtain sz where "image_size 0 segments = Inr sz" using fl by (auto simp: memory_image_def memory_size_of_def bind_result_Inr)
  note ends = image_size_spec [OF this, THEN conjunct2]
  have exs: "traverse (read_executable data names base) (filter executable_header headers) = Inr executables"
    "executables \<noteq> []" using ex by (auto simp: read_executables_def bind_result_Inr split: if_splits)
  have "section_bytes s \<noteq> [] \<and> length (section_bytes s) mod 4 = 0 \<and> unat (section_address s) mod 4 = 0 \<and>
      sublist (section_bytes s) data" if s: "s \<in> set executables" for s
    using traverse_set [OF exs(1) s] read_executable_section base by auto
  then show ?thesis
    using seg ends exs(2) fl base read_relocations_type [OF rl] by (simp add: img)
qed

text \<open>A file of 132 bytes: one load segment of two words, which is the one code section too.\<close>

definition small_elf :: "u8 list" where
  "small_elf =
    [127, 69, 76, 70, 1, 1, 1, 0, 0, 0, 0, 0, 0, 0, 0, 0, 2, 0, 8, 0, 1, 0, 0, 0, 0, 0, 0, 0, 52, 0,
     0, 0, 84, 0, 0, 0, 0, 0, 0, 0, 52, 0, 32, 0, 1, 0, 40, 0, 1, 0, 0, 0, 1, 0, 0, 0, 124, 0, 0, 0,
     0, 0, 0, 0, 0, 0, 0, 0, 8, 0, 0, 0, 16, 0, 0, 0, 5, 0, 0, 0, 4, 0, 0, 0, 0, 0, 0, 0, 1, 0, 0,
     0, 6, 0, 0, 0, 0, 0, 0, 0, 124, 0, 0, 0, 8, 0, 0, 0, 0, 0, 0, 0, 0, 0, 0, 0, 4, 0, 0, 0, 0, 0,
     0, 0, 0, 0, 0, 0, 8, 0, 224, 3]"

lemma small_elf_programs: "program_table small_elf = Inr [(\<lparr>program_index = 0, segment_address = 0, segment_memory_size = 16,
    segment_flags = 5, segment_bytes = [0, 0, 0, 0, 8, 0, 224, 3]\<rparr>,
  \<lparr>load_file_offset = 124, load_address = 0, load_physical_address = 0, load_file_size = 8\<rparr>)]"
  by (simp add: program_table_def elf_u32_def elf_u16_def small_elf_def le32_def le16_def read_program_header_def inside_def
    file_slice_def slice_bytes_def)

lemma small_elf_sections: "section_table small_elf = Inr ([\<lparr>header_name = 0, header_type = 1, header_flags = 6,
     header_address = 0, header_offset = 124, header_size = 8, header_info = 0\<rparr>], [0, 0, 0, 0, 8, 0, 224, 3])"
  by (simp add: section_table_def elf_u32_def elf_u16_def small_elf_def le32_def le16_def read_section_header_def inside_def
    file_slice_def slice_bytes_def)

definition small_image :: ElfImage where
  "small_image = \<lparr>elf_entry = 0, preferred_base = 0, gp_pointer_offset = 0xffffffff, gp_value_offset = 0,
     executable_sections = [\<lparr>section_name = [], section_address = 0, section_bytes = [0, 0, 0, 0, 8, 0, 224, 3]\<rparr>],
     load_segments = [\<lparr>program_index = 0, segment_address = 0, segment_memory_size = 16,
       segment_flags = 5, segment_bytes = [0, 0, 0, 0, 8, 0, 224, 3]\<rparr>],
     elf_relocations = [], elf_imports = []\<rparr>"

lemma small_elf_loads: "load_elf (Some small_elf) = Inr small_image"
proof -
  have c: "check_header small_elf = Inr ()" "elf_u32 small_elf 24 = Inr 0" "elf_u16 small_elf 16 = Inr 2"
    by (simp_all add: check_header_def elf_u16_def elf_u32_def small_elf_def le16_def le32_def)
  have m: "\<exists>flat. memory_image (load_segments small_image) = Inr flat"
    by (simp add: small_image_def memory_image_def memory_size_of_def)
  have i: "inside small_elf 124 8" "file_slice small_elf 124 8 = [0, 0, 0, 0, 8, 0, 224, 3]"
    by (simp_all add: inside_def file_slice_def slice_bytes_def small_elf_def)
  show ?thesis using m
    by (auto simp: load_elf_def c small_elf_programs small_elf_sections rebase_def user_segment_def psp_user_base_def
      read_executables_def executable_header_def read_executable_def i string_at_def read_relocations_def
      find_module_info_def small_image_def)
qed

lemma elf_image_well_formed_witness:
  "load_elf (Some small_elf) = Inr small_image \<and> (\<exists>flat. memory_image (load_segments small_image) = Inr flat)"
  using elf_image_well_formed [OF small_elf_loads] small_elf_loads by blast

end
