(* ===== verification/Emitter.thy ===== *)
theory Emitter
  imports Interpreter_Properties Elf_Loader Sha256
begin

text \<open>
  The translator of one instruction: \<open>emit_instruction\<close> of \<open>src/emitter/instruction.cpp\<close> and the
  texts of \<open>src/emitter/format.cpp\<close> it uses. The C++ function appends pieces of text to a
  stream. Here it returns the statement whose text that is, \<open>lower_instruction\<close>, and
  \<open>emit_instruction\<close> is that statement written out by \<open>stmt_text\<close>, character for character
  what the C++ function returns. What the statements mean, in the generated program, is the
  subject of theory \<open>Translation\<close>.
\<close>

section \<open>Numbers as text\<close>

definition hex_digits :: "nat \<Rightarrow> u32 \<Rightarrow> string" where
  "hex_digits n v = map (\<lambda>k. hex_character (unat (drop_bit (4 * (n - 1 - k)) v AND 15))) [0..<n]"

definition hex :: "u32 \<Rightarrow> string" where
  "hex v = ''0x'' @ hex_digits 8 v @ ''U''"

definition hex_address :: "u32 \<Rightarrow> string" where
  "hex_address v = ''0x'' @ hex_digits 8 v"

definition pc_label :: "u32 \<Rightarrow> string" where
  "pc_label v = ''pc_'' @ hex_digits 8 v"

fun decimal :: "nat \<Rightarrow> string" where
  "decimal n = (if n < 10 then [hex_character n] else decimal (n div 10) @ [hex_character (n mod 10)])"

declare decimal.simps [simp del]

definition number :: "u32 \<Rightarrow> string" where
  "number v = decimal (unat v)"

section \<open>The statements of the generated program\<close>

text \<open>Expressions of type \<open>std::uint32_t\<close>, conditions, assignable places and statements.\<close>

datatype wexp =
    Gpr u32 | Fpr u32 | Fcr31 | Hi | Lo
  | Hex u32 | Dec u32 | Number u32
  | Relative u32
  | Immediate_at u32 | Signed_immediate_at u32 | Branch_target_at u32 | Jump_target_at u32
  | Plus wexp wexp | Minus wexp wexp | And wexp wexp | Or wexp wexp | Xor wexp wexp | Nor wexp wexp
  | Shl wexp wexp | Shr wexp wexp | Low5 wexp
  | Rotate wexp wexp | Sar wexp wexp
  | Flag cexp | Choose cexp wexp wexp
  | Count_zero wexp | Count_one wexp | Reverse wexp | Byte_swap wexp | Swap_halves wexp
  | Extend8 wexp | Extend16 wexp
  | Insert_field wexp u32 wexp u32 | Extract_field wexp u32 u32
  | Rounded u32 wexp
and cexp =
    Equal wexp wexp | Unequal wexp wexp | Below wexp wexp
  | Less_signed wexp wexp | Greater_signed wexp wexp
  | At_most_zero wexp | Above_zero wexp | At_least_zero wexp | Below_zero wexp
  | Less_immediate wexp u32 | Less_immediate_at wexp u32
  | Condition_is u32 bool

datatype destination = To_gpr u32 | To_fpr u32 | To_fcr31 | To_hi | To_lo

datatype float_operation = Float_add | Float_subtract | Float_multiply | Float_divide

datatype load_kind = Load_s8 | Load_s16 | Load_left | Load_word | Load_u8 | Load_u16 | Load_right

datatype store_kind = Store_byte | Store_half | Store_left | Store_word | Store_right

datatype hi_lo_operation = Mult | Multu | Div | Divu | Madd | Maddu | Msub | Msubu

datatype stmt =
    Comment string
  | Assign destination wexp
  | Take_branch wexp
  | Set_pc wexp
  | Seq stmt stmt
  | If cexp stmt
  | If_else cexp stmt stmt
  | Stop_invalid string
  | Raise_syscall
  | Hi_lo hi_lo_operation u32 u32
  | Float float_operation u32 u32 u32
  | Float_sqrt u32 u32
  | Float_convert u32 u32
  | Float_compare u32 u32 u32 u32
  | Load load_kind u32 wexp
  | Discard load_kind wexp
  | Load_fpr u32 wexp
  | Store store_kind wexp wexp
  | Vfpu_fallback u32 u32
  | Vfpu_guarded VfpuStaticOperation u32 u32

section \<open>Their text\<close>

definition gpr_text :: "u32 \<Rightarrow> string" where
  "gpr_text i = ''state.gpr['' @ number i @ '']''"

definition fpr_text :: "u32 \<Rightarrow> string" where
  "fpr_text i = ''state.fpr['' @ number i @ '']''"

definition f32_text :: "u32 \<Rightarrow> string" where
  "f32_text i = ''f32(state, '' @ number i @ '')''"

definition signed_text :: "string \<Rightarrow> string" where
  "signed_text t = ''as_s32('' @ t @ '')''"

definition helper_text :: "string \<Rightarrow> u32 \<Rightarrow> string" where
  "helper_text f i = f @ ''(state, current_pc, '' @ hex i @ '')''"

fun wexp_text :: "wexp \<Rightarrow> string" and cexp_text :: "cexp \<Rightarrow> string" where
  "wexp_text (Gpr i) = gpr_text i"
| "wexp_text (Fpr i) = fpr_text i"
| "wexp_text Fcr31 = ''state.fcr31''"
| "wexp_text Hi = ''state.hi''"
| "wexp_text Lo = ''state.lo''"
| "wexp_text (Hex v) = hex v"
| "wexp_text (Dec v) = number v @ ''U''"
| "wexp_text (Number v) = number v"
| "wexp_text (Relative v) = ''state.memory_base + '' @ hex v"
| "wexp_text (Immediate_at i) = helper_text ''instruction_immediate'' i"
| "wexp_text (Signed_immediate_at i) = helper_text ''instruction_signed_immediate'' i"
| "wexp_text (Branch_target_at i) = helper_text ''instruction_branch_target'' i"
| "wexp_text (Jump_target_at i) = helper_text ''instruction_jump_target'' i"
| "wexp_text (Plus a b) = wexp_text a @ '' + '' @ wexp_text b"
| "wexp_text (Minus a b) = wexp_text a @ '' - '' @ wexp_text b"
| "wexp_text (And a b) = wexp_text a @ '' & '' @ wexp_text b"
| "wexp_text (Or a b) = wexp_text a @ '' | '' @ wexp_text b"
| "wexp_text (Xor a b) = wexp_text a @ '' ^ '' @ wexp_text b"
| "wexp_text (Nor a b) = ''~('' @ wexp_text a @ '' | '' @ wexp_text b @ '')''"
| "wexp_text (Shl a b) = wexp_text a @ '' << '' @ wexp_text b"
| "wexp_text (Shr a b) = wexp_text a @ '' >> '' @ wexp_text b"
| "wexp_text (Low5 a) = ''('' @ wexp_text a @ '' & 31U)''"
| "wexp_text (Rotate a b) = ''rotate_right('' @ wexp_text a @ '', '' @ wexp_text b @ '')''"
| "wexp_text (Sar a b) = ''arithmetic_shift_right('' @ wexp_text a @ '', '' @ wexp_text b @ '')''"
| "wexp_text (Flag c) = cexp_text c"
| "wexp_text (Choose c a b) = cexp_text c @ '' ? '' @ wexp_text a @ '' : '' @ wexp_text b"
| "wexp_text (Count_zero a) = ''std::countl_zero('' @ wexp_text a @ '')''"
| "wexp_text (Count_one a) = ''std::countl_one('' @ wexp_text a @ '')''"
| "wexp_text (Reverse a) = ''reverse_bits('' @ wexp_text a @ '')''"
| "wexp_text (Byte_swap a) = ''byte_swap('' @ wexp_text a @ '')''"
| "wexp_text (Swap_halves a) = ''(('' @ wexp_text a @ '' & 0xff00ff00U) >> 8U) | (('' @
     wexp_text a @ '' & 0x00ff00ffU) << 8U)''"
| "wexp_text (Extend8 a) = ''static_cast<std::uint32_t>(static_cast<std::int32_t>(static_cast<std::int8_t>('' @
     wexp_text a @ '')))''"
| "wexp_text (Extend16 a) = ''static_cast<std::uint32_t>(static_cast<std::int32_t>(static_cast<std::int16_t>('' @
     wexp_text a @ '')))''"
| "wexp_text (Insert_field a m b position) = ''('' @ wexp_text a @ '' & ~'' @ hex m @ '') | (('' @
     wexp_text b @ '' << '' @ number position @ ''U) & '' @ hex m @ '')''"
| "wexp_text (Extract_field a position m) = ''('' @ wexp_text a @ '' >> '' @ number position @ ''U) & '' @ hex m"
| "wexp_text (Rounded fs mode) = ''rounded_word('' @ f32_text fs @ '', '' @ wexp_text mode @ '')''"
| "cexp_text (Equal a b) = wexp_text a @ '' == '' @ wexp_text b"
| "cexp_text (Unequal a b) = wexp_text a @ '' != '' @ wexp_text b"
| "cexp_text (Below a b) = wexp_text a @ '' < '' @ wexp_text b"
| "cexp_text (Less_signed a b) = signed_text (wexp_text a) @ '' < '' @ signed_text (wexp_text b)"
| "cexp_text (Greater_signed a b) = signed_text (wexp_text a) @ '' > '' @ signed_text (wexp_text b)"
| "cexp_text (At_most_zero a) = signed_text (wexp_text a) @ '' <= 0''"
| "cexp_text (Above_zero a) = signed_text (wexp_text a) @ '' > 0''"
| "cexp_text (At_least_zero a) = signed_text (wexp_text a) @ '' >= 0''"
| "cexp_text (Below_zero a) = signed_text (wexp_text a) @ '' < 0''"
| "cexp_text (Less_immediate a v) = signed_text (wexp_text a) @ '' < static_cast<std::int32_t>('' @ hex v @ '')''"
| "cexp_text (Less_immediate_at a i) = signed_text (wexp_text a) @ '' < '' @
     helper_text ''instruction_signed_immediate_s32'' i"
| "cexp_text (Condition_is cc b) = ''fpu_condition(state, '' @ number cc @ ''U) == '' @
     (if b then ''true'' else ''false'')"

fun destination_text :: "destination \<Rightarrow> string" where
  "destination_text (To_gpr i) = gpr_text i"
| "destination_text (To_fpr i) = fpr_text i"
| "destination_text To_fcr31 = ''state.fcr31''"
| "destination_text To_hi = ''state.hi''"
| "destination_text To_lo = ''state.lo''"

text \<open>The blocks of \<open>mult\<close>, \<open>div\<close> and the multiply-and-add instructions.\<close>

definition signed_product_text :: "u32 \<Rightarrow> u32 \<Rightarrow> string" where
  "signed_product_text a b =
     ''{ const auto product = static_cast<std::int64_t>('' @ signed_text (gpr_text a) @
     '') * static_cast<std::int64_t>('' @ signed_text (gpr_text b) @ ''); ''"

definition unsigned_product_text :: "u32 \<Rightarrow> u32 \<Rightarrow> string" where
  "unsigned_product_text a b =
     ''{ const auto product = static_cast<std::uint64_t>('' @ gpr_text a @
     '') * static_cast<std::uint64_t>('' @ gpr_text b @ ''); ''"

definition accumulator_text :: string where
  "accumulator_text = ''const auto acc = static_cast<std::uint64_t>(state.lo) '' @
     ''| (static_cast<std::uint64_t>(state.hi) << 32U); ''"

definition result_text :: string where
  "result_text = ''state.lo = static_cast<std::uint32_t>(result); '' @
     ''state.hi = static_cast<std::uint32_t>(result >> 32U); }''"

fun hi_lo_text :: "hi_lo_operation \<Rightarrow> u32 \<Rightarrow> u32 \<Rightarrow> string" where
  "hi_lo_text Mult a b = signed_product_text a b @ ''state.lo = static_cast<std::uint32_t>(product); '' @
     ''state.hi = static_cast<std::uint32_t>(static_cast<std::uint64_t>(product) >> 32U); }''"
| "hi_lo_text Multu a b = unsigned_product_text a b @ ''state.lo = static_cast<std::uint32_t>(product); '' @
     ''state.hi = static_cast<std::uint32_t>(product >> 32U); }''"
| "hi_lo_text Div a b =
     ''{ const auto dividend = '' @ signed_text (gpr_text a) @ ''; const auto divisor = '' @
     signed_text (gpr_text b) @ ''; if (divisor == 0) { state.lo = dividend < 0 ? 1U : '' @
     ''0xffffffffU; state.hi = static_cast<std::uint32_t>(dividend); } '' @
     ''else if (static_cast<std::uint32_t>(dividend) == 0x80000000U && '' @
     ''divisor == -1) { state.lo = 0x80000000U; state.hi = 0xffffffffU; } '' @
     ''else { state.lo = static_cast<std::uint32_t>(dividend / divisor); state.hi '' @
     ''= static_cast<std::uint32_t>(dividend % divisor); } }''"
| "hi_lo_text Divu a b =
     ''{ const auto divisor = '' @ gpr_text b @ ''; const auto dividend = '' @ gpr_text a @
     ''; if (divisor == 0) { state.lo = dividend <= 0xffffU ? 0xffffU : 0xffffffffU; state.hi = dividend; } '' @
     ''else { state.lo = dividend / divisor; state.hi = dividend % divisor; } }''"
| "hi_lo_text Madd a b = signed_product_text a b @ accumulator_text @
     ''const auto result = static_cast<std::uint64_t>(static_cast<std::int64_t>(acc) + product); '' @ result_text"
| "hi_lo_text Maddu a b = unsigned_product_text a b @ accumulator_text @
     ''const auto result = acc + product; '' @ result_text"
| "hi_lo_text Msub a b = signed_product_text a b @ accumulator_text @
     ''const auto result = static_cast<std::uint64_t>(static_cast<std::int64_t>(acc) - product); '' @ result_text"
| "hi_lo_text Msubu a b = unsigned_product_text a b @ accumulator_text @
     ''const auto result = acc - product; '' @ result_text"

fun float_sign :: "float_operation \<Rightarrow> string" where
  "float_sign Float_add = '' + ''"
| "float_sign Float_subtract = '' - ''"
| "float_sign Float_multiply = '' * ''"
| "float_sign Float_divide = '' / ''"

definition set_f32_text :: "u32 \<Rightarrow> string \<Rightarrow> string" where
  "set_f32_text fd value = ''set_f32(state, '' @ number fd @ '', '' @ value @ '');''"

text \<open>A load: the call, and the conversion around it when its value is used.\<close>

fun load_call :: "load_kind \<Rightarrow> string \<Rightarrow> string \<Rightarrow> string" where
  "load_call Load_left address old = ''load_word_left(state, '' @ address @ '', '' @ old @ '')''"
| "load_call Load_right address old = ''load_word_right(state, '' @ address @ '', '' @ old @ '')''"
| "load_call Load_word address old = ''PSPRECOMP_LOAD32(state, '' @ address @ '')''"
| "load_call Load_s8 address old = ''PSPRECOMP_LOAD8(state, '' @ address @ '')''"
| "load_call Load_u8 address old = ''PSPRECOMP_LOAD8(state, '' @ address @ '')''"
| "load_call Load_s16 address old = ''PSPRECOMP_LOAD16(state, '' @ address @ '')''"
| "load_call Load_u16 address old = ''PSPRECOMP_LOAD16(state, '' @ address @ '')''"

definition load_value :: "load_kind \<Rightarrow> string \<Rightarrow> string" where
  "load_value k call =
     (if k = Load_s8 then ''static_cast<std::uint32_t>(static_cast<std::int32_t>(static_cast<std::int8_t>('' @ call @ '')))''
      else if k = Load_s16 then ''static_cast<std::uint32_t>(static_cast<std::int32_t>(static_cast<std::int16_t>('' @ call @ '')))''
      else call)"

fun store_text :: "store_kind \<Rightarrow> string \<Rightarrow> string \<Rightarrow> string" where
  "store_text Store_byte address v = ''PSPRECOMP_STORE8(state, '' @ address @ '', static_cast<std::uint8_t>('' @ v @ ''));''"
| "store_text Store_half address v = ''PSPRECOMP_STORE16(state, '' @ address @ '', static_cast<std::uint16_t>('' @ v @ ''));''"
| "store_text Store_left address v = ''store_word_left(state, '' @ address @ '', '' @ v @ '');''"
| "store_text Store_word address v = ''PSPRECOMP_STORE32(state, '' @ address @ '', '' @ v @ '');''"
| "store_text Store_right address v = ''store_word_right(state, '' @ address @ '', '' @ v @ '');''"

fun operation_name :: "VfpuStaticOperation \<Rightarrow> string result" where
  "operation_name Vfpu_add = Inr ''add''"
| "operation_name Vfpu_subtract = Inr ''subtract''"
| "operation_name Vfpu_multiply = Inr ''multiply''"
| "operation_name Vfpu_dot = Inr ''dot''"
| "operation_name Vfpu_move = Inr ''move''"
| "operation_name Vfpu_none = Inl ''invalid static VFPU operation''"

definition fallback_text :: "u32 \<Rightarrow> u32 \<Rightarrow> string" where
  "fallback_text i address = ''execute_vfpu(state, '' @ hex i @ '', state.memory_base + '' @ hex address @ '');''"

definition emit_guarded_vfpu :: "u32 \<Rightarrow> u32 \<Rightarrow> VfpuStaticOperation \<Rightarrow> string result" where
  "emit_guarded_vfpu address i operation =
     bind_result (operation_name operation) (\<lambda>n.
       Inr (''if (vfpu_prefixes_identity(state)) { '' @
         ''execute_vfpu_prefix_free<VfpuStaticOperation::'' @ n @ '', '' @ decimal (vfpu_size i) @ ''>(state, '' @
         number (vd_of i) @ ''U, '' @ number (vs_of i) @ ''U, '' @ number (vt_of i) @
         ''U); note_vfpu_static_lowering(state); } else { '' @
         ''note_vfpu_helper_fallback(state); '' @ fallback_text i address @ '' }''))"

fun stmt_text :: "stmt \<Rightarrow> string result" where
  "stmt_text (Comment t) = Inr t"
| "stmt_text (Assign p e) = Inr (destination_text p @ '' = '' @ wexp_text e @ '';'')"
| "stmt_text (Take_branch e) =
     Inr (''state.branch_pending = true; state.branch_target = '' @ wexp_text e @ '';'')"
| "stmt_text (Set_pc e) = Inr (''state.pc = '' @ wexp_text e @ '';'')"
| "stmt_text (Seq a b) = bind_result (stmt_text a) (\<lambda>a. bind_result (stmt_text b) (\<lambda>b. Inr (a @ '' '' @ b)))"
| "stmt_text (If c a) = bind_result (stmt_text a) (\<lambda>a. Inr (''if ('' @ cexp_text c @ '') { '' @ a @ '' }''))"
| "stmt_text (If_else c a b) = bind_result (stmt_text a) (\<lambda>a. bind_result (stmt_text b) (\<lambda>b.
     Inr (''if ('' @ cexp_text c @ '') { '' @ a @ '' } else { '' @ b @ '' }'')))"
| "stmt_text (Stop_invalid t) = Inr (t @ '' state.stop_reason = StopReason::invalid_pc;'')"
| "stmt_text Raise_syscall = Inr ''state.stop_reason = StopReason::syscall;''"
| "stmt_text (Hi_lo k a b) = Inr (hi_lo_text k a b)"
| "stmt_text (Float k fd fs ft) = Inr (set_f32_text fd (f32_text fs @ float_sign k @ f32_text ft))"
| "stmt_text (Float_sqrt fd fs) = Inr (set_f32_text fd (''std::sqrt('' @ f32_text fs @ '')''))"
| "stmt_text (Float_convert fd fs) = Inr (set_f32_text fd (''static_cast<float>('' @ signed_text (fpr_text fs) @ '')''))"
| "stmt_text (Float_compare cc fs ft k) = Inr (''compare_f32(state, '' @ number cc @ ''U, '' @ f32_text fs @ '', '' @
     f32_text ft @ '', '' @ number k @ ''U);'')"
| "stmt_text (Load k t a) =
     Inr (gpr_text t @ '' = '' @ load_value k (load_call k (wexp_text a) (gpr_text t)) @ '';'')"
| "stmt_text (Discard k a) = Inr (''static_cast<void>('' @ load_call k (wexp_text a) ''0'' @ '');'')"
| "stmt_text (Load_fpr t a) = Inr (fpr_text t @ '' = '' @ load_call Load_word (wexp_text a) [] @ '';'')"
| "stmt_text (Store k a v) = Inr (store_text k (wexp_text a) (wexp_text v))"
| "stmt_text (Vfpu_fallback i address) = Inr (fallback_text i address)"
| "stmt_text (Vfpu_guarded operation i address) = emit_guarded_vfpu address i operation"

section \<open>The translation\<close>

definition nop :: stmt where "nop = Comment ''/* nop */''"

definition unsupported :: stmt where
  "unsupported = Stop_invalid ''/* unsupported/reserved PSP word */''"

text \<open>Every case that writes a general register does nothing when it is register 0.\<close>

definition to_gpr :: "u32 \<Rightarrow> wexp \<Rightarrow> stmt" where
  "to_gpr i e = (if i = 0 then nop else Assign (To_gpr i) e)"

definition emitted_immediate :: "u32 \<Rightarrow> bool \<Rightarrow> wexp" where
  "emitted_immediate i relocated = (if \<not> relocated then Hex (i AND 0xffff) else Immediate_at i)"

definition low_half_signed :: "u32 \<Rightarrow> u32" where
  "low_half_signed i = scast (ucast (i AND 0xffff) :: u16)"

definition emitted_signed_immediate :: "u32 \<Rightarrow> bool \<Rightarrow> wexp" where
  "emitted_signed_immediate i relocated =
     (if \<not> relocated then Hex (low_half_signed i) else Signed_immediate_at i)"

definition emitted_less_immediate :: "wexp \<Rightarrow> u32 \<Rightarrow> bool \<Rightarrow> cexp" where
  "emitted_less_immediate a i relocated =
     (if \<not> relocated then Less_immediate a (low_half_signed i) else Less_immediate_at a i)"

definition emitted_branch_target :: "u32 \<Rightarrow> u32 \<Rightarrow> bool \<Rightarrow> wexp" where
  "emitted_branch_target address i relocated =
     (if \<not> relocated then Relative (address + 4 + scast (ucast i :: u16) * 4) else Branch_target_at i)"

definition emitted_jump_target :: "u32 \<Rightarrow> u32 \<Rightarrow> bool \<Rightarrow> u32 \<Rightarrow> wexp" where
  "emitted_jump_target address i relocated base =
     (if \<not> relocated then
        Relative ((((address + base + 4) AND 0xf0000000) OR push_bit 2 (i AND 0x03ffffff)) - base)
      else Jump_target_at i)"

definition emitted_address :: "DecodedInstruction \<Rightarrow> u32 \<Rightarrow> bool \<Rightarrow> wexp" where
  "emitted_address d i relocated = Plus (Gpr (rs d)) (emitted_signed_immediate i relocated)"

definition emitted_branch :: "cexp \<Rightarrow> bool \<Rightarrow> u32 \<Rightarrow> u32 \<Rightarrow> bool \<Rightarrow> stmt" where
  "emitted_branch c likely address i relocated =
     (let take = Take_branch (emitted_branch_target address i relocated) in
      if likely then If_else c take (Set_pc (Relative (address + 8))) else If c take)"

definition emitted_link :: "u32 \<Rightarrow> stmt" where
  "emitted_link address = Assign (To_gpr 31) (Relative (address + 8))"

definition lower_special :: "DecodedInstruction \<Rightarrow> u32 \<Rightarrow> stmt" where
  "lower_special d address =
     (let f = function_field d; a = Gpr (rs d); b = Gpr (rt d) in
      if f = 0x00 then to_gpr (rd d) (Shl b (Dec (shift d)))
      else if f = 0x02 then
        (if rs d = 1 then to_gpr (rd d) (Rotate b (Dec (shift d)))
         else if rs d = 0 then to_gpr (rd d) (Shr b (Dec (shift d))) else unsupported)
      else if f = 0x03 then to_gpr (rd d) (Sar b (Dec (shift d)))
      else if f = 0x04 then to_gpr (rd d) (Shl b (Low5 a))
      else if f = 0x06 then
        (if shift d = 1 then to_gpr (rd d) (Rotate b a)
         else if shift d = 0 then to_gpr (rd d) (Shr b (Low5 a)) else unsupported)
      else if f = 0x07 then to_gpr (rd d) (Sar b a)
      else if f = 0x08 then Take_branch a
      else if f = 0x09 then
        (if rd d \<noteq> 0 then Seq (Assign (To_gpr (rd d)) (Relative (address + 8))) (Take_branch a) else Take_branch a)
      else if f = 0x0a then (if rd d = 0 then nop else If (Equal b (Number 0)) (Assign (To_gpr (rd d)) a))
      else if f = 0x0b then (if rd d = 0 then nop else If (Unequal b (Number 0)) (Assign (To_gpr (rd d)) a))
      else if f = 0x0c then Raise_syscall
      else if f = 0x0d then Comment ''/* break: ignored like PPSSPP's default exception policy */''
      else if f = 0x0f then Comment ''/* sync: generated C++ executes in order */''
      else if f = 0x10 then to_gpr (rd d) Hi
      else if f = 0x11 then Assign To_hi a
      else if f = 0x12 then to_gpr (rd d) Lo
      else if f = 0x13 then Assign To_lo a
      else if f = 0x16 then to_gpr (rd d) (Count_zero a)
      else if f = 0x17 then to_gpr (rd d) (Count_one a)
      else if f = 0x18 then Hi_lo Mult (rs d) (rt d)
      else if f = 0x19 then Hi_lo Multu (rs d) (rt d)
      else if f = 0x1a then Hi_lo Div (rs d) (rt d)
      else if f = 0x1b then Hi_lo Divu (rs d) (rt d)
      else if f = 0x1c then Hi_lo Madd (rs d) (rt d)
      else if f = 0x1d then Hi_lo Maddu (rs d) (rt d)
      else if f = 0x20 \<or> f = 0x21 then to_gpr (rd d) (Plus a b)
      else if f = 0x22 \<or> f = 0x23 then to_gpr (rd d) (Minus a b)
      else if f = 0x24 then to_gpr (rd d) (And a b)
      else if f = 0x25 then to_gpr (rd d) (Or a b)
      else if f = 0x26 then to_gpr (rd d) (Xor a b)
      else if f = 0x27 then to_gpr (rd d) (Nor a b)
      else if f = 0x2a then to_gpr (rd d) (Flag (Less_signed a b))
      else if f = 0x2b then to_gpr (rd d) (Flag (Below a b))
      else if f = 0x2c then to_gpr (rd d) (Choose (Greater_signed a b) a b)
      else if f = 0x2d then to_gpr (rd d) (Choose (Less_signed a b) a b)
      else if f = 0x2e then Hi_lo Msub (rs d) (rt d)
      else if f = 0x2f then Hi_lo Msubu (rs d) (rt d)
      else unsupported)"

definition lower_regimm :: "DecodedInstruction \<Rightarrow> u32 \<Rightarrow> u32 \<Rightarrow> bool \<Rightarrow> stmt" where
  "lower_regimm d address i relocated =
     (let t = rt d; a = Gpr (rs d);
          ge = (t = 0x01 \<or> t = 0x03 \<or> t = 0x11 \<or> t = 0x13);
          link = (t = 0x10 \<or> t = 0x11 \<or> t = 0x12 \<or> t = 0x13);
          likely = (t = 0x02 \<or> t = 0x03 \<or> t = 0x12 \<or> t = 0x13);
          test = emitted_branch (if ge then At_least_zero a else Below_zero a) likely address i relocated in
      if t \<noteq> 0x00 \<and> t \<noteq> 0x01 \<and> t \<noteq> 0x02 \<and> t \<noteq> 0x03 \<and>
         t \<noteq> 0x10 \<and> t \<noteq> 0x11 \<and> t \<noteq> 0x12 \<and> t \<noteq> 0x13
      then Stop_invalid ''/* reserved REGIMM word in executable data */''
      else if link then Seq (emitted_link address) test else test)"

definition lower_jump :: "DecodedInstruction \<Rightarrow> u32 \<Rightarrow> u32 \<Rightarrow> bool \<Rightarrow> u32 \<Rightarrow> stmt" where
  "lower_jump d address i relocated base =
     (let jump = Take_branch (emitted_jump_target address i relocated base) in
      if op d = 0x03 then Seq (emitted_link address) jump else jump)"

definition lower_branch :: "DecodedInstruction \<Rightarrow> u32 \<Rightarrow> u32 \<Rightarrow> bool \<Rightarrow> stmt" where
  "lower_branch d address i relocated =
     (let a = Gpr (rs d); b = Gpr (rt d) in
      if op d = 0x04 then emitted_branch (Equal a b) False address i relocated
      else if op d = 0x05 then emitted_branch (Unequal a b) False address i relocated
      else if op d = 0x06 then emitted_branch (At_most_zero a) False address i relocated
      else if op d = 0x07 then emitted_branch (Above_zero a) False address i relocated
      else if op d = 0x14 then emitted_branch (Equal a b) True address i relocated
      else if op d = 0x15 then emitted_branch (Unequal a b) True address i relocated
      else if op d = 0x16 then emitted_branch (At_most_zero a) True address i relocated
      else emitted_branch (Above_zero a) True address i relocated)"

definition lower_special2 :: "DecodedInstruction \<Rightarrow> stmt" where
  "lower_special2 d =
     (let f = function_field d; a = Gpr (rs d); b = Gpr (rt d) in
      if f = 0x20 then to_gpr (rd d) (Count_zero a)
      else if f = 0x21 then to_gpr (rd d) (Count_one a)
      else if f = 0x2c then to_gpr (rd d) (Choose (Greater_signed a b) a b)
      else if f = 0x2d then to_gpr (rd d) (Choose (Less_signed a b) a b)
      else unsupported)"

definition lower_immediate :: "DecodedInstruction \<Rightarrow> u32 \<Rightarrow> bool \<Rightarrow> stmt" where
  "lower_immediate d i relocated =
     (let a = Gpr (rs d); unsigned = emitted_immediate i relocated; signed = emitted_signed_immediate i relocated in
      if op d = 0x08 \<or> op d = 0x09 then to_gpr (rt d) (Plus a signed)
      else if op d = 0x0a then to_gpr (rt d) (Flag (emitted_less_immediate a i relocated))
      else if op d = 0x0b then to_gpr (rt d) (Flag (Below a signed))
      else if op d = 0x0c then to_gpr (rt d) (And a unsigned)
      else if op d = 0x0d then to_gpr (rt d) (Or a unsigned)
      else if op d = 0x0e then to_gpr (rt d) (Xor a unsigned)
      else to_gpr (rt d) (Shl unsigned (Dec 16)))"

definition lower_fpu_operation :: "DecodedInstruction \<Rightarrow> u32 \<Rightarrow> stmt" where
  "lower_fpu_operation d i =
     (let f = function_field d; ft = rt d; fs = rd d; fd = shift d in
      if f = 0x00 then Float Float_add fd fs ft
      else if f = 0x01 then Float Float_subtract fd fs ft
      else if f = 0x02 then Float Float_multiply fd fs ft
      else if f = 0x03 then Float Float_divide fd fs ft
      else if f = 0x04 then Float_sqrt fd fs
      else if f = 0x05 then Assign (To_fpr fd) (And (Fpr fs) (Hex 0x7fffffff))
      else if f = 0x06 then Assign (To_fpr fd) (Fpr fs)
      else if f = 0x07 then Assign (To_fpr fd) (Xor (Fpr fs) (Hex 0x80000000))
      else if f = 0x0c then Assign (To_fpr fd) (Rounded fs (Number 0))
      else if f = 0x0d then Assign (To_fpr fd) (Rounded fs (Number 1))
      else if f = 0x0e then Assign (To_fpr fd) (Rounded fs (Number 2))
      else if f = 0x0f then Assign (To_fpr fd) (Rounded fs (Number 3))
      else if f = 0x11 then
        If (Condition_is (drop_bit 2 ft AND 7) (ft AND 1 \<noteq> 0)) (Assign (To_fpr fd) (Fpr fs))
      else if f = 0x20 then Assign (To_fpr fd) (Fpr fs)
      else if f = 0x24 then Assign (To_fpr fd) (Rounded fs (And Fcr31 (Dec 3)))
      else if 0x30 \<le> f then Float_compare (drop_bit 8 i AND 7) fs ft (f AND 15)
      else unsupported)"

definition lower_cop1 :: "DecodedInstruction \<Rightarrow> u32 \<Rightarrow> u32 \<Rightarrow> bool \<Rightarrow> stmt" where
  "lower_cop1 d address i relocated =
     (let fmt = rs d; fs = rd d; fd = shift d in
      if fmt = 0x00 then to_gpr (rt d) (Fpr fs)
      else if fmt = 0x02 then
        (if rt d = 0 then nop
         else if fs = 0 then Assign (To_gpr (rt d)) (Hex 0x00003351)
         else if fs = 31 then Assign (To_gpr (rt d)) Fcr31
         else Assign (To_gpr (rt d)) (Number 0))
      else if fmt = 0x04 then Assign (To_fpr fs) (Gpr (rt d))
      else if fmt = 0x06 then
        (if fs = 31 then Assign To_fcr31 (Gpr (rt d)) else Comment ''/* write to unimplemented FCR ignored */'')
      else if fmt = 0x08 then
        emitted_branch (Condition_is (drop_bit 2 (rt d) AND 7) (rt d AND 1 \<noteq> 0)) (rt d AND 2 \<noteq> 0)
          address i relocated
      else if fmt = 0x10 then lower_fpu_operation d i
      else if fmt = 0x14 \<and> function_field d = 0x20 then Float_convert fd fs
      else unsupported)"

definition lower_load :: "load_kind \<Rightarrow> DecodedInstruction \<Rightarrow> u32 \<Rightarrow> bool \<Rightarrow> stmt" where
  "lower_load k d i relocated =
     (let address = emitted_address d i relocated in
      if rt d = 0 then Discard k address else Load k (rt d) address)"

definition lower_memory :: "DecodedInstruction \<Rightarrow> u32 \<Rightarrow> bool \<Rightarrow> stmt" where
  "lower_memory d i relocated =
     (let address = emitted_address d i relocated; b = Gpr (rt d) in
      if op d = 0x20 then lower_load Load_s8 d i relocated
      else if op d = 0x21 then lower_load Load_s16 d i relocated
      else if op d = 0x22 then lower_load Load_left d i relocated
      else if op d = 0x23 then lower_load Load_word d i relocated
      else if op d = 0x24 then lower_load Load_u8 d i relocated
      else if op d = 0x25 then lower_load Load_u16 d i relocated
      else if op d = 0x26 then lower_load Load_right d i relocated
      else if op d = 0x28 then Store Store_byte address b
      else if op d = 0x29 then Store Store_half address b
      else if op d = 0x2a then Store Store_left address b
      else if op d = 0x2b then Store Store_word address b
      else if op d = 0x2e then Store Store_right address b
      else if op d = 0x2f then Comment ''/* cache: no generated-runtime cache */''
      else if op d = 0x30 then lower_load Load_word d i relocated
      else if op d = 0x38 then
        (if rt d \<noteq> 0 then Seq (Store Store_word address b) (Assign (To_gpr (rt d)) (Dec 1))
         else Store Store_word address b)
      else if op d = 0x31 then Load_fpr (rt d) address
      else if op d = 0x39 then Store Store_word address (Fpr (rt d))
      else unsupported)"

definition lower_special3 :: "DecodedInstruction \<Rightarrow> stmt" where
  "lower_special3 d =
     (let f = function_field d; a = Gpr (rs d); b = Gpr (rt d) in
      if f = 0x20 \<and> shift d = 0x14 then to_gpr (rd d) (Reverse b)
      else if f = 0x20 \<and> shift d = 0x02 then to_gpr (rd d) (Swap_halves b)
      else if f = 0x20 \<and> shift d = 0x03 then to_gpr (rd d) (Byte_swap b)
      else if f = 0x20 \<and> shift d = 0x10 then to_gpr (rd d) (Extend8 b)
      else if f = 0x20 \<and> shift d = 0x18 then to_gpr (rd d) (Extend16 b)
      else if f \<noteq> 0 then
        (if f = 4 \<and> shift d \<le> rd d then
           (if rt d = 0 then nop
            else let width = rd d - shift d + 1;
                     m = (if width = 32 then 0xffffffff else push_bit (unat width) 1 - 1);
                     positioned = push_bit (unat (shift d)) m
              in Assign (To_gpr (rt d)) (Insert_field b positioned a (shift d)))
         else unsupported)
      else if rt d = 0 then nop
      else let width = rd d + 1; m = (if width = 32 then 0xffffffff else push_bit (unat width) 1 - 1)
        in Assign (To_gpr (rt d)) (Extract_field a (shift d) m))"

definition lower_instruction :: "u32 \<Rightarrow> u32 \<Rightarrow> bool \<Rightarrow> u32 \<Rightarrow> stmt" where
  "lower_instruction address i relocated base =
     (let d = decode_allegrex i in
      if \<not> valid d then unsupported
      else if lowering d = Guarded_native then Vfpu_guarded (vfpu_static_operation i) i address
      else if lowering d = Runtime_fallback then Vfpu_fallback i address
      else if op d = 0x00 then lower_special d address
      else if op d = 0x01 then lower_regimm d address i relocated
      else if op d = 0x02 \<or> op d = 0x03 then lower_jump d address i relocated base
      else if 0x04 \<le> op d \<and> op d \<le> 0x07 \<or> 0x14 \<le> op d \<and> op d \<le> 0x17 then lower_branch d address i relocated
      else if op d = 0x1c then lower_special2 d
      else if 0x08 \<le> op d \<and> op d \<le> 0x0f then lower_immediate d i relocated
      else if op d = 0x11 then lower_cop1 d address i relocated
      else if op d = 0x1f then lower_special3 d
      else lower_memory d i relocated)"

definition emit_instruction :: "u32 \<Rightarrow> u32 \<Rightarrow> bool \<Rightarrow> u32 \<Rightarrow> string result" where
  "emit_instruction address i relocated base = stmt_text (lower_instruction address i relocated base)"

definition opcode_group :: "u32 \<Rightarrow> string" where
  "opcode_group i =
     (let d = decode_allegrex i; opc = drop_bit 26 i in
      if valid d then name d
      else ''op_'' @ hex_digits 2 opc @
        (if opc = 0 then ''_special_'' @ hex_digits 2 (i AND 63)
         else if opc = 1 then ''_regimm_'' @ hex_digits 2 (drop_bit 16 i AND 31)
         else if 0x10 \<le> opc \<and> opc \<le> 0x12 then ''_rs_'' @ hex_digits 2 (drop_bit 21 i AND 31)
         else []))"

end
