(* ===== verification/Translation.thy ===== *)
theory Translation
  imports Emitter
begin

text \<open>
  What the statements of theory \<open>Emitter\<close> do: they are C++ that calls the helpers of
  \<open>include/psprecomp/runtime.hpp\<close>, so their meaning is a function on \<open>State\<close>.
\<close>

fun word_value :: "State \<Rightarrow> u32 \<Rightarrow> wexp \<Rightarrow> u32" and condition_value :: "State \<Rightarrow> u32 \<Rightarrow> cexp \<Rightarrow> bool" where
  "word_value s cur (Gpr i) = gpr s (unat i)"
| "word_value s cur (Fpr i) = fpr s (unat i)"
| "word_value s cur Fcr31 = fcr31 s"
| "word_value s cur Hi = hi s"
| "word_value s cur Lo = lo s"
| "word_value s cur (Hex v) = v"
| "word_value s cur (Dec v) = v"
| "word_value s cur (Number v) = v"
| "word_value s cur (Relative v) = memory_base s + v"
| "word_value s cur (Immediate_at i) = instruction_immediate s cur i"
| "word_value s cur (Signed_immediate_at i) = instruction_signed_immediate s cur i"
| "word_value s cur (Branch_target_at i) = instruction_branch_target s cur i"
| "word_value s cur (Jump_target_at i) = instruction_jump_target s cur i"
| "word_value s cur (Plus a b) = word_value s cur a + word_value s cur b"
| "word_value s cur (Minus a b) = word_value s cur a - word_value s cur b"
| "word_value s cur (And a b) = word_value s cur a AND word_value s cur b"
| "word_value s cur (Or a b) = word_value s cur a OR word_value s cur b"
| "word_value s cur (Xor a b) = word_value s cur a XOR word_value s cur b"
| "word_value s cur (Nor a b) = NOT (word_value s cur a OR word_value s cur b)"
| "word_value s cur (Shl a b) = push_bit (unat (word_value s cur b)) (word_value s cur a)"
| "word_value s cur (Shr a b) = drop_bit (unat (word_value s cur b)) (word_value s cur a)"
| "word_value s cur (Low5 a) = word_value s cur a AND 31"
| "word_value s cur (Rotate a b) = rotate_right (word_value s cur a) (word_value s cur b)"
| "word_value s cur (Sar a b) = arithmetic_shift_right (word_value s cur a) (word_value s cur b)"
| "word_value s cur (Flag c) = of_flag (condition_value s cur c)"
| "word_value s cur (Choose c a b) = (if condition_value s cur c then word_value s cur a else word_value s cur b)"
| "word_value s cur (Count_zero a) = countl_zero (word_value s cur a)"
| "word_value s cur (Count_one a) = countl_one (word_value s cur a)"
| "word_value s cur (Reverse a) = reverse_bits (word_value s cur a)"
| "word_value s cur (Byte_swap a) = byteswap32 (word_value s cur a)"
| "word_value s cur (Swap_halves a) =
     drop_bit 8 (word_value s cur a AND 0xff00ff00) OR push_bit 8 (word_value s cur a AND 0x00ff00ff)"
| "word_value s cur (Extend8 a) = scast (ucast (word_value s cur a) :: u8)"
| "word_value s cur (Extend16 a) = scast (ucast (word_value s cur a) :: u16)"
| "word_value s cur (Insert_field a m b position) =
     (word_value s cur a AND NOT m) OR (push_bit (unat position) (word_value s cur b) AND m)"
| "word_value s cur (Extract_field a position m) = drop_bit (unat position) (word_value s cur a) AND m"
| "word_value s cur (Rounded fs mode) = rounded_word (f32 s fs) (word_value s cur mode)"
| "condition_value s cur (Equal a b) \<longleftrightarrow> word_value s cur a = word_value s cur b"
| "condition_value s cur (Unequal a b) \<longleftrightarrow> word_value s cur a \<noteq> word_value s cur b"
| "condition_value s cur (Below a b) \<longleftrightarrow> word_value s cur a < word_value s cur b"
| "condition_value s cur (Less_signed a b) \<longleftrightarrow> as_s32 (word_value s cur a) < as_s32 (word_value s cur b)"
| "condition_value s cur (Greater_signed a b) \<longleftrightarrow> as_s32 (word_value s cur a) > as_s32 (word_value s cur b)"
| "condition_value s cur (At_most_zero a) \<longleftrightarrow> as_s32 (word_value s cur a) \<le> 0"
| "condition_value s cur (Above_zero a) \<longleftrightarrow> as_s32 (word_value s cur a) > 0"
| "condition_value s cur (At_least_zero a) \<longleftrightarrow> as_s32 (word_value s cur a) \<ge> 0"
| "condition_value s cur (Below_zero a) \<longleftrightarrow> as_s32 (word_value s cur a) < 0"
| "condition_value s cur (Less_immediate a v) \<longleftrightarrow> as_s32 (word_value s cur a) < sint v"
| "condition_value s cur (Less_immediate_at a i) \<longleftrightarrow>
     as_s32 (word_value s cur a) < instruction_signed_immediate_s32 s cur i"
| "condition_value s cur (Condition_is cc b) \<longleftrightarrow> fpu_condition s cc = b"

fun assign :: "destination \<Rightarrow> u32 \<Rightarrow> State \<Rightarrow> State" where
  "assign (To_gpr i) v s = set_gpr s i v"
| "assign (To_fpr i) v s = set_fpr s i v"
| "assign To_fcr31 v s = s\<lparr>fcr31 := v\<rparr>"
| "assign To_hi v s = s\<lparr>hi := v\<rparr>"
| "assign To_lo v s = s\<lparr>lo := v\<rparr>"

fun hi_lo_value :: "hi_lo_operation \<Rightarrow> u32 \<Rightarrow> u32 \<Rightarrow> State \<Rightarrow> State" where
  "hi_lo_value Mult a b s = set_hi_lo s (of_int (as_s32 a * as_s32 b))"
| "hi_lo_value Multu a b s = set_hi_lo s (ucast a * ucast b)"
| "hi_lo_value Div a b s =
     (let dividend = as_s32 a; divisor = as_s32 b in
      if divisor = 0 then s\<lparr>lo := (if dividend < 0 then 1 else 0xffffffff), hi := of_int dividend\<rparr>
      else if (of_int dividend :: u32) = 0x80000000 \<and> divisor = -1 then s\<lparr>lo := 0x80000000, hi := 0xffffffff\<rparr>
      else s\<lparr>lo := of_int (dividend sdiv divisor), hi := of_int (dividend smod divisor)\<rparr>)"
| "hi_lo_value Divu a b s =
     (if b = 0 then s\<lparr>lo := (if a \<le> 0xffff then 0xffff else 0xffffffff), hi := a\<rparr>
      else s\<lparr>lo := a div b, hi := a mod b\<rparr>)"
| "hi_lo_value Madd a b s = set_hi_lo s (accumulator s + of_int (as_s32 a * as_s32 b))"
| "hi_lo_value Maddu a b s = set_hi_lo s (accumulator s + ucast a * ucast b)"
| "hi_lo_value Msub a b s = set_hi_lo s (accumulator s - of_int (as_s32 a * as_s32 b))"
| "hi_lo_value Msubu a b s = set_hi_lo s (accumulator s - ucast a * ucast b)"

fun float_value :: "HostFpu \<Rightarrow> float_operation \<Rightarrow> u32 \<Rightarrow> u32 \<Rightarrow> u32" where
  "float_value h Float_add a b = f32_add h a b"
| "float_value h Float_subtract a b = f32_sub h a b"
| "float_value h Float_multiply a b = f32_mul h a b"
| "float_value h Float_divide a b = f32_div h a b"

fun call_load :: "load_kind \<Rightarrow> u32 \<Rightarrow> u32 \<Rightarrow> State \<Rightarrow> u32 \<times> State" where
  "call_load Load_s8 address old s = (let (v, s) = load8 s address in (scast v, s))"
| "call_load Load_u8 address old s = (let (v, s) = load8 s address in (ucast v, s))"
| "call_load Load_s16 address old s = (let (v, s) = load16 s address in (scast v, s))"
| "call_load Load_u16 address old s = (let (v, s) = load16 s address in (ucast v, s))"
| "call_load Load_word address old s = load32 s address"
| "call_load Load_left address old s = load_word_left s address old"
| "call_load Load_right address old s = load_word_right s address old"

fun call_store :: "store_kind \<Rightarrow> u32 \<Rightarrow> u32 \<Rightarrow> State \<Rightarrow> State" where
  "call_store Store_byte address v s = store8 s address (ucast v)"
| "call_store Store_half address v s = store16 s address (ucast v)"
| "call_store Store_left address v s = store_word_left s address v"
| "call_store Store_word address v s = store32 s address v"
| "call_store Store_right address v s = store_word_right s address v"

fun run_stmt :: "HostFpu \<Rightarrow> HostMath \<Rightarrow> u32 \<Rightarrow> stmt \<Rightarrow> State \<Rightarrow> State" where
  "run_stmt h m cur (Comment t) s = s"
| "run_stmt h m cur (Assign p e) s = assign p (word_value s cur e) s"
| "run_stmt h m cur (Take_branch e) s = s\<lparr>branch_pending := True, branch_target := word_value s cur e\<rparr>"
| "run_stmt h m cur (Set_pc e) s = s\<lparr>pc := word_value s cur e\<rparr>"
| "run_stmt h m cur (Seq a b) s = run_stmt h m cur b (run_stmt h m cur a s)"
| "run_stmt h m cur (If c a) s = (if condition_value s cur c then run_stmt h m cur a s else s)"
| "run_stmt h m cur (If_else c a b) s =
     (if condition_value s cur c then run_stmt h m cur a s else run_stmt h m cur b s)"
| "run_stmt h m cur (Stop_invalid t) s = s\<lparr>stop_reason := Invalid_pc\<rparr>"
| "run_stmt h m cur Raise_syscall s = s\<lparr>stop_reason := Syscall\<rparr>"
| "run_stmt h m cur (Hi_lo k a b) s = hi_lo_value k (gpr s (unat a)) (gpr s (unat b)) s"
| "run_stmt h m cur (Float k fd fs ft) s = set_f32 s fd (float_value h k (f32 s fs) (f32 s ft))"
| "run_stmt h m cur (Float_sqrt fd fs) s = set_f32 s fd (f32_sqrt h (f32 s fs))"
| "run_stmt h m cur (Float_convert fd fs) s = set_f32 s fd (f32_of_s32 (as_s32 (fpr s (unat fs))))"
| "run_stmt h m cur (Float_compare cc fs ft k) s = compare_f32 s cc (f32 s fs) (f32 s ft) k"
| "run_stmt h m cur (Load k t a) s =
     (let (v, s) = call_load k (word_value s cur a) (gpr s (unat t)) s in set_gpr s t v)"
| "run_stmt h m cur (Discard k a) s = snd (call_load k (word_value s cur a) 0 s)"
| "run_stmt h m cur (Load_fpr t a) s = (let (v, s) = load32 s (word_value s cur a) in set_fpr s t v)"
| "run_stmt h m cur (Store k a v) s = call_store k (word_value s cur a) (word_value s cur v) s"
| "run_stmt h m cur (Vfpu_fallback i address) s = execute_vfpu h m s i (memory_base s + address)"
| "run_stmt h m cur (Vfpu_guarded operation i address) s =
     (if vfpu_prefixes_identity s
      then execute_vfpu_prefix_free h operation (vfpu_size i) s (vd_of i) (vs_of i) (vt_of i)
      else execute_vfpu h m s i (memory_base s + address))"

section \<open>One case of the translation does what the interpreter does\<close>

text \<open>
  The two may differ in register 0 until the epilogue clears it: the translator leaves out an
  instruction that only writes register 0, the interpreter executes it.
\<close>

definition agrees :: "HostFpu \<Rightarrow> HostMath \<Rightarrow> u32 \<Rightarrow> stmt \<Rightarrow> State \<Rightarrow> State \<Rightarrow> bool" where
  "agrees h m cur st s t \<longleftrightarrow> set_gpr (run_stmt h m cur st s) 0 0 = set_gpr t 0 0"

lemma agrees_if:
  "(b \<Longrightarrow> agrees h m cur x s t) \<Longrightarrow> (\<not> b \<Longrightarrow> agrees h m cur y s t) \<Longrightarrow> agrees h m cur (if b then x else y) s t"
  by simp

lemma agrees_same: "run_stmt h m cur st s = t \<Longrightarrow> agrees h m cur st s t"
  by (simp add: agrees_def)

lemma agrees_to_gpr [simp]: "agrees h m cur (to_gpr i e) s (set_gpr s i v) \<longleftrightarrow> i = 0 \<or> word_value s cur e = v"
proof -
  have "set_gpr (set_gpr s i a) 0 0 = set_gpr (set_gpr s i b) 0 0 \<longleftrightarrow> i = 0 \<or> a = b" for a b
  proof
    assume *: "set_gpr (set_gpr s i a) 0 0 = set_gpr (set_gpr s i b) 0 0"
    then have "gpr (set_gpr (set_gpr s i a) 0 0) (unat i) = gpr (set_gpr (set_gpr s i b) 0 0) (unat i)" by simp
    then show "i = 0 \<or> a = b" by (auto simp: set_gpr_def unat_eq_zero split: if_splits)
  qed (auto simp: set_gpr_def)
  moreover have "set_gpr s 0 0 = set_gpr (set_gpr s 0 v) 0 0" by (simp add: set_gpr_def)
  ultimately show ?thesis by (auto simp: agrees_def to_gpr_def nop_def)
qed

lemma agrees_nop [simp]: "agrees h m cur nop s s" "agrees h m cur nop s (set_gpr s 0 v)"
  "agrees h m cur (Comment t) s s"
  by (simp_all add: agrees_def nop_def set_gpr_def)

lemma reg_fields: "reg s i = gpr s (unat i)" by (simp add: reg_def)

lemma u32_of_s32: "(of_int (as_s32 v) :: u32) = v"
  by (simp add: as_s32_def)

lemma minimum_s32: "a = 0x80000000 \<longleftrightarrow> as_s32 a = - 2147483648"
proof -
  have "sint (0x80000000 :: u32) = - 2147483648" by simp
  then have "as_s32 a = - 2147483648 \<longleftrightarrow> sint a = sint (0x80000000 :: u32)" by (simp add: as_s32_def)
  then show ?thesis by (metis signed_word_eqI)
qed

lemma minimum_bits: "(- 2147483648 :: u32) = 2147483648"
  by simp

lemma agrees_hi_lo:
  "run_stmt h m cur (Hi_lo Mult (rs d) (rt d)) s = exec_mult s d"
  "run_stmt h m cur (Hi_lo Multu (rs d) (rt d)) s = exec_multu s d"
  "run_stmt h m cur (Hi_lo Div (rs d) (rt d)) s = exec_div s d"
  "run_stmt h m cur (Hi_lo Divu (rs d) (rt d)) s = exec_divu s d"
  "run_stmt h m cur (Hi_lo Madd (rs d) (rt d)) s = exec_madd s d"
  "run_stmt h m cur (Hi_lo Maddu (rs d) (rt d)) s = exec_maddu s d"
  "run_stmt h m cur (Hi_lo Msub (rs d) (rt d)) s = exec_msub s d"
  "run_stmt h m cur (Hi_lo Msubu (rs d) (rt d)) s = exec_msubu s d"
  by (simp_all add: exec_mult_def exec_multu_def exec_div_def exec_divu_def exec_madd_def exec_maddu_def exec_msub_def
      exec_msubu_def signed_product_def unsigned_product_def reg_fields Let_def u32_of_s32 minimum_s32 minimum_bits)

lemmas agrees_blocks = agrees_hi_lo [THEN agrees_same]

lemma lower_special_agrees:
  assumes "function_field d \<in> special_functions"
    and "function_field d = 0x02 \<Longrightarrow> rs d = 1 \<or> rs d = 0" "function_field d = 0x06 \<Longrightarrow> shift d = 1 \<or> shift d = 0"
    and "\<not> (function_field d = 0x09 \<and> rd d = rs d \<and> rd d \<noteq> 0)"
    and "cur = memory_base s + address"
  shows "agrees h m cur (lower_special d address) s (exec_special s d cur)"
proof -
  have link: "gpr (set_gpr s (rd d) v) (unat (rs d)) = gpr s (unat (rs d))" if "rd d \<noteq> rs d" for v
    using that by (auto simp: set_gpr_def word_unat_eq_iff)
  show ?thesis
    unfolding lower_special_def Let_def
    apply (intro agrees_if)
    using assms
    apply (simp_all add: exec_special_def Let_def reg_fields agrees_same agrees_blocks signed_max_def signed_min_def link)
    apply (auto simp: special_functions_def)
    apply (rule agrees_same)
    apply (simp add: link add.assoc)
    done
qed

section \<open>Immediates, relocated or not\<close>

text \<open>
  \<open>w\<close> is the word in memory at the address, \<open>i\<close> the word of the file the translator saw. An
  instruction without relocation is the same in both.
\<close>

definition reads_as :: "State \<Rightarrow> u32 \<Rightarrow> u32 \<Rightarrow> bool \<Rightarrow> u32 \<Rightarrow> bool" where
  "reads_as s cur i relocated w \<longleftrightarrow> (if relocated then instruction_word s cur i = w else w = i)"

lemma ucast_low_half: "(ucast (w AND 0xffff) :: u16) = ucast (w :: u32)"
proof -
  have m: "(0xffff :: u32) = mask 16" by (simp add: mask_eq_exp_minus_1)
  show ?thesis unfolding m by (rule bit_word_eqI) (simp add: bit_simps)
qed

lemma immediate_values:
  assumes "reads_as s cur i r (word d)"
  shows "word_value s cur (emitted_immediate i r) = immediate d"
    and "word_value s cur (emitted_signed_immediate i r) = signed_immediate d"
    and "condition_value s cur (emitted_less_immediate a i r) \<longleftrightarrow>
      as_s32 (word_value s cur a) < as_s32 (signed_immediate d)"
proof -
  have "sint (scast (x :: u16) :: u32) = sint x" for x by (simp add: sint_up_scast is_up)
  then show "word_value s cur (emitted_immediate i r) = immediate d"
    "word_value s cur (emitted_signed_immediate i r) = signed_immediate d"
    "condition_value s cur (emitted_less_immediate a i r) \<longleftrightarrow>
      as_s32 (word_value s cur a) < as_s32 (signed_immediate d)"
    using assms by (simp_all add: reads_as_def emitted_immediate_def emitted_signed_immediate_def emitted_less_immediate_def
        immediate_def signed_immediate_def low_half_signed_def instruction_immediate_def instruction_signed_immediate_def
        instruction_signed_immediate_s32_def as_s32_def)
qed

lemma branch_target_value:
  assumes "reads_as s cur i r (word d)" "cur = memory_base s + address"
  shows "word_value s cur (emitted_branch_target address i r) = cur + 4 + signed_immediate d * 4"
  using assms by (simp add: reads_as_def emitted_branch_target_def instruction_branch_target_def immediate_def
      instruction_signed_immediate_def instruction_immediate_def signed_immediate_def ucast_low_half add.assoc)

lemma emitted_branch_agrees:
  assumes "reads_as s cur i r (word d)" "cur = memory_base s + address"
  shows "run_stmt h m cur (emitted_branch c likely address i r) s = branch s d cur (condition_value s cur c) likely"
  using assms branch_target_value [OF assms(1,2)]
  by (auto simp: emitted_branch_def branch_def Let_def)

lemma same_frame_instruction_word:
  assumes "same_frame s t"
  shows "instruction_word t cur i = instruction_word s cur i"
proof -
  have "same_layout s t" using same_frame_ok [OF assms, of False] by (simp add: step_ok_def)
  then have "mapped_address t cur 4 = mapped_address s cur 4" by (rule same_layout_mapped)
  then show ?thesis
    using same_frame_buffer_of [OF assms] by (simp add: instruction_word_def read_at_def buffer_def split: option.split)
qed

lemma reads_as_link [simp]: "reads_as (set_gpr s j v) cur i r w = reads_as s cur i r w"
  by (simp add: reads_as_def same_frame_instruction_word [of s "set_gpr s j v"])

lemma set_gpr_base [simp]: "memory_base (set_gpr s j v) = memory_base s"
  by (simp add: set_gpr_def)

section \<open>The other groups\<close>

text \<open>\<open>e\<close> is what the interpreter decodes, \<open>d\<close> what the translator decoded.\<close>

lemma lower_regimm_agrees:
  assumes "rs e = rs d" "rt e = rt d" "rt d \<in> {0, 1, 2, 3, 0x10, 0x11, 0x12, 0x13}"
    and "reads_as s cur i r (word e)" "cur = memory_base s + address"
  shows "agrees h m cur (lower_regimm d address i r) s (exec_regimm s e cur)"
proof (rule agrees_same)
  have b: "run_stmt h m cur (emitted_branch c likely address i r) t = branch t e cur (condition_value t cur c) likely"
    if "reads_as t cur i r (word e)" "memory_base t = memory_base s" for h m t c likely
    using that assms(5) by (simp add: emitted_branch_agrees)
  have l: "run_stmt h m cur (emitted_link address) s = set_gpr s 31 (cur + 8)" for h m
    by (simp add: emitted_link_def assms add.assoc)
  have link: "0x10 \<le> rt d \<and> rt d \<le> 0x13 \<longleftrightarrow> rt d = 0x10 \<or> rt d = 0x11 \<or> rt d = 0x12 \<or> rt d = 0x13"
    using assms(3) by (auto simp: word_le_nat_alt)
  show "run_stmt h m cur (lower_regimm d address i r) s = exec_regimm s e cur"
    unfolding lower_regimm_def exec_regimm_def Let_def assms(1,2) link
    using assms(3,4) by (auto simp: l b reg_fields)
qed

lemma lower_branch_agrees:
  assumes "op e = op d" "rs e = rs d" "rt e = rt d"
    and "0x04 \<le> op d \<and> op d \<le> 0x07 \<or> op d \<in> {0x14, 0x15, 0x16, 0x17}"
    and "reads_as s cur i r (word e)" "cur = memory_base s + address"
  shows "agrees h m cur (lower_branch d address i r) s
    (if op d \<le> 0x07 then exec_branch s e cur else exec_branch_likely s e cur)"
proof (rule agrees_same)
  note b = emitted_branch_agrees [OF assms(5,6)]
  have "op d \<in> {0x04, 0x05, 0x06, 0x07, 0x14, 0x15, 0x16, 0x17}"
  proof -
    have "op d \<in> {4, 5, 6, 7}" if "0x04 \<le> op d" "op d \<le> 0x07"
      using that by (simp add: word_le_nat_alt word_unat_eq_iff) arith
    then show ?thesis using assms(4) by auto
  qed
  then show "run_stmt h m cur (lower_branch d address i r) s =
      (if op d \<le> 0x07 then exec_branch s e cur else exec_branch_likely s e cur)"
    by (auto simp: lower_branch_def exec_branch_def exec_branch_likely_def Let_def b reg_fields assms(1-3))
qed

lemma lower_jump_agrees:
  assumes "op e = op d" and "reads_as s cur i r (word e)" "cur = memory_base s + address"
    and "\<not> r \<Longrightarrow> memory_base s + ((((address + base + 4) AND 0xf0000000) OR push_bit 2 (i AND 0x03ffffff)) - base) =
       ((cur + 4) AND 0xf0000000) OR push_bit 2 (i AND 0x03ffffff)"
  shows "agrees h m cur (lower_jump d address i r base) s (exec_jump s e cur)"
proof (rule agrees_same)
  have "word_value t cur (emitted_jump_target address i r base) =
      ((cur + 4) AND 0xf0000000) OR push_bit 2 (word e AND 0x03ffffff)"
    if "reads_as t cur i r (word e)" "memory_base t = memory_base s" for t
    using that assms by (auto simp: emitted_jump_target_def reads_as_def instruction_jump_target_def Let_def)
  then show "run_stmt h m cur (lower_jump d address i r base) s = exec_jump s e cur"
    using assms by (simp add: lower_jump_def exec_jump_def Let_def emitted_link_def add.assoc)
qed

lemma lower_immediate_agrees:
  assumes "op e = op d" "rs e = rs d" "rt e = rt d" "reads_as s cur i r (word e)"
  shows "agrees h m cur (lower_immediate d i r) s (exec_immediate s e)"
  unfolding lower_immediate_def Let_def
  by (intro agrees_if) (auto simp: exec_immediate_def Let_def reg_fields assms(1-3) immediate_values [OF assms(4)])

lemma lower_special2_agrees:
  assumes "function_field d \<in> {0x20, 0x21, 0x2c, 0x2d}"
  shows "agrees h m cur (lower_special2 d) s (exec_special2 s d cur)"
  unfolding lower_special2_def Let_def using assms
  by (intro agrees_if) (auto simp: exec_special2_def Let_def reg_fields signed_max_def signed_min_def)

section \<open>The floating-point unit, bit fields and memory\<close>

lemma f32_index: "index AND 31 = index \<Longrightarrow> f32 s index = fpr s (unat index)"
  "index AND 31 = index \<Longrightarrow> set_f32 s index v = set_fpr s index v"
  by (simp_all add: f32_def set_f32_def set_fpr_def)

text \<open>
  \<open>round.w.s\<close> and \<open>trunc.w.s\<close> are translated by the helper \<open>rounded_word\<close>, which the interpreter
  does not use for them.
\<close>

definition host_rounding :: "DecodedInstruction \<Rightarrow> bool" where
  "host_rounding d \<longleftrightarrow> rs d = 0x10 \<and> (function_field d = 0x0c \<or> function_field d = 0x0d)"

lemma lower_fpu_operation_agrees:
  assumes "fpu_functions (function_field d)" "function_field d \<noteq> 0x0c" "function_field d \<noteq> 0x0d"
    and "rd d AND 31 = rd d" "shift d AND 31 = shift d"
  shows "agrees h m cur (lower_fpu_operation d (word d)) s (exec_fpu_operation h s d cur)"
proof -
  note x = f32_index [OF assms(4)] f32_index [OF assms(5)]
  have f: "function_field d \<in> {0, 1, 2, 3, 4, 5, 6, 7, 14, 15, 17, 32, 36} \<or>
      function_field d \<notin> {0, 1, 2, 3, 4, 5, 6, 7, 12, 13, 14, 15, 17, 32, 36} \<and> 0x30 \<le> function_field d"
    using assms(1-3) by (auto simp: fpu_functions_iff)
  have "run_stmt h m cur (lower_fpu_operation d (word d)) s = exec_fpu_operation h s d cur"
    using f
    by (elim disjE insertE conjE)
      (simp_all add: lower_fpu_operation_def exec_fpu_operation_def Let_def x f32_abs_def f32_negative_def)
  then show ?thesis by (rule agrees_same)
qed

lemma condition_fields:
  "drop_bit 2 (drop_bit 16 w AND 31) AND 7 = drop_bit 18 (w :: u32) AND 7"
  "(drop_bit 16 w AND 31) AND 1 = drop_bit 16 w AND 1"
  "(drop_bit 16 w AND 31) AND 2 \<noteq> 0 \<longleftrightarrow> drop_bit 17 w AND 1 \<noteq> 0"
proof -
  have m: "(7 :: u32) = mask 3" "(31 :: u32) = mask 5" "(1 :: u32) = mask 1" by (simp_all add: mask_eq_exp_minus_1)
  show "drop_bit 2 (drop_bit 16 w AND 31) AND 7 = drop_bit 18 w AND 7"
    unfolding m by (rule bit_word_eqI) (auto simp: bit_simps)
  show "(drop_bit 16 w AND 31) AND 1 = drop_bit 16 w AND 1" by (simp add: and.assoc)
  have "bit (drop_bit 16 w) 1 = bit (drop_bit 17 w) 0" by (simp add: bit_simps)
  then show "(drop_bit 16 w AND 31) AND 2 \<noteq> 0 \<longleftrightarrow> drop_bit 17 w AND 1 \<noteq> 0"
    using and_exp_eq_0_iff_not_bit [of "drop_bit 16 w" 1] and_exp_eq_0_iff_not_bit [of "drop_bit 17 w" 0]
    by (simp add: and.assoc)
qed

lemma condition_tests:
  "cc AND 7 = cc \<Longrightarrow> fpu_condition s cc = (b AND 1 \<noteq> 0) \<longleftrightarrow>
   drop_bit (if cc = 0 then 23 else 24 + unat cc) (fcr31 s) AND 1 = b AND (1 :: u32)"
  (is "_ \<Longrightarrow> ?thesis")
proof -
  have one: "v AND 1 = (if bit v 0 then 1 else 0)" for v :: u32
    by (simp add: and_one_eq bit_0 mod2_eq_if)
  have "bit (drop_bit n (fcr31 s)) 0 = bit (fcr31 s) n" for n by (simp add: bit_simps)
  then show "cc AND 7 = cc \<Longrightarrow> ?thesis" by (simp add: fpu_condition_bit condition_bit_def one)
qed

lemma lower_cop1_agrees:
  assumes "rs d \<in> {0, 2, 4, 6, 8} \<or> rs d = 16 \<and> fpu_functions (function_field d) \<or> rs d = 20 \<and> function_field d = 32"
    and "\<not> host_rounding d" "rd d AND 31 = rd d" "shift d AND 31 = shift d" "rt d = drop_bit 16 (word d) AND 31"
    and "reads_as s cur i False (word d)" "cur = memory_base s + address"
  shows "agrees h m cur (lower_cop1 d address i False) s (exec_cop1 h s d cur)"
proof -
  have i: "i = word d" using assms(6) by (simp add: reads_as_def)
  note b = emitted_branch_agrees [OF assms(6,7)]
  have seven: "(drop_bit 18 (word d) AND 7) AND 7 = drop_bit 18 (word d) AND 7" by (simp add: and.assoc)
  have "agrees h m cur (emitted_branch (Condition_is (drop_bit 2 (rt d) AND 7) (rt d AND 1 \<noteq> 0)) (rt d AND 2 \<noteq> 0)
      address i False) s (exec_cop1 h s d cur)" if "rs d = 8"
    by (rule agrees_same) (simp add: b that exec_cop1_def Let_def assms(5) condition_fields condition_tests [OF seven])
  moreover have "agrees h m cur (lower_fpu_operation d i) s (exec_cop1 h s d cur)" if "rs d = 16"
    using lower_fpu_operation_agrees [of d h m cur s] assms(1-4) that
    by (auto simp: i host_rounding_def exec_cop1_def Let_def)
  ultimately show ?thesis
    unfolding lower_cop1_def Let_def using assms(1) f32_index(2) [OF assms(4)]
    by (intro agrees_if) (auto simp: exec_cop1_def Let_def reg_fields agrees_same)
qed

lemma lower_special3_agrees:
  assumes "function_field d = 0 \<or> function_field d = 4 \<and> shift d \<le> rd d \<or>
      function_field d = 0x20 \<and> shift d \<in> {0x02, 0x03, 0x10, 0x14, 0x18}"
  shows "agrees h m cur (lower_special3 d) s (exec_special3 s d cur)"
  unfolding lower_special3_def Let_def using assms
  by (intro agrees_if) (auto simp: exec_special3_def Let_def reg_fields field_mask_def sign_extend8_def sign_extend16_def agrees_same)

lemma discarded_load: "snd (load_word_left s a v) = snd (load_word_left s a u)"
  "snd (load_word_right s a v) = snd (load_word_right s a u)"
  by (auto simp: load_word_left_def load_word_right_def Let_def split: option.splits prod.splits bool.splits)

lemma agrees_zero: "run_stmt h m cur st s = t \<Longrightarrow> agrees h m cur st s (set_gpr t 0 v)"
  by (simp add: agrees_def set_gpr_def)

lemma agrees_load:
  assumes "rt e = rt d" "effective_address s e = word_value s cur (emitted_address d i r)"
    and "t = set_gpr (snd (call_load k (effective_address s e) (reg s (rt e)) s)) (rt e)
      (fst (call_load k (effective_address s e) (reg s (rt e)) s))"
  shows "agrees h m cur (lower_load k d i r) s t"
proof -
  have "snd (call_load k a 0 s) = snd (call_load k a v s)" for a v
    by (cases k) (simp_all add: discarded_load [of s a 0 v] discarded_load(2) [of s a 0 v])
  moreover have "set_gpr (set_gpr t 0 x) 0 0 = set_gpr t 0 0" for t x by (simp add: set_gpr_def)
  ultimately have "set_gpr (snd (call_load k a 0 s)) 0 0 = set_gpr (set_gpr (snd (call_load k a v s)) 0 x) 0 0" for a v x
    by metis
  then show ?thesis
    using assms by (auto simp: lower_load_def agrees_def Let_def case_prod_unfold reg_fields)
qed

lemma lower_memory_agrees:
  assumes "op e = op d" "rs e = rs d" "rt e = rt d" "reads_as s cur i r (word e)"
    and "op d \<in> {0x20, 0x21, 0x22, 0x23, 0x24, 0x25, 0x26, 0x28, 0x29, 0x2a, 0x2b, 0x2e, 0x2f, 0x30, 0x31, 0x38, 0x39}"
  shows "agrees h m cur (lower_memory d i r) s
    (if op d \<le> 0x26 then exec_load s e else if op d \<in> {0x28, 0x29, 0x2a, 0x2b, 0x2e} then exec_store s e
     else exec_linked s e cur)"
proof -
  have a: "word_value s cur (emitted_address d i r) = effective_address s e"
    by (simp add: emitted_address_def effective_address_def reg_fields assms immediate_values [OF assms(4)])
  note l = agrees_load [OF assms(3) a [symmetric]]
  note unf = lower_memory_def exec_load_def exec_store_def exec_linked_def Let_def assms(1)
  from assms(5) show ?thesis
  apply (elim insertE emptyE)
  apply (simp_all add: unf)
  apply (simp_all add: l load_gpr_def sign_extend8_def sign_extend16_def case_prod_unfold Let_def)
  apply (auto simp: a assms(3) reg_fields case_prod_unfold Let_def intro: agrees_same agrees_zero)
  done
qed

section \<open>One instruction\<close>

definition relocatable_opcodes :: "u32 set" where
  "relocatable_opcodes = insert 1 plain_opcodes"

text \<open>
  \<open>loaded_word i relocated w\<close>: the word \<open>i\<close> of the file is \<open>w\<close> in memory. Relocation changes the
  low 16 bits of an instruction with an immediate, the low 26 bits of a jump.
\<close>

definition loaded_word :: "u32 \<Rightarrow> bool \<Rightarrow> u32 \<Rightarrow> bool" where
  "loaded_word i relocated w \<longleftrightarrow>
     (if \<not> relocated then w = i
      else drop_bit 26 i \<in> relocatable_opcodes \<and>
        (if drop_bit 26 i \<in> {2, 3} then drop_bit 26 w = drop_bit 26 i else drop_bit 16 w = drop_bit 16 i))"

lemma same_high_half:
  assumes "drop_bit 16 w = drop_bit 16 (i :: u32)"
  shows "drop_bit 26 w = drop_bit 26 i" "drop_bit 21 w = drop_bit 21 i"
proof -
  have "drop_bit 26 w = drop_bit 10 (drop_bit 16 w)" "drop_bit 21 w = drop_bit 5 (drop_bit 16 w)" for w :: u32
    by simp_all
  then show "drop_bit 26 w = drop_bit 26 i" "drop_bit 21 w = drop_bit 21 i" using assms by metis+
qed

lemma not_vfpu: "drop_bit 26 i \<in> relocatable_opcodes \<Longrightarrow> \<not> vfpu_opcode (drop_bit 26 i)"
  by (auto simp: relocatable_opcodes_def plain_opcodes_def vfpu_opcode_def)

lemma plain_decoded:
  assumes "drop_bit 26 i \<in> plain_opcodes"
  shows "valid (decode_allegrex i)" "lowering (decode_allegrex i) = Native"
proof -
  have "\<not> vfpu_opcode_supported i"
    using not_vfpu [of i] vfpu_supported_opcode [of i] assms by (auto simp: relocatable_opcodes_def)
  then have "lowering (decode_allegrex i) = Native"
    using assms unfolding plain_opcodes_def
    by (elim insertE emptyE) (simp_all add: decode_allegrex_def decode_opcode_def Let_def)
  then show "valid (decode_allegrex i)" "lowering (decode_allegrex i) = Native" by (simp_all add: valid_def)
qed

lemma regimm_decoded:
  assumes "drop_bit 26 i = 1" "drop_bit 16 i AND 31 \<in> {0, 1, 2, 3, 0x10, 0x11, 0x12, 0x13}"
  shows "valid (decode_allegrex i)" "lowering (decode_allegrex i) = Native"
proof -
  have "\<not> vfpu_opcode_supported i"
    using not_vfpu [of i] vfpu_supported_opcode [of i] assms by (auto simp: relocatable_opcodes_def)
  then have "lowering (decode_allegrex i) = Native"
    using assms by (auto simp: decode_allegrex_def decode_regimm_def Let_def)
  then show "valid (decode_allegrex i)" "lowering (decode_allegrex i) = Native" by (simp_all add: valid_def)
qed

lemma lower_plain_agrees:
  assumes "drop_bit 26 i \<in> plain_opcodes" "loaded_word i r w" "reads_as s cur i r w" "cur = memory_base s + address"
    and jump: "drop_bit 26 i \<in> {2, 3} \<Longrightarrow> \<not> r \<Longrightarrow>
       memory_base s + ((((address + base + 4) AND 0xf0000000) OR push_bit 2 (i AND 0x03ffffff)) - base) =
       ((cur + 4) AND 0xf0000000) OR push_bit 2 (i AND 0x03ffffff)"
  shows "agrees h m cur (lower_instruction address i r base) s (exec_instruction h m s (decode_allegrex w) cur)"
proof -
  let ?d = "decode_allegrex i" and ?e = "decode_allegrex w"
  have o: "op ?e = op ?d" using assms(2) same_high_half [of w i] by (auto simp: loaded_word_def split: if_splits)
  have f: "rs ?e = rs ?d" "rt ?e = rt ?d" if "op ?d \<notin> {2, 3}"
    using assms(2) same_high_half [of w i] that by (auto simp: loaded_word_def split: if_splits)
  have m: "reads_as s cur i r (word ?e)" using assms(3) by simp
  have low: "lower_instruction address i r base =
      (if op ?d = 0x02 \<or> op ?d = 0x03 then lower_jump ?d address i r base
       else if 0x04 \<le> op ?d \<and> op ?d \<le> 0x07 \<or> 0x14 \<le> op ?d \<and> op ?d \<le> 0x17 then lower_branch ?d address i r
       else if 0x08 \<le> op ?d \<and> op ?d \<le> 0x0f then lower_immediate ?d i r else lower_memory ?d i r)"
    using plain_decoded [OF assms(1)] assms(1) unfolding plain_opcodes_def
    by (elim insertE emptyE) (simp_all add: lower_instruction_def Let_def)
  have "op ?d \<in> plain_opcodes" using assms(1) by simp
  then consider (j) "op ?d \<in> {2, 3}" | (b) "op ?d \<in> {4, 5, 6, 7, 0x14, 0x15, 0x16, 0x17}"
    | (i) "op ?d \<in> {8, 9, 0xa, 0xb, 0xc, 0xd, 0xe, 0xf}"
    | (m) "op ?d \<in> {0x20, 0x21, 0x22, 0x23, 0x24, 0x25, 0x26, 0x28, 0x29, 0x2a, 0x2b, 0x2e, 0x2f, 0x30, 0x31, 0x38, 0x39}"
    unfolding plain_opcodes_def by blast
  then show ?thesis
  proof cases
    case j
    then have "exec_instruction h m s ?e cur = exec_jump s ?e cur" using o by (auto simp: exec_instruction_def)
    moreover have "lower_instruction address i r base = lower_jump ?d address i r base" using j by (auto simp: low)
    ultimately show ?thesis using lower_jump_agrees [OF o m assms(4)] jump j by simp
  next
    case b
    then have "exec_instruction h m s ?e cur = (if op ?d \<le> 0x07 then exec_branch s ?e cur else exec_branch_likely s ?e cur)"
      using o by (elim insertE emptyE) (simp_all add: exec_instruction_def vfpu_opcode_def)
    moreover have "lower_instruction address i r base = lower_branch ?d address i r"
      using b by (elim insertE emptyE) (simp_all add: low)
    moreover have "0x04 \<le> op ?d \<and> op ?d \<le> 0x07 \<or> op ?d \<in> {0x14, 0x15, 0x16, 0x17}" using b by auto
    ultimately show ?thesis using lower_branch_agrees [OF o f] b m assms(4) by auto
  next
    case i
    then have "exec_instruction h m s ?e cur = exec_immediate s ?e"
      using o by (elim insertE emptyE) (simp_all add: exec_instruction_def)
    moreover have "lower_instruction address i r base = lower_immediate ?d i r"
      using i by (elim insertE emptyE) (simp_all add: low)
    ultimately show ?thesis using lower_immediate_agrees [OF o f m] i by auto
  next
    case m
    then have "exec_instruction h m s ?e cur = (if op ?d \<le> 0x26 then exec_load s ?e
        else if op ?d \<in> {0x28, 0x29, 0x2a, 0x2b, 0x2e} then exec_store s ?e else exec_linked s ?e cur)"
      using o by (elim insertE emptyE) (simp_all add: exec_instruction_def vfpu_opcode_def)
    moreover have "lower_instruction address i r base = lower_memory ?d i r"
      using m by (elim insertE emptyE) (simp_all add: low)
    ultimately show ?thesis using lower_memory_agrees [OF o f \<open>reads_as s cur i r (word ?e)\<close> m] m by auto
  qed
qed

lemma valid_decoder_parts:
  assumes "valid (decode_allegrex w)" "\<not> vfpu_opcode_supported w"
  shows "drop_bit 26 w = 0 \<and> valid (decode_special (decode_fields w)) \<or>
    drop_bit 26 w = 1 \<and> valid (decode_regimm (decode_fields w)) \<or> valid (decode_opcode (decode_fields w)) \<and>
      drop_bit 26 w \<noteq> 0 \<and> drop_bit 26 w \<noteq> 1"
  using assms by (auto simp: decode_allegrex_def Let_def split: if_splits)

definition native_or_same :: "DecodedInstruction \<Rightarrow> DecodedInstruction \<Rightarrow> bool" where
  "native_or_same d e \<longleftrightarrow> e = d \<or> lowering e = Native"

lemma native_or_same_intros:
  "native_or_same d d" "native_or_same d (native_lowering d n f)"
  "native_or_same d x \<Longrightarrow> native_or_same d y \<Longrightarrow> native_or_same d (if b then x else y)"
  by (simp_all add: native_or_same_def)

lemma native_decoded:
  assumes "valid (decode_allegrex w)" "\<not> vfpu_opcode_supported w"
  shows "lowering (decode_allegrex w) = Native"
proof -
  have "native_or_same d (decode_special d)" "native_or_same d (decode_regimm d)" "native_or_same d (decode_cop1 d)" for d
    unfolding decode_special_def decode_regimm_def decode_cop1_def Let_def by (intro native_or_same_intros)+
  moreover from this(3) have "native_or_same d (decode_opcode d)" for d
    unfolding decode_opcode_def Let_def by (intro native_or_same_intros)
  ultimately have "native_or_same (decode_fields w) (decode_allegrex w)"
    using assms(2) unfolding decode_allegrex_def Let_def by (simp add: native_or_same_intros)
  then show ?thesis using assms(1) by (auto simp: native_or_same_def valid_def)
qed

lemma special_side_conditions:
  assumes "valid (decode_special (decode_fields w))"
  shows "w AND 63 = 2 \<Longrightarrow> drop_bit 21 w AND 31 = 1 \<or> drop_bit 21 w AND 31 = 0"
    "w AND 63 = 6 \<Longrightarrow> drop_bit 6 w AND 31 = 1 \<or> drop_bit 6 w AND 31 = 0"
  using assms by (auto simp: decode_special_def valid_def Let_def split: if_splits)

lemma special3_side_conditions:
  assumes "valid (decode_opcode (decode_fields w))" "drop_bit 26 w = 0x1f"
  shows "w AND 63 = 0 \<or> w AND 63 = 4 \<and> drop_bit 6 w AND 31 \<le> drop_bit 11 w AND 31 \<or>
    w AND 63 = 0x20 \<and> drop_bit 6 w AND 31 \<in> {0x02, 0x03, 0x10, 0x14, 0x18}"
  using assms by (auto simp: decode_opcode_def valid_def Let_def split: if_splits)

lemma lower_vfpu_agrees:
  assumes "vfpu_opcode_supported w" "cur = memory_base s + address"
  shows "agrees h m cur (lower_instruction address w r base) s (exec_instruction h m s (decode_allegrex w) cur)"
proof (rule agrees_same)
  have e: "exec_instruction h m s (decode_allegrex w) cur = execute_vfpu h m s w cur" for cur
    using exec_vfpu_eq [of "decode_allegrex w"] vfpu_supported_opcode [OF assms(1)] by simp
  have d: "decode_allegrex w = decode_vfpu (decode_fields w)" using assms(1) by (simp add: decode_allegrex_def Let_def)
  have "lowering (decode_allegrex w) = (if vfpu_static_operation w = Vfpu_none then Runtime_fallback else Guarded_native)"
    by (simp add: d decode_vfpu_def Let_def)
  then show "run_stmt h m cur (lower_instruction address w r base) s = exec_instruction h m s (decode_allegrex w) cur"
    using prefix_free_agrees [of s w h m cur] assms(2) by (auto simp: lower_instruction_def Let_def valid_def e)
qed

text \<open>\<open>jalr\<close> whose link register is the register of the target.\<close>

definition jalr_overlap :: "DecodedInstruction \<Rightarrow> bool" where
  "jalr_overlap d \<longleftrightarrow> op d = 0 \<and> function_field d = 0x09 \<and> rd d = rs d \<and> rd d \<noteq> 0"

definition translated_differently :: "u32 \<Rightarrow> bool" where
  "translated_differently i \<longleftrightarrow> (let d = decode_allegrex i in
     jalr_overlap d \<or> op d = 0x11 \<and> host_rounding d)"

lemma field_31: "(drop_bit k w AND 31) AND 31 = drop_bit k w AND (31 :: u32)"
  by (simp add: and.assoc)

lemma lower_instruction_agrees:
  assumes "valid (decode_allegrex w)" "\<not> translated_differently i" "loaded_word i r w" "reads_as s cur i r w"
    "cur = memory_base s + address"
    and jump: "drop_bit 26 i \<in> {2, 3} \<Longrightarrow> \<not> r \<Longrightarrow>
       memory_base s + ((((address + base + 4) AND 0xf0000000) OR push_bit 2 (i AND 0x03ffffff)) - base) =
       ((cur + 4) AND 0xf0000000) OR push_bit 2 (i AND 0x03ffffff)"
  shows "agrees h m cur (lower_instruction address i r base) s (exec_instruction h m s (decode_allegrex w) cur)"
proof (cases "drop_bit 26 i \<in> plain_opcodes")
  case True
  then show ?thesis using assms(3-6) by (rule lower_plain_agrees)
next
  case False
  let ?d = "decode_allegrex i" and ?e = "decode_allegrex w"
  show ?thesis
  proof (cases "vfpu_opcode_supported w")
    case True
    then have "w = i" using assms(3) same_high_half [of w i] not_vfpu [of i] vfpu_supported_opcode [of w]
      by (auto simp: loaded_word_def split: if_splits)
    then show ?thesis using lower_vfpu_agrees [OF True assms(5)] by simp
  next
    case nv: False
    note parts = valid_decoder_parts [OF assms(1) nv]
    have reg: "drop_bit 26 i = 1" if "r" using that assms(3) False by (auto simp: loaded_word_def relocatable_opcodes_def split: if_splits)
    have wi: "w = i" if "\<not> r" using that assms(3) by (simp add: loaded_word_def)
    show ?thesis
    proof (cases "drop_bit 26 i = 1")
      case True
      have h: "drop_bit 16 w = drop_bit 16 i" using True assms(3) wi by (auto simp: loaded_word_def split: if_splits)
      have o: "drop_bit 26 w = 1" using same_high_half [OF h] True by simp
      then have t: "drop_bit 16 w AND 31 \<in> {0, 1, 2, 3, 0x10, 0x11, 0x12, 0x13}"
        using parts valid_regimm [of w] by auto
      have "lower_instruction address i r base = lower_regimm ?d address i r"
        using regimm_decoded [OF True] t by (simp add: lower_instruction_def Let_def h True)
      moreover have "exec_instruction h m s ?e cur = exec_regimm s ?e cur" by (simp add: exec_instruction_def o)
      ultimately show ?thesis
        using lower_regimm_agrees [of ?e ?d s cur i r address h m] t assms(4,5) same_high_half [OF h] by (simp add: h)
    next
      case no: False
      then have i: "w = i" "\<not> r" using reg wi by auto
      have n: "lowering ?e = Native" by (rule native_decoded [OF assms(1) nv])
      have x: "word ?e = w" "op ?e = drop_bit 26 w" by simp_all
      consider (s) "drop_bit 26 w = 0" "valid (decode_special (decode_fields w))"
        | (c) "drop_bit 26 w = 0x11" "valid (decode_cop1 (decode_fields w))"
        | (2) "drop_bit 26 w = 0x1c" "w AND 63 \<in> {0x20, 0x21, 0x2c, 0x2d}"
        | (3) "drop_bit 26 w = 0x1f" "valid (decode_opcode (decode_fields w))"
        using parts valid_opcode [of w] no False i by auto
      then show ?thesis
      proof cases
        case s
        have "lower_instruction address i r base = lower_special ?e address"
          using n assms(1) s by (simp add: lower_instruction_def Let_def i(1) [symmetric])
        moreover have "exec_instruction h m s ?e cur = exec_special s ?e cur" by (simp add: exec_instruction_def s)
        moreover have "\<not> (function_field ?e = 0x09 \<and> rd ?e = rs ?e \<and> rd ?e \<noteq> 0)"
          using assms(2) s by (auto simp: translated_differently_def jalr_overlap_def Let_def i(1) [symmetric])
        ultimately show ?thesis
          using lower_special_agrees [of ?e cur s address h m] valid_special [OF s(2)] special_side_conditions [OF s(2)] assms(5)
          by simp
      next
        case c
        have "lower_instruction address i r base = lower_cop1 ?e address i False"
          using n assms(1) c i by (simp add: lower_instruction_def Let_def)
        moreover have "exec_instruction h m s ?e cur = exec_cop1 h s ?e cur" by (simp add: exec_instruction_def c)
        moreover have "\<not> host_rounding ?e"
          using assms(2) c by (auto simp: translated_differently_def Let_def i(1) [symmetric])
        ultimately show ?thesis
          using lower_cop1_agrees [of ?e s cur i address h m] valid_cop1 [OF c(2)] assms(4,5) i
          by (simp add: field_31 Let_def)
      next
        case 2
        have "lower_instruction address i r base = lower_special2 ?e"
          using n assms(1) 2 i by (simp add: lower_instruction_def Let_def)
        moreover have "exec_instruction h m s ?e cur = exec_special2 s ?e cur" by (simp add: exec_instruction_def 2 vfpu_opcode_def)
        ultimately show ?thesis using lower_special2_agrees [of ?e] 2 by simp
      next
        case 3
        have "lower_instruction address i r base = lower_special3 ?e"
          using n assms(1) 3 i by (simp add: lower_instruction_def Let_def)
        moreover have "exec_instruction h m s ?e cur = exec_special3 s ?e cur" by (simp add: exec_instruction_def 3 vfpu_opcode_def)
        ultimately show ?thesis using lower_special3_agrees [of ?e] special3_side_conditions [OF 3(2,1)] by simp
      qed
    qed
  qed
qed

section \<open>One step of the generated program\<close>

text \<open>
  What \<open>emit_cpp\<close> writes around the statement of an instruction: the body of the loop of the
  generated function \<open>run\<close>. \<open>cases\<close> is its \<open>switch\<close>, by the offset from the memory base.
\<close>

definition generated_step :: "HostFpu \<Rightarrow> HostMath \<Rightarrow> (u32 \<Rightarrow> stmt option) \<Rightarrow> State \<Rightarrow> State" where
  "generated_step h m cases s =
     (let apply_delayed_branch = branch_pending s; delayed_target = branch_target s;
          current_pc = pc s; s = s\<lparr>branch_pending := False, pc := current_pc + 4\<rparr> in
      case cases (current_pc - memory_base s) of
        None \<Rightarrow> s\<lparr>stop_reason := Invalid_pc, fault_address := current_pc\<rparr>
      | Some st \<Rightarrow>
          let s = set_gpr (run_stmt h m current_pc st s) 0 0 in
          if stop_reason s \<noteq> Running then s
          else if apply_delayed_branch then s\<lparr>pc := delayed_target\<rparr> else s)"

text \<open>The word of memory the program counter points at.\<close>

definition word_in_memory :: "State \<Rightarrow> u32 \<Rightarrow> u32 \<Rightarrow> bool" where
  "word_in_memory s cur w \<longleftrightarrow> cur AND 3 = 0 \<and>
     (\<exists>p. mapped_address s cur 4 = Some p \<and> word32_of (read_at s p 4) = w)"

text \<open>The instruction at offset \<open>address\<close> of the image is translated as \<open>emit_instruction\<close> does it.\<close>

definition translates ::
  "(u32 \<Rightarrow> stmt option) \<Rightarrow> State \<Rightarrow> u32 \<Rightarrow> bool \<Rightarrow> u32 \<Rightarrow> u32 \<Rightarrow> bool" where
  "translates cases s i relocated base w \<longleftrightarrow>
     cases (pc s - memory_base s) = Some (lower_instruction (pc s - memory_base s) i relocated base) \<and>
     word_in_memory s (pc s) w \<and> loaded_word i relocated w \<and> valid (decode_allegrex w) \<and>
     \<not> translated_differently i \<and> (drop_bit 26 i \<in> {2, 3} \<longrightarrow> relocated \<or> memory_base s = base)"

lemma word_in_memory_load:
  assumes "wf_state s" "word_in_memory s cur w"
  shows "load32 s cur = (w, s)" "instruction_word s cur i = w"
proof -
  obtain p where p: "mapped_address s cur 4 = Some p" "word32_of (read_at s p 4) = w" "cur AND 3 = 0"
    using assms(2) by (auto simp: word_in_memory_def)
  show "load32 s cur = (w, s)" using acc32.load_mapped [OF assms(1), of cur p] p by simp
  show "instruction_word s cur i = w" using p by (simp add: instruction_word_def)
qed

lemma generated_step_interprets:
  assumes "wf_state s" "stop_reason s = Running" "translates cases s i r base w"
  shows "generated_step h m cases s = snd (interpret_allegrex h m s (pc s))"
proof -
  let ?a = "pc s - memory_base s" and ?t = "s\<lparr>branch_pending := False, pc := pc s + 4\<rparr>"
  have t: "cases ?a = Some (lower_instruction ?a i r base)" "word_in_memory s (pc s) w" "loaded_word i r w"
    "valid (decode_allegrex w)" "\<not> translated_differently i" "drop_bit 26 i \<in> {2, 3} \<longrightarrow> r \<or> memory_base s = base"
    using assms(3) by (simp_all add: translates_def)
  have al: "pc s AND 3 = 0" using t(2) by (simp add: word_in_memory_def)
  have "instruction_word ?t (pc s) i = w"
    using same_frame_instruction_word [of s ?t "pc s" i] word_in_memory_load(2) [OF assms(1) t(2)] by simp
  then have reads: "reads_as ?t (pc s) i r w" using t(3) by (simp add: reads_as_def loaded_word_def)
  have "agrees h m (pc s) (lower_instruction ?a i r base) ?t (exec_instruction h m ?t (decode_allegrex w) (pc s))"
    by (rule lower_instruction_agrees [OF t(4,5,3) reads]) (use t(6) in auto)
  then have "set_gpr (run_stmt h m (pc s) (lower_instruction ?a i r base) ?t) 0 0 =
      set_gpr (exec_instruction h m ?t (decode_allegrex w) (pc s)) 0 0" by (simp add: agrees_def)
  then show ?thesis
    unfolding interpret_valid [OF al word_in_memory_load(1) [OF assms(1) t(2)] assms(2) t(4)]
    by (simp add: generated_step_def t(1) finish_instruction_def Let_def)
qed

section \<open>Where the translation differs\<close>

text \<open>
  \<open>jalr $t0, $t0\<close>: the generated statement writes the link register before it reads the target,
  so it branches to the return address; the interpreter branches to the old value.
\<close>

lemma jalr_overlap_differs:
  assumes "0 < unat i" 
  shows "branch_target (run_stmt h m cur (Seq (Assign (To_gpr i) (Relative (address + 8))) (Take_branch (Gpr i))) s) =
      memory_base s + address + 8"
  using assms by (simp add: set_gpr_def add.assoc)

text \<open>\<open>jalr $8, $8\<close>.\<close>

lemma jalr_word: "decode_allegrex 0x01004009 = native_lowering (decode_fields 0x01004009) ''jalr''
     (instruction_delayed_branch OR instruction_dynamic_target OR instruction_call)"
  by (simp add: decode_allegrex_def decode_fields_def vfpu_opcode_supported_def decode_special_def Let_def)

text \<open>\<open>round.w.s $f0, $f1\<close>.\<close>

lemma round_word: "decode_allegrex 0x4600080c = native_lowering (decode_fields 0x4600080c) ''cop1'' instruction_none"
  by (simp add: decode_allegrex_def decode_fields_def vfpu_opcode_supported_def decode_opcode_def decode_cop1_def Let_def)


text \<open>Some texts, as the tests of the translator expect them.\<close>

lemma emitted_texts:
  "emit_instruction 0x1000 0x8c400004 False 0 = Inr ''static_cast<void>(PSPRECOMP_LOAD32(state, state.gpr[2] + 0x00000004U));''"
  "emit_instruction 0x1000 0x24420001 True 0 =
     Inr ''state.gpr[2] = state.gpr[2] + instruction_signed_immediate(state, current_pc, 0x24420001U);''"
  by code_simp+

end
