(* ===== verification/Analysis.thy ===== *)
theory Analysis
  imports Emitter Code_Map "HOL-Library.AList"
begin

text \<open>
  The analysis of an executable in \<open>src/emitter/analysis.cpp\<close>: which words are relocated, where
  the control flow of the translated program can enter, and where its functions start; and the
  count of what can be translated, \<open>src/emitter/coverage.cpp\<close>. A \<open>std::set\<close> is a set here.
  Reading past the end of a buffer, which C++ leaves undefined, is the error \<open>out_of_bounds\<close>,
  a loop that does not end the value \<open>None\<close>.
\<close>

section \<open>Words of the image\<close>

definition word_at :: "ExecutableSection \<Rightarrow> nat \<Rightarrow> u32" where
  "word_at section off = read_u32 (section_bytes section) off"

definition starts_delayed_branch :: "u32 \<Rightarrow> bool" where
  "starts_delayed_branch i = has_flag (decode_allegrex i) instruction_delayed_branch"

definition needs_post_delay_entry :: "u32 \<Rightarrow> bool" where
  "needs_post_delay_entry i = starts_delayed_branch i"

definition may_stop_execution :: "u32 \<Rightarrow> bool" where
  "may_stop_execution i \<longleftrightarrow> drop_bit 26 i = 0 \<and> (i AND 63 = 0x0c \<or> i AND 63 = 0x0d)"

text \<open>The instructions of a section with their addresses, in the order of the loops over them.\<close>

definition section_words :: "ExecutableSection \<Rightarrow> (u32 \<times> u32) list" where
  "section_words section = map (\<lambda>k. (section_address section + of_nat (4 * k), word_at section (4 * k)))
     [0..<(length (section_bytes section) + 3) div 4]"

section \<open>Relocations\<close>

definition find_load_segment :: "ElfImage \<Rightarrow> u8 \<Rightarrow> LoadSegment option" where
  "find_load_segment img index = find (\<lambda>s. program_index s = index) (load_segments img)"

definition relocated_words :: "ElfImage \<Rightarrow> u32 set" where
  "relocated_words img = fold (\<lambda>r result.
     case find_load_segment img (rpatch r) of
       None \<Rightarrow> result
     | Some segment \<Rightarrow>
         if roffset r \<le> segment_memory_size segment \<and> 4 \<le> segment_memory_size segment - roffset r
         then insert (segment_address segment + roffset r) result else result)
     (elf_relocations img) {}"

definition jump_relocation_bases :: "ElfImage \<Rightarrow> u32 \<rightharpoonup> u32" where
  "jump_relocation_bases img = fold (\<lambda>r result.
     if reltype r \<noteq> 4 then result
     else case (find_load_segment img (rpatch r), find_load_segment img (rtarget r)) of
       (Some patch, Some t) \<Rightarrow> result(segment_address patch + roffset r \<mapsto> segment_address t)
     | _ \<Rightarrow> result) (elf_relocations img) Map.empty"

definition direct_control_target :: "u32 \<Rightarrow> u32 \<Rightarrow> (u32 \<rightharpoonup> u32) \<Rightarrow> u32 \<Rightarrow> u32 option" where
  "direct_control_target address i jump_bases base =
     (if \<not> starts_delayed_branch i then None
      else let opc = drop_bit 26 i in
        if opc = 0 then None
        else if opc = 0x02 \<or> opc = 0x03 then
          let field = i AND 0x03ffffff;
              field = (case jump_bases address of None \<Rightarrow> field
                       | Some b \<Rightarrow> (field + drop_bit 2 b) AND 0x03ffffff)
          in Some ((((address + base + 4) AND 0xf0000000) OR push_bit 2 field) - base)
        else Some (address + 4 + scast (ucast i :: u16) * 4))"

section \<open>Entries of the dispatcher\<close>

definition is_executable_word :: "ElfImage \<Rightarrow> u32 \<Rightarrow> bool" where
  "is_executable_word img address \<longleftrightarrow> address AND 3 = 0 \<and>
     list_ex (\<lambda>s. section_address s \<le> address \<and>
       unat address + 4 \<le> unat (section_address s) + length (section_bytes s)) (executable_sections img)"

text \<open>The lambda \<open>add\<close> of \<open>potential_block_entries\<close>, and its calls in a loop.\<close>

definition add_entry :: "ElfImage \<Rightarrow> u32 \<Rightarrow> u32 set \<Rightarrow> u32 set" where
  "add_entry img address result = (if is_executable_word img address then insert address result else result)"

definition add_entries :: "ElfImage \<Rightarrow> u32 list \<Rightarrow> u32 set \<Rightarrow> u32 set" where
  "add_entries img addresses result = fold (add_entry img) addresses result"

text \<open>
  The boundaries of the shards inside a section: the address is 32 bits wide, the end of the
  section is not.
\<close>

partial_function (option) shard_boundaries :: "u32 \<Rightarrow> nat \<Rightarrow> u32 \<Rightarrow> u32 list option" where
  "shard_boundaries shard_size section_end boundary =
     (if unat boundary < section_end
      then Option.bind (shard_boundaries shard_size section_end (boundary + shard_size)) (\<lambda>bs. Some (boundary # bs))
      else Some [])"


definition section_entries :: "u32 \<Rightarrow> ExecutableSection \<Rightarrow> u32 list option" where
  "section_entries shard_size s =
     Option.bind (shard_boundaries shard_size (unat (section_address s) + length (section_bytes s))
       ((section_address s + shard_size - 1) AND NOT (shard_size - 1)))
     (\<lambda>bs. Some (section_address s # bs))"

fun all_section_entries :: "u32 \<Rightarrow> ExecutableSection list \<Rightarrow> u32 list option" where
  "all_section_entries shard_size [] = Some []"
| "all_section_entries shard_size (s # ss) =
     Option.bind (section_entries shard_size s) (\<lambda>xs.
     Option.bind (all_section_entries shard_size ss) (\<lambda>ys. Some (xs @ ys)))"

text \<open>The entries after the delay slot and at the target of one instruction.\<close>

definition control_entries :: "(u32 \<rightharpoonup> u32) \<Rightarrow> u32 \<Rightarrow> u32 \<times> u32 \<Rightarrow> u32 list" where
  "control_entries jump_bases base = (\<lambda>(address, i).
     if \<not> starts_delayed_branch i then []
     else (if needs_post_delay_entry i then [address + 8] else []) @
       (case direct_control_target address i jump_bases base of None \<Rightarrow> [] | Some t \<Rightarrow> [t]))"

text \<open>Without relocations every word of memory may be a pointer to code.\<close>

definition pointer_entries :: "ElfImage \<Rightarrow> u8 list \<Rightarrow> u32 list" where
  "pointer_entries img mem =
     (if elf_relocations img \<noteq> [] then []
      else map (\<lambda>k. let v = read_u32 mem (4 * k) in
        if preferred_base img \<noteq> 0 \<and> preferred_base img \<le> v then v - preferred_base img else v)
        [0..<length mem div 4])"

text \<open>With relocations a pair of HI16 and LO16, the first LO16 after the HI16 for its segment.\<close>

definition high_low_entry :: "ElfImage \<Rightarrow> u8 list \<Rightarrow> Relocation \<Rightarrow> Relocation list \<Rightarrow> u32 list" where
  "high_low_entry img mem high rest =
     (if reltype high \<noteq> 5 then []
      else let low = find (\<lambda>l. reltype l = 6 \<and> rtarget l = rtarget high) rest in
        case (find_load_segment img (rpatch high), Option.bind low (\<lambda>l. find_load_segment img (rpatch l)),
              find_load_segment img (rtarget high)) of
          (Some high_patch, Some low_patch, Some t) \<Rightarrow>
            let high_address = segment_address high_patch + roffset high;
                low_address = segment_address low_patch + roffset (the low) in
            if length mem < unat high_address \<or> length mem - unat high_address < 4 \<or>
               length mem < unat low_address \<or> length mem - unat low_address < 4 then []
            else [push_bit 16 (read_u32 mem (unat high_address) AND 0xffff) +
                  sign_extend_low (read_u32 mem (unat low_address)) + segment_address t]
        | _ \<Rightarrow> [])"

fun high_low_entries :: "ElfImage \<Rightarrow> u8 list \<Rightarrow> Relocation list \<Rightarrow> u32 list" where
  "high_low_entries img mem [] = []"
| "high_low_entries img mem (high # rest) = high_low_entry img mem high rest @ high_low_entries img mem rest"

definition data_pointer_entry :: "ElfImage \<Rightarrow> u8 list \<Rightarrow> Relocation \<Rightarrow> u32 list" where
  "data_pointer_entry img mem r =
     (if reltype r \<noteq> 2 then []
      else case (find_load_segment img (rpatch r), find_load_segment img (rtarget r)) of
        (Some patch, Some t) \<Rightarrow>
          let address = segment_address patch + roffset r in
          if is_executable_word img address \<or> length mem < unat address \<or> length mem - unat address < 4 then []
          else [read_u32 mem (unat address) + segment_address t]
      | _ \<Rightarrow> [])"

definition code_map_entries :: "CodeMap option \<Rightarrow> u32 list" where
  "code_map_entries code_map = (case code_map of None \<Rightarrow> [] | Some c \<Rightarrow> function_starts c @ block_entries c)"

definition all_words :: "ElfImage \<Rightarrow> (u32 \<times> u32) list" where
  "all_words img = concat (map section_words (executable_sections img))"

definition potential_block_entries ::
  "ElfImage \<Rightarrow> CodeMap option \<Rightarrow> u32 \<Rightarrow> u32 \<Rightarrow> u32 set result option" where
  "potential_block_entries img code_map start shard_size =
     Option.bind (all_section_entries shard_size (executable_sections img)) (\<lambda>section_starts.
       let result = add_entries img (start # section_starts) {};
           result = add_entries img (code_map_entries code_map) result;
           result = add_entries img (concat (map (control_entries (jump_relocation_bases img) (preferred_base img))
                      (all_words img))) result
       in Some (bind_result (memory_image (load_segments img)) (\<lambda>mem.
         Inr (add_entries img (pointer_entries img mem @ high_low_entries img mem (elf_relocations img) @
           concat (map (data_pointer_entry img mem) (elf_relocations img))) result))))"

section \<open>Functions\<close>

record DiscoveredFunction =
  discovered_start :: u32
  discovered_symbol :: string
  discovered_filename :: string

definition add_start :: "ElfImage \<Rightarrow> u32 \<Rightarrow> u32 set \<Rightarrow> u32 set" where
  "add_start img address starts =
     (if is_executable_word img address \<and> address \<notin> stub_address ` set (elf_imports img)
      then insert address starts else starts)"

definition add_starts :: "ElfImage \<Rightarrow> u32 list \<Rightarrow> u32 set \<Rightarrow> u32 set" where
  "add_starts img addresses starts = fold (add_start img) addresses starts"

definition code_map_starts :: "CodeMap option \<Rightarrow> u32 list" where
  "code_map_starts code_map = (case code_map of None \<Rightarrow> []
     | Some c \<Rightarrow> (if map_entry c \<noteq> 0 then [map_entry c] else []) @ map function_begin (function_ranges c) @
         map symbol_address (function_symbols c))"

text \<open>What one instruction says about function starts: calls, prologues, returns.\<close>

definition scanned_starts :: "(u32 \<rightharpoonup> u32) \<Rightarrow> u32 \<Rightarrow> ExecutableSection \<Rightarrow> nat \<Rightarrow> u32 list" where
  "scanned_starts jump_bases base s off =
     (let address = section_address s + of_nat off; i = word_at s off; opc = drop_bit 26 i; t = drop_bit 16 i AND 31 in
      (if opc = 0x03 then
         (case direct_control_target address i jump_bases base of None \<Rightarrow> [] | Some t \<Rightarrow> [t])
       else if opc = 0x01 \<and> 0x10 \<le> t \<and> t \<le> 0x13 then [address + 4 + scast (ucast (i AND 0xffff) :: u16) * 4]
       else []) @
      (if i AND 0xffff8000 = 0x27bd8000 then [address] else []) @
      (if i = 0x03e00008 \<and> off + 8 < length (section_bytes s) then [address + 8] else []))"

definition scan_section :: "(u32 \<rightharpoonup> u32) \<Rightarrow> u32 \<Rightarrow> ExecutableSection \<Rightarrow> u32 list" where
  "scan_section jump_bases base s =
     concat (map (\<lambda>k. scanned_starts jump_bases base s (4 * k)) [0..<(length (section_bytes s) + 3) div 4])"

text \<open>A relocated pointer. The guard adds 4 to a 32-bit address, the read after it does not wrap.\<close>

definition relocated_start :: "ElfImage \<Rightarrow> u8 list \<Rightarrow> Relocation \<Rightarrow> u32 list result" where
  "relocated_start img mem r =
     (if reltype r \<noteq> 2 then Inr []
      else case (find_load_segment img (rpatch r), find_load_segment img (rtarget r)) of
        (Some patch, Some t) \<Rightarrow>
          let address = segment_address patch + roffset r in
          if length mem < unat (address + 4) then Inr []
          else if length mem < unat address + 4 then Inl ''out_of_bounds''
          else Inr [read_u32 mem (unat address) + segment_address t]
      | _ \<Rightarrow> Inr [])"

definition discovered_starts :: "ElfImage \<Rightarrow> CodeMap option \<Rightarrow> u32 set result" where
  "discovered_starts img code_map =
     (if \<exists>c. code_map = Some c \<and> function_starts c \<noteq> []
      then Inr (add_starts img (function_starts (the code_map)) {})
      else let starts = add_starts img (elf_entry img # code_map_starts code_map) {};
               starts = add_starts img (map section_address (executable_sections img)) starts;
               starts = add_starts img (concat (map (scan_section (jump_relocation_bases img) (preferred_base img))
                          (executable_sections img))) starts
        in bind_result (memory_image (load_segments img)) (\<lambda>mem.
           bind_result (traverse (relocated_start img mem) (elf_relocations img)) (\<lambda>pointers.
             Inr (add_starts img (concat pointers) starts))))"

definition is_alnum :: "char \<Rightarrow> bool" where
  "is_alnum c = (let n = of_char c :: nat in
     48 \<le> n \<and> n \<le> 57 \<or> 65 \<le> n \<and> n \<le> 90 \<or> 97 \<le> n \<and> n \<le> 122)"

definition cpp_identifier :: "string \<Rightarrow> string" where
  "cpp_identifier v =
     (let result = map (\<lambda>c. if is_alnum c \<or> c = CHR ''_'' then c else CHR ''_'') v in
      if result = [] \<or> 48 \<le> (of_char (hd result) :: nat) \<and> (of_char (hd result) :: nat) \<le> 57
      then ''import_'' @ result else result)"

definition function_symbol :: "CodeMap option \<Rightarrow> u32 \<Rightarrow> string" where
  "function_symbol code_map start = (case code_map of None \<Rightarrow> []
     | Some c \<Rightarrow> (case symbol_at c start of Some n \<Rightarrow> n
       | None \<Rightarrow> (case function_containing c start of Some r \<Rightarrow> function_name r | None \<Rightarrow> [])))"

definition function_filename :: "u32 \<Rightarrow> string \<Rightarrow> string" where
  "function_filename start symbol = ''func_'' @ hex_digits 8 start @
     (if symbol \<noteq> [] then ''_'' @ cpp_identifier symbol else []) @ ''.cpp''"

definition discover_functions :: "ElfImage \<Rightarrow> CodeMap option \<Rightarrow> DiscoveredFunction list result" where
  "discover_functions img code_map =
     bind_result (discovered_starts img code_map) (\<lambda>starts.
       Inr (map (\<lambda>start. let symbol = function_symbol code_map start in
         \<lparr>discovered_start = start, discovered_symbol = symbol, discovered_filename = function_filename start symbol\<rparr>)
         (sorted_list_of_set starts)))"

section \<open>Coverage\<close>

record MissingGroup =
  group_count :: nat
  example_pc :: u32
  example_instruction :: u32

record Coverage =
  translated_words :: nat
  excluded_words :: nat
  guarded_groups :: "(string \<times> MissingGroup) list"
  fallback_groups :: "(string \<times> MissingGroup) list"
  invalid_groups :: "(string \<times> MissingGroup) list"

definition count_group :: "u32 \<Rightarrow> u32 \<Rightarrow> (string \<times> MissingGroup) list \<Rightarrow> (string \<times> MissingGroup) list" where
  "count_group address i groups =
     (let n = opcode_group i in
      case map_of groups n of
        None \<Rightarrow> AList.update n \<lparr>group_count = 1, example_pc = address, example_instruction = i\<rparr> groups
      | Some g \<Rightarrow> AList.update n (g\<lparr>group_count := group_count g + 1\<rparr>) groups)"

definition cover_word :: "CodeMap option \<Rightarrow> Coverage \<Rightarrow> u32 \<times> u32 \<Rightarrow> Coverage" where
  "cover_word code_map c = (\<lambda>(address, i).
     if code_map \<noteq> None \<and> \<not> contains_address (the code_map) address
     then c\<lparr>excluded_words := excluded_words c + 1\<rparr>
     else case lowering (decode_allegrex i) of
       Native \<Rightarrow> c\<lparr>translated_words := translated_words c + 1\<rparr>
     | Guarded_native \<Rightarrow> c\<lparr>guarded_groups := count_group address i (guarded_groups c)\<rparr>
     | Runtime_fallback \<Rightarrow> c\<lparr>fallback_groups := count_group address i (fallback_groups c)\<rparr>
     | Invalid \<Rightarrow> c\<lparr>invalid_groups := count_group address i (invalid_groups c)\<rparr>)"

definition empty_coverage :: Coverage where
  "empty_coverage = \<lparr>translated_words = 0, excluded_words = 0, guarded_groups = [], fallback_groups = [],
     invalid_groups = []\<rparr>"

definition group_total :: "(string \<times> MissingGroup) list \<Rightarrow> nat" where
  "group_total groups = sum_list (map (group_count \<circ> snd) groups)"

definition analyze_coverage :: "ElfImage \<Rightarrow> CodeMap option \<Rightarrow> bool \<times> Coverage" where
  "analyze_coverage img code_map =
     (let c = foldl (cover_word code_map) empty_coverage (all_words img)
      in (group_total (invalid_groups c) = 0, c))"

section \<open>The dispatcher knows every visible destination\<close>

lemma add_entries_set: "add_entries img xs r = r \<union> {a \<in> set xs. is_executable_word img a}"
  by (induction xs arbitrary: r) (auto simp: add_entries_def add_entry_def)

lemma add_starts_set:
  "add_starts img xs r = r \<union> {a \<in> set xs. is_executable_word img a \<and> a \<notin> stub_address ` set (elf_imports img)}"
  by (induction xs arbitrary: r) (auto simp: add_starts_def add_start_def)

lemma section_starts:
  "all_section_entries n ss = Some xs \<Longrightarrow> s \<in> set ss \<Longrightarrow> section_address s \<in> set xs"
  by (induction ss arbitrary: xs) (auto simp: section_entries_def bind_eq_Some_conv)


section \<open>The scan over the shards of a section\<close>

lemma shard_boundaries_ends:
  assumes "0 < shard" "section_end + unat shard \<le> 2 ^ 32"
  shows "\<exists>bs. shard_boundaries shard section_end b = Some bs"
proof (induction "section_end - unat b" arbitrary: b rule: less_induct)
  case less
  show ?case
  proof (cases "unat b < section_end")
    case True
    have "unat (b + shard) = unat b + unat shard"
      using True assms(2) by (simp add: unat_word_ariths)
    moreover have "0 < unat shard" using assms(1) by (simp add: word_less_nat_alt)
    ultimately have "section_end - unat (b + shard) < section_end - unat b" using True by arith
    then obtain bs where "shard_boundaries shard section_end (b + shard) = Some bs" using less by blast
    then show ?thesis by (subst shard_boundaries.simps) simp
  next
    case False
    then show ?thesis by (subst shard_boundaries.simps) simp
  qed
qed

lemma shard_aligned:
  fixes b :: u32
  assumes "b AND 0x3fff = 0"
  shows "(b + 0x4000) AND 0x3fff = 0" "unat b \<le> 0xffffc000"
proof -
  have m: "(0x3fff :: u32) = mask 14" by (simp add: mask_eq_exp_minus_1)
  have z: "x AND 0x3fff = 0 \<longleftrightarrow> unat x mod 16384 = 0" for x :: u32
  proof -
    have "unat (x AND 0x3fff) = unat x mod 16384" unfolding m
      by (simp add: unat_mod take_bit_eq_mod flip: take_bit_eq_mask)
    then show ?thesis by (metis unat_eq_zero)
  qed
  have "unat (b + 0x4000) mod 16384 = (unat b + 16384) mod 4294967296 mod 16384" by (simp add: unat_word_ariths)
  also have "\<dots> = (unat b + 16384) mod 16384" by (rule mod_mod_cancel) simp
  finally show "(b + 0x4000) AND 0x3fff = 0" using assms z [of b] z [of "b + 0x4000"] by simp
  have "unat b mod 16384 = 0" using assms z [of b] by simp
  then obtain q where q: "unat b = 16384 * q" by (auto simp: mod_eq_0_iff_dvd)
  have "unat b < 4294967296" using unsigned_less [of b, where 'a = nat] by simp
  then have "q < 262144" unfolding q by linarith
  then have "q \<le> 262143" by linarith
  then show "unat b \<le> 0xffffc000" unfolding q by linarith
qed

lemma shard_boundaries_runs_on:
  assumes "shard_boundaries shard section_end b = Some bs"
  shows "shard = 0x4000 \<longrightarrow> b AND 0x3fff = 0 \<longrightarrow> section_end \<le> 0xffffc000"
proof (rule shard_boundaries.raw_induct [OF _ assms, where P = "\<lambda>shard section_end b bs.
    shard = 0x4000 \<longrightarrow> b AND 0x3fff = 0 \<longrightarrow> section_end \<le> 0xffffc000"])
  fix f and shard b :: u32 and section_end :: nat and bs
  assume "\<And>shard section_end b bs. f shard section_end b = Some bs \<Longrightarrow>
      shard = 0x4000 \<longrightarrow> b AND 0x3fff = 0 \<longrightarrow> section_end \<le> 0xffffc000"
    and "(if unat b < section_end then Option.bind (f shard section_end (b + shard)) (\<lambda>bs. Some (b # bs)) else Some []) = Some bs"
  then show "shard = 0x4000 \<longrightarrow> b AND 0x3fff = 0 \<longrightarrow> section_end \<le> 0xffffc000"
    using shard_aligned [of b] by (fastforce simp: bind_eq_Some_conv split: if_splits)
qed

text \<open>
  C32. The loop over the shards of a section ends when the section ends a shard below 4 GiB. It runs
  for ever when the section reaches into the last shard of the address space, because the
  boundary wraps to 0; 0x4000 is the size of a shard the program uses.
\<close>

theorem shard_scan:
  "(0 < shard \<and> section_end + unat shard \<le> 2 ^ 32 \<longrightarrow> (\<exists>bs. shard_boundaries shard section_end b = Some bs)) \<and>
   (0xffffc000 < section_end \<and> c AND 0x3fff = 0 \<longrightarrow> shard_boundaries 0x4000 section_end c = None)"
proof -
  have "shard_boundaries 0x4000 section_end c = None" if "0xffffc000 < section_end" "c AND 0x3fff = 0"
    using shard_boundaries_runs_on [of "0x4000" section_end c] that by (cases "shard_boundaries 0x4000 section_end c") auto
  then show ?thesis using shard_boundaries_ends by blast
qed

lemma shard_scan_witness:
  "(\<exists>bs. shard_boundaries 0x4000 0x10000 0 = Some bs) \<and> shard_boundaries 0x4000 (2 ^ 32) 0 = None"
proof -
  have "\<exists>bs. shard_boundaries 0x4000 0x10000 0 = Some bs"
    using shard_scan [of "0x4000" "0x10000" 0 0] by simp
  moreover have "shard_boundaries 0x4000 (2 ^ 32) 0 = None"
    using shard_scan [of "0x4000" "2 ^ 32" 0 0] by simp
  ultimately show ?thesis by simp
qed

section \<open>Functions\<close>

lemma discovered_starts_ok:
  assumes "discovered_starts img code_map = Inr starts"
  shows "\<forall>a\<in>starts. is_executable_word img a \<and> a \<notin> stub_address ` set (elf_imports img)"
  using assms by (auto simp: discovered_starts_def bind_result_Inr add_starts_set split: if_splits)

lemma hex_digits_inj:
  assumes "hex_digits 8 a = hex_digits 8 b"
  shows "a = b"
proof -
  have digit: "unat (drop_bit n (x :: u32) AND 15) < 16" for n x
  proof -
    have "drop_bit n x AND 15 \<le> 15" by (rule word_and_le1)
    then show ?thesis by (simp add: word_le_nat_alt)
  qed
  have inj: "m = n" if "hex_character m = hex_character n" "m < 16" "n < 16" for m n
  proof -
    have "distinct ''0123456789abcdef''" by simp
    then show ?thesis using that by (simp add: hex_character_def nth_eq_iff_index_eq)
  qed
  have each: "drop_bit (4 * (7 - k)) a AND 15 = drop_bit (4 * (7 - k)) b AND 15" if "k < 8" for k
  proof -
    have "hex_digits 8 a ! k = hex_digits 8 b ! k" using assms by simp
    then have "unat (drop_bit (4 * (7 - k)) a AND 15) = unat (drop_bit (4 * (7 - k)) b AND 15)"
      using that inj [OF _ digit digit] by (simp add: hex_digits_def)
    then show ?thesis by (simp add: word_unat_eq_iff)
  qed
  have nibble: "drop_bit (4 * j) a AND 15 = drop_bit (4 * j) b AND 15" if "j < 8" for j
  proof -
    have "7 - (7 - j) = j" "7 - j < 8" using that by simp_all
    then show ?thesis using each [of "7 - j"] by simp
  qed
  show "a = b"
  proof (rule bit_word_eqI)
    fix n assume n: "n < LENGTH(32)"
    have m: "(15 :: u32) = mask 4" by (simp add: mask_eq_exp_minus_1)
    have r: "n mod 4 < 4" "n mod 4 < 32" by (simp_all add: order.strict_trans2 [of _ 4])
    have "bit (drop_bit (4 * (n div 4)) a AND 15) (n mod 4) = bit (drop_bit (4 * (n div 4)) b AND 15) (n mod 4)"
      using nibble [of "n div 4"] n by simp
    then show "bit a n = bit b n" unfolding m using r by (simp add: bit_simps)
  qed
qed

lemma function_filename_inj:
  assumes "function_filename a s = function_filename b t"
  shows "a = b"
proof -
  have "take 8 (drop 5 (function_filename a s)) = hex_digits 8 a" for a s
    by (simp add: function_filename_def hex_digits_def)
  then show ?thesis using assms hex_digits_inj by metis
qed

lemma discovered_sorted:
  assumes "discover_functions img code_map = Inr fs"
  shows "sorted_wrt (<) (map discovered_start fs)"
proof -
  obtain starts where "map discovered_start fs = sorted_list_of_set starts"
    using assms by (auto simp: discover_functions_def bind_result_Inr Let_def comp_def)
  then show ?thesis by simp
qed


section \<open>Coverage\<close>

lemma group_total_update:
  "map_of g n = None \<Longrightarrow> group_total (AList.update n v g) = group_total g + group_count v"
  "map_of g n = Some x \<Longrightarrow> group_total (AList.update n (x\<lparr>group_count := group_count x + 1\<rparr>) g) = group_total g + 1"
  by (induction g) (auto simp: group_total_def split: if_splits)

lemma count_group_total [simp]: "group_total (count_group a i g) = group_total g + 1"
  by (auto simp: count_group_def Let_def group_total_update [simplified] split: option.split)

definition covered_total :: "Coverage \<Rightarrow> nat" where
  "covered_total c = translated_words c + excluded_words c + group_total (guarded_groups c) +
     group_total (fallback_groups c) + group_total (invalid_groups c)"

definition to_translate :: "CodeMap option \<Rightarrow> u32 \<times> u32 \<Rightarrow> bool" where
  "to_translate code_map = (\<lambda>(address, i). \<forall>c. code_map = Some c \<longrightarrow> contains_address c address)"

lemma cover_word_total:
  "covered_total (cover_word code_map c x) = covered_total c + 1"
  "group_total (invalid_groups (cover_word code_map c x)) = 0 \<longleftrightarrow>
     group_total (invalid_groups c) = 0 \<and> (to_translate code_map x \<longrightarrow> valid (decode_allegrex (snd x)))"
  by (auto simp: cover_word_def covered_total_def to_translate_def valid_def
      split: prod.splits InstructionLowering.splits)

lemma coverage_fold:
  "covered_total (foldl (cover_word code_map) c ws) = covered_total c + length ws"
  "group_total (invalid_groups (foldl (cover_word code_map) c ws)) = 0 \<longleftrightarrow>
     group_total (invalid_groups c) = 0 \<and> (\<forall>x\<in>set ws. to_translate code_map x \<longrightarrow> valid (decode_allegrex (snd x)))"
  by (induction ws arbitrary: c) (auto simp: cover_word_total)

text \<open>
  C31. The report says yes exactly when every word that the code map does not exclude decodes to an
  instruction, and its counts add up to the number of words.
\<close>

theorem coverage_exact:
  "(fst (analyze_coverage img code_map) \<longleftrightarrow>
     (\<forall>x\<in>set (all_words img). to_translate code_map x \<longrightarrow> valid (decode_allegrex (snd x)))) \<and>
   covered_total (snd (analyze_coverage img code_map)) = length (all_words img)"
  using coverage_fold [of code_map empty_coverage "all_words img"]
  by (simp add: analyze_coverage_def Let_def empty_coverage_def covered_total_def group_total_def)

section \<open>An example\<close>

lemma and_3_mod: "(a :: u32) AND 3 = 0 \<longleftrightarrow> unat a mod 4 = 0"
proof -
  have m: "(3 :: u32) = mask 2" by (simp add: mask_eq_exp_minus_1)
  have "unat (a AND 3) = unat a mod 4" unfolding m by (simp add: unat_mod take_bit_eq_mod flip: take_bit_eq_mask)
  then show ?thesis by (metis unat_eq_zero)
qed

lemma decoded_nop: "decode_allegrex 0 = native_lowering (decode_fields 0) ''sll'' 0"
  by (simp add: decode_allegrex_def Let_def vfpu_opcode_supported_def decode_special_def instruction_none_def)

lemma decoded_jr: "decode_allegrex 0x03e00008 = native_lowering (decode_fields 0x03e00008) ''jr''
    (instruction_delayed_branch OR instruction_dynamic_target)"
  by (simp add: decode_allegrex_def Let_def vfpu_opcode_supported_def decode_special_def)

lemma small_branches: "\<not> starts_delayed_branch 0" "starts_delayed_branch 0x03e00008"
  by (simp_all add: starts_delayed_branch_def decoded_nop decoded_jr has_flag_def native_lowering_def instruction_flag_defs)

lemma small_words: "all_words small_image = [(0, 0), (4, 0x03e00008)]"
  by (simp add: all_words_def section_words_def small_image_def word_at_def read_u32_def slice_bytes_def le32_def upt_rec)

lemma small_executable: "is_executable_word small_image a \<longleftrightarrow> a = 0 \<or> a = 4"
proof -
  have "is_executable_word small_image a \<longleftrightarrow> unat a mod 4 = 0 \<and> unat a + 4 \<le> 8"
    by (simp add: is_executable_word_def and_3_mod small_image_def)
  also have "\<dots> \<longleftrightarrow> unat a = 0 \<or> unat a = 4" by presburger
  also have "\<dots> \<longleftrightarrow> a = 0 \<or> a = 4" using word_unat_eq_iff [of a 4] by (simp add: unat_eq_zero)
  finally show ?thesis .
qed

lemma small_relocations: "elf_relocations small_image = []" "elf_imports small_image = []" "preferred_base small_image = 0"
  "relocated_words small_image = {}" "jump_relocation_bases small_image = Map.empty"
  "elf_entry small_image = 0"
  by (simp_all add: small_image_def relocated_words_def jump_relocation_bases_def)

lemma small_memory: "memory_image (load_segments small_image) = Inr [0, 0, 0, 0, 8, 0, 0xe0, 3, 0, 0, 0, 0, 0, 0, 0, 0]"
proof -
  have "replicate 8 (0 :: u8) = [0, 0, 0, 0, 0, 0, 0, 0]" by (simp add: eval_nat_numeral)
  then show ?thesis by (simp add: small_image_def memory_image_def memory_size_of_def overwrite_def)
qed

lemma small_scan: "scan_section Map.empty 0 \<lparr>section_name = [], section_address = 0, section_bytes = [0, 0, 0, 0, 8, 0, 0xe0, 3]\<rparr> = []"
  by (simp add: scan_section_def scanned_starts_def word_at_def read_u32_def le32_def upt_rec Let_def)

lemma small_starts: "discovered_starts small_image None = Inr {0}"
proof -
  have s: "executable_sections small_image = [\<lparr>section_name = [], section_address = 0, section_bytes = [0, 0, 0, 0, 8, 0, 0xe0, 3]\<rparr>]"
    by (simp add: small_image_def)
  show ?thesis
    by (simp add: discovered_starts_def s small_memory small_scan small_relocations code_map_starts_def add_starts_def add_start_def small_executable)
qed

lemma small_discovered: "discover_functions small_image None =
   Inr [\<lparr>discovered_start = 0, discovered_symbol = [], discovered_filename = function_filename 0 []\<rparr>]"
  by (simp add: discover_functions_def small_starts function_symbol_def Let_def)

lemma small_entries: "potential_block_entries small_image None 0 0x4000 = Some (Inr {0})"
proof -
  have "shard_boundaries 0x4000 8 0x4000 = Some []" by (subst shard_boundaries.simps) simp
  then have b: "shard_boundaries 0x4000 8 0 = Some [0]" by (subst shard_boundaries.simps) simp
  have m: "pointer_entries small_image [0, 0, 0, 0, 8, 0, 0xe0, 3, 0, 0, 0, 0, 0, 0, 0, 0] = [0, 0x03e00008, 0, 0]"
    by (simp add: pointer_entries_def small_relocations upt_rec read_u32_def le32_def)
  have c: "control_entries Map.empty 0 (0, 0) = []" "control_entries Map.empty 0 (4, 0x03e00008) = [12]"
    using small_branches by (simp_all add: control_entries_def needs_post_delay_entry_def direct_control_target_def)
  have s: "all_section_entries 0x4000 (executable_sections small_image) = Some [0, 0]"
    using b by (simp add: small_image_def section_entries_def eval_nat_numeral)
  show ?thesis
    by (simp add: potential_block_entries_def s small_memory m small_relocations small_words c code_map_entries_def add_entries_def add_entry_def
        small_executable)
qed



lemma coverage_exact_witness:
  "covered_total (snd (analyze_coverage small_image None)) = 2 \<and> fst (analyze_coverage small_image None)"
  using coverage_exact [of small_image None]
  by (simp add: small_words decoded_nop decoded_jr valid_def native_lowering_def)

end
