(* ===== verification/Stale_Pc.thy ===== *)
theory Stale_Pc
  imports Translation
begin

text \<open>
  Inside a function of a generated project the program counter is written only where it can be
  seen: at a branch, in a delay slot, before a system call and at the end. This theory shows that
  the statement of any other instruction does the same whatever the program counter holds, except
  for the field \<open>fault_pc\<close> that a failing access fills from it.
\<close>

section \<open>A state with another program counter\<close>

definition moved :: "u32 \<Rightarrow> u32 \<Rightarrow> bool \<Rightarrow> u32 \<Rightarrow> State \<Rightarrow> State" where
  "moved p q c d s = s\<lparr>pc := p, fault_pc := q, branch_pending := c, branch_target := d\<rparr>"

lemma moved_select [simp]:
  "gpr (moved p q c d s) = gpr s" "hi (moved p q c d s) = hi s" "lo (moved p q c d s) = lo s" "fpr (moved p q c d s) = fpr s"
  "fcr31 (moved p q c d s) = fcr31 s" "vfpu (moved p q c d s) = vfpu s" "vfpu_ctrl (moved p q c d s) = vfpu_ctrl s"
  "pc (moved p q c d s) = p" "memory (moved p q c d s) = memory s" "memory_base (moved p q c d s) = memory_base s"
  "scratchpad (moved p q c d s) = scratchpad s" "video_memory (moved p q c d s) = video_memory s"
  "volatile_memory (moved p q c d s) = volatile_memory s" "direct_memory_access (moved p q c d s) = direct_memory_access s"
  "native (moved p q c d s) = native s" "branch_pending (moved p q c d s) = c"
  "branch_target (moved p q c d s) = d" "stop_reason (moved p q c d s) = stop_reason s"
  "fault_address (moved p q c d s) = fault_address s" "fault_pc (moved p q c d s) = q" "host_fault (moved p q c d s) = host_fault s"
  by (simp_all add: moved_def)

lemma moved_update [simp]:
  "(moved p q c d s)\<lparr>gpr := g\<rparr> = moved p q c d (s\<lparr>gpr := g\<rparr>)" "(moved p q c d s)\<lparr>hi := v\<rparr> = moved p q c d (s\<lparr>hi := v\<rparr>)"
  "(moved p q c d s)\<lparr>lo := v\<rparr> = moved p q c d (s\<lparr>lo := v\<rparr>)" "(moved p q c d s)\<lparr>fpr := g\<rparr> = moved p q c d (s\<lparr>fpr := g\<rparr>)"
  "(moved p q c d s)\<lparr>fcr31 := v\<rparr> = moved p q c d (s\<lparr>fcr31 := v\<rparr>)" "(moved p q c d s)\<lparr>vfpu := g\<rparr> = moved p q c d (s\<lparr>vfpu := g\<rparr>)"
  "(moved p q c d s)\<lparr>vfpu_ctrl := g\<rparr> = moved p q c d (s\<lparr>vfpu_ctrl := g\<rparr>)" "(moved p q c d s)\<lparr>memory := b\<rparr> = moved p q c d (s\<lparr>memory := b\<rparr>)"
  "(moved p q c d s)\<lparr>scratchpad := b\<rparr> = moved p q c d (s\<lparr>scratchpad := b\<rparr>)"
  "(moved p q c d s)\<lparr>video_memory := b\<rparr> = moved p q c d (s\<lparr>video_memory := b\<rparr>)"
  "(moved p q c d s)\<lparr>volatile_memory := b\<rparr> = moved p q c d (s\<lparr>volatile_memory := b\<rparr>)"
  "(moved p q c d s)\<lparr>native := n\<rparr> = moved p q c d (s\<lparr>native := n\<rparr>)"
  "(moved p q c d s)\<lparr>branch_pending := e\<rparr> = moved p q e d s" "(moved p q c d s)\<lparr>branch_target := v\<rparr> = moved p q c v s"
  "(moved p q c d s)\<lparr>stop_reason := r\<rparr> = moved p q c d (s\<lparr>stop_reason := r\<rparr>)"
  "(moved p q c d s)\<lparr>fault_address := v\<rparr> = moved p q c d (s\<lparr>fault_address := v\<rparr>)"
  "(moved p q c d s)\<lparr>host_fault := e\<rparr> = moved p q c d (s\<lparr>host_fault := e\<rparr>)"
  "(moved p q c d s)\<lparr>pc := v\<rparr> = moved v q c d s" "(moved p q c d s)\<lparr>fault_pc := v\<rparr> = moved p v c d s"
  by (cases s; simp add: moved_def)+

lemma moved_moved [simp]: "moved p q c d (moved p' q' c' d' s) = moved p q c d s"
  "moved p q c d (s\<lparr>fault_pc := v\<rparr>) = moved p q c d s" "moved p q c d (s\<lparr>pc := v\<rparr>) = moved p q c d s"
  "moved p q c d (s\<lparr>pc := v, fault_pc := w\<rparr>) = moved p q c d s"
  "moved p q c d (s\<lparr>stop_reason := x, fault_address := a, fault_pc := v\<rparr>) = moved p q c d (s\<lparr>stop_reason := x, fault_address := a\<rparr>)"
  by (simp_all add: moved_def)

lemma moved_self: "moved (pc s) (fault_pc s) (branch_pending s) (branch_target s) s = s"
  by (simp add: moved_def)

text \<open>The result is the same up to the program counter, which stays, and the field \<open>fault_pc\<close>.\<close>

definition blind :: "(State \<Rightarrow> State) \<Rightarrow> bool" where
  "blind f \<longleftrightarrow> (\<forall>s p q c d. \<exists>r. f (moved p q c d s) = moved p r c d (f s))"

definition blind_load :: "(State \<Rightarrow> 'v \<times> State) \<Rightarrow> bool" where
  "blind_load f \<longleftrightarrow> (\<forall>s p q c d. \<exists>r. f (moved p q c d s) = (fst (f s), moved p r c d (snd (f s))))"

lemma blindI: "(\<And>s p q c d. \<exists>r. f (moved p q c d s) = moved p r c d (f s)) \<Longrightarrow> blind f"
  by (simp add: blind_def)

lemma blindE: "blind f \<Longrightarrow> (\<And>r. f (moved p q c d s) = moved p r c d (f s) \<Longrightarrow> P) \<Longrightarrow> P"
  unfolding blind_def by blast

lemma blind_exact: "(\<And>s p q c d. f (moved p q c d s) = moved p q c d (f s)) \<Longrightarrow> blind f"
  unfolding blind_def by blast

lemma blind_then: "blind f \<Longrightarrow> blind g \<Longrightarrow> blind (\<lambda>s. g (f s))"
  unfolding blind_def by metis

lemma blind_snd: "blind_load f \<Longrightarrow> blind (\<lambda>s. snd (f s))"
  unfolding blind_def blind_load_def by (metis snd_conv)

lemma blind_keeps:
  assumes "blind f"
  shows "pc (f s) = pc s" "branch_pending (f s) = branch_pending s" "branch_target (f s) = branch_target s"
proof -
  obtain r where "f (moved (pc s) (fault_pc s) (branch_pending s) (branch_target s) s) =
      moved (pc s) r (branch_pending s) (branch_target s) (f s)" using assms by (rule blindE)
  then have f: "f s = moved (pc s) r (branch_pending s) (branch_target s) (f s)" by (simp add: moved_self)
  show "pc (f s) = pc s" "branch_pending (f s) = branch_pending s" "branch_target (f s) = branch_target s"
    by (subst f; simp)+
qed

section \<open>Accesses to memory\<close>

lemma moved_buffers [simp]:
  "buffer_of (moved p q c d s) r = buffer_of s r" "buffer (moved p q c d s) r = buffer s r"
  "memory_size (moved p q c d s) = memory_size s" "set_buffer (moved p q c d s) r b = moved p q c d (set_buffer s r b)"
  "mapped_address (moved p q c d s) a n = mapped_address s a n" "read_at (moved p q c d s) x n = read_at s x n"
  "write_at (moved p q c d s) x bs = moved p q c d (write_at s x bs)" "native_bytes (moved p q c d s) a n = native_bytes s a n"
  "set_native_bytes (moved p q c d s) a bs = moved p q c d (set_native_bytes s a bs)"
  "note_host_fault (moved p q c d s) = moved p q c d (note_host_fault s)"
  "fast_write (moved p q c d s) off bs = moved p q c d (fast_write s off bs)"
  "fast_read (moved p q c d s) off n = (fst (fast_read s off n), moved p q c d (snd (fast_read s off n)))"
proof -
  show b: "buffer_of (moved p q c d s) r = buffer_of s r" for r by (simp add: buffer_of_def split: region.split)
  show bu: "buffer (moved p q c d s) r = buffer s r" for r by (simp add: buffer_def b)
  show m: "memory_size (moved p q c d s) = memory_size s" by (simp add: memory_size_def bu)
  show sb: "set_buffer (moved p q c d s) r b = moved p q c d (set_buffer s r b)" for r b
    by (simp add: set_buffer_def split: region.split)
  show "mapped_address (moved p q c d s) a n = mapped_address s a n" unfolding mapped_address_def region_address_def by (simp only: b bu m moved_select)
  show ra: "read_at (moved p q c d s) x n = read_at s x n" for x by (simp add: read_at_def bu)
  show wa: "write_at (moved p q c d s) x bs = moved p q c d (write_at s x bs)" for x by (simp add: write_at_def bu sb)
  show "native_bytes (moved p q c d s) a n = native_bytes s a n" by (simp add: native_bytes_def)
  show "set_native_bytes (moved p q c d s) a bs = moved p q c d (set_native_bytes s a bs)" by (simp only: set_native_bytes_def moved_select moved_update)
  show h: "note_host_fault (moved p q c d s) = moved p q c d (note_host_fault s)" by (simp add: note_host_fault_def)
  show "fast_write (moved p q c d s) off bs = moved p q c d (fast_write s off bs)" by (simp add: fast_write_def m wa h)
  show "fast_read (moved p q c d s) off n = (fst (fast_read s off n), moved p q c d (snd (fast_read s off n)))"
    by (simp add: fast_read_def m ra h)
qed

lemma moved_faults [simp]:
  "note_memory_fault (moved p q c d s) a = moved p (if q = 0 then p else q) c d (note_memory_fault s a)"
  "direct_address_ok (moved p q c d s) a n =
     (fst (direct_address_ok s a n), moved p (if fst (direct_address_ok s a n) then q else if q = 0 then p else q) c d
        (snd (direct_address_ok s a n)))"
  by (auto simp: note_memory_fault_def direct_address_ok_def)

lemma blind_loaded:
  assumes "blind_load l"
  shows "(\<And>v. blind (k v)) \<Longrightarrow> blind (\<lambda>s. case l s of (v, t) \<Rightarrow> k v t)"
    "(\<And>v. blind_load (k' v)) \<Longrightarrow> blind_load (\<lambda>s. case l s of (v, t) \<Rightarrow> k' v t)"
proof -
  have l: "\<exists>r. l (moved p q c d s) = (fst (l s), moved p r c d (snd (l s)))" for p q c d s
    using assms by (simp add: blind_load_def)
  show "blind (\<lambda>s. case l s of (v, t) \<Rightarrow> k v t)" if "\<And>v. blind (k v)"
    unfolding blind_def
  proof (intro allI)
    fix s p q c d
    show "\<exists>r. (case l (moved p q c d s) of (v, t) \<Rightarrow> k v t) = moved p r c d (case l s of (v, t) \<Rightarrow> k v t)"
      using l [of p q c d s] that by (auto simp: blind_def case_prod_beta)
  qed
  show "blind_load (\<lambda>s. case l s of (v, t) \<Rightarrow> k' v t)" if "\<And>v. blind_load (k' v)"
    unfolding blind_load_def
  proof (intro allI)
    fix s p q c d
    show "\<exists>r. (case l (moved p q c d s) of (v, t) \<Rightarrow> k' v t) =
        (fst (case l s of (v, t) \<Rightarrow> k' v t), moved p r c d (snd (case l s of (v, t) \<Rightarrow> k' v t)))"
      using l [of p q c d s] that by (auto simp: blind_load_def case_prod_beta)
  qed
qed

lemma blind_rules:
  "(\<And>s p q c d. b (moved p q c d s) = b s) \<Longrightarrow> blind f \<Longrightarrow> blind g \<Longrightarrow> blind (\<lambda>s. if b s then f s else g s)"
  "(\<And>s p q c d. x (moved p q c d s) = x s) \<Longrightarrow> blind f \<Longrightarrow> (\<And>v. blind (k v)) \<Longrightarrow>
     blind (\<lambda>s. case x s of None \<Rightarrow> f s | Some v \<Rightarrow> k v s)"
  "blind f \<Longrightarrow> blind g \<Longrightarrow> blind (\<lambda>s. case e of True \<Rightarrow> f s | False \<Rightarrow> g s)"
  by (auto simp: blind_def blind_load_def split: option.split bool.split)

lemma blind_load_rules:
  "(\<And>s p q c d. b (moved p q c d s) = b s) \<Longrightarrow> blind_load f \<Longrightarrow> blind_load g \<Longrightarrow> blind_load (\<lambda>s. if b s then f s else g s)"
  "(\<And>s p q c d. x (moved p q c d s) = x s) \<Longrightarrow> blind_load f \<Longrightarrow> (\<And>v. blind_load (k v)) \<Longrightarrow>
     blind_load (\<lambda>s. case x s of None \<Rightarrow> f s | Some v \<Rightarrow> k v s)"
  "blind_load f \<Longrightarrow> blind_load g \<Longrightarrow> blind_load (\<lambda>s. case e of True \<Rightarrow> f s | False \<Rightarrow> g s)"
  "(\<And>s p q c d. y (moved p q c d s) = y s) \<Longrightarrow> blind F \<Longrightarrow> blind_load (\<lambda>s. (y s, F s))"
  by (auto simp: blind_def blind_load_def split: option.split bool.split)

lemma blind_base:
  "blind (\<lambda>s. s)" "blind (\<lambda>s. note_memory_fault s a)" "blind (\<lambda>s. fast_write s (off (memory_base s)) bs)"
  "blind (\<lambda>s. write_at s x bs)" "blind (\<lambda>s. set_native_bytes s a bs)"
  "blind_load (\<lambda>s. direct_address_ok s a n)" "blind_load (\<lambda>s. fast_read s (off (memory_base s)) n)"
  by (auto simp: blind_def blind_load_def)

lemma blind_loads:
  "blind_load (\<lambda>s. load8 s a)" "blind_load (\<lambda>s. load16 s a)" "blind_load (\<lambda>s. load32 s a)"
  "blind_load (\<lambda>s. load_word_left s a v)" "blind_load (\<lambda>s. load_word_right s a v)"
  subgoal unfolding load8_def Let_def by (intro blind_load_rules blind_loaded blind_base; simp only: moved_select moved_buffers)
  subgoal unfolding load16_def Let_def by (intro blind_load_rules blind_loaded blind_base; simp only: moved_select moved_buffers)
  subgoal unfolding load32_def Let_def by (intro blind_load_rules blind_loaded blind_base; simp only: moved_select moved_buffers)
  subgoal unfolding load_word_left_def Let_def by (intro blind_load_rules blind_loaded blind_base; simp only: moved_select moved_buffers)
  subgoal unfolding load_word_right_def Let_def by (intro blind_load_rules blind_loaded blind_base; simp only: moved_select moved_buffers)
  done

lemma blind_stores:
  "blind (\<lambda>s. store8 s a v8)" "blind (\<lambda>s. store16 s a v16)" "blind (\<lambda>s. store32 s a v)"
  "blind (\<lambda>s. store_word_left s a v)" "blind (\<lambda>s. store_word_right s a v)"
  subgoal unfolding store8_def Let_def by (intro blind_rules blind_loaded blind_base; simp only: moved_select moved_buffers)
  subgoal unfolding store16_def Let_def by (intro blind_rules blind_loaded blind_base; simp only: moved_select moved_buffers)
  subgoal unfolding store32_def Let_def by (intro blind_rules blind_loaded blind_base; simp only: moved_select moved_buffers)
  subgoal unfolding store_word_left_def Let_def by (intro blind_rules blind_loaded blind_base; simp only: moved_select moved_buffers)
  subgoal unfolding store_word_right_def Let_def by (intro blind_rules blind_loaded blind_base; simp only: moved_select moved_buffers)
  done

section \<open>The vector unit\<close>

lemma moved_vfpu [simp]:
  "vfpu_float (moved p q c d s) i = vfpu_float s i" "set_vfpu (moved p q c d s) i v = moved p q c d (set_vfpu s i v)"
  "vfpu_read_vector (moved p q c d s) r n = vfpu_read_vector s r n"
  "vfpu_read_matrix (moved p q c d s) r n = vfpu_read_matrix s r n"
  "vfpu_read_vector_fast n (moved p q c d s) r = vfpu_read_vector_fast n s r"
  "vfpu_apply_destination_prefix (moved p q c d s) vs n b = vfpu_apply_destination_prefix s vs n b"
  "vfpu_eat_prefixes (moved p q c d s) = moved p q c d (vfpu_eat_prefixes s)"
  "vfpu_prefixes_identity (moved p q c d s) = vfpu_prefixes_identity s" "vfpu_address (moved p q c d s) i = vfpu_address s i"
  "vfpu_identity_row (moved p q c d s) vd n = vfpu_identity_row s vd n" "vfpu_select (moved p q c d s) i t n vs = vfpu_select s i t n vs"
proof -
  show f: "vfpu_float (moved p q c d s) i = vfpu_float s i" for i by (simp only: vfpu_float_def moved_select)
  show "set_vfpu (moved p q c d s) i v = moved p q c d (set_vfpu s i v)" by (simp only: set_vfpu_def moved_select moved_update)
  show r: "vfpu_read_vector (moved p q c d s) r n = vfpu_read_vector s r n" for r n by (simp only: vfpu_read_vector_def f)
  show "vfpu_read_matrix (moved p q c d s) r n = vfpu_read_matrix s r n" by (simp only: vfpu_read_matrix_def f)
  show "vfpu_read_vector_fast n (moved p q c d s) r = vfpu_read_vector_fast n s r" by (simp only: vfpu_read_vector_fast_def f)
  show "vfpu_apply_destination_prefix (moved p q c d s) vs n b = vfpu_apply_destination_prefix s vs n b"
    by (simp only: vfpu_apply_destination_prefix_def moved_select)
  show "vfpu_eat_prefixes (moved p q c d s) = moved p q c d (vfpu_eat_prefixes s)"
    by (simp only: vfpu_eat_prefixes_def moved_select moved_update)
  show "vfpu_prefixes_identity (moved p q c d s) = vfpu_prefixes_identity s" by (simp only: vfpu_prefixes_identity_def moved_select)
  show "vfpu_address (moved p q c d s) i = vfpu_address s i" by (simp only: vfpu_address_def moved_select)
  show "vfpu_identity_row (moved p q c d s) vd n = vfpu_identity_row s vd n" by (simp only: vfpu_identity_row_def moved_select)
  show "vfpu_select (moved p q c d s) i t n vs = vfpu_select s i t n vs" by (simp only: vfpu_select_def moved_select r)
qed

lemma moved_fold: "(\<And>x s. f x (moved p q c d s) = moved p q c d (f x s)) \<Longrightarrow> fold f xs (moved p q c d s) = moved p q c d (fold f xs s)"
  by (induction xs arbitrary: s) simp_all

lemma moved_write [simp]:
  "vfpu_write_vector (moved p q c d s) r n vs = moved p q c d (vfpu_write_vector s r n vs)"
  "vfpu_write_vector_fast n (moved p q c d s) r vs = moved p q c d (vfpu_write_vector_fast n s r vs)"
  "vfpu_write_matrix (moved p q c d s) r n vs = moved p q c d (vfpu_write_matrix s r n vs)"
  unfolding vfpu_write_vector_def vfpu_write_vector_fast_def vfpu_write_matrix_def
  by (auto intro!: moved_fold)

lemma moved_finish [simp]: "vfpu_finish (moved p q c d s) vd n b vs = moved p q c d (vfpu_finish s vd n b vs)"
  by (simp add: vfpu_finish_def)

lemma moved_prefix_free [simp]:
  "execute_vfpu_prefix_free h operation n (moved p q c d s) vd vs vt = moved p q c d (execute_vfpu_prefix_free h operation n s vd vs vt)"
  by (cases operation) (simp_all add: execute_vfpu_prefix_free_def Let_def)

lemma moved_immediate [simp]: "vfpu_immediate (moved p q c d s) i = moved p q c d (vfpu_immediate s i)"
  unfolding vfpu_immediate_def Let_def by (simp split: option.split)

text \<open>The groups return a state or a vector.\<close>

abbreviation moved_result :: "u32 \<Rightarrow> u32 \<Rightarrow> bool \<Rightarrow> u32 \<Rightarrow> State + u32 list \<Rightarrow> State + u32 list" where
  "moved_result p q c d \<equiv> map_sum (moved p q c d) (\<lambda>vs. vs)"

lemma moved_groups [simp]:
  "vfpu_multiply_group h (moved p q c d s) i n a b = moved_result p q c d (vfpu_multiply_group h s i n a b)"
  "vfpu_compare_group (moved p q c d s) i n a b = moved_result p q c d (vfpu_compare_group s i n a b)"
  "vfpu_reduce_group h (moved p q c d s) i type n a = moved_result p q c d (vfpu_reduce_group h s i type n a)"
  "vfpu_pack_group (moved p q c d s) i type n a = moved_result p q c d (vfpu_pack_group s i type n a)"
  "vfpu_matrix_group h m (moved p q c d s) i n a b = moved_result p q c d (vfpu_matrix_group h m s i n a b)"
  subgoal by (simp add: vfpu_multiply_group_def Let_def)
  subgoal by (simp add: vfpu_compare_group_def vfpu_compare_def Let_def)
  subgoal by (simp add: vfpu_reduce_group_def Let_def)
  subgoal by (simp add: vfpu_pack_group_def Let_def)
  subgoal by (simp add: vfpu_matrix_group_def Let_def)
  done

lemma moved_unary_group [simp]:
  "vfpu_unary_group h m (moved p q c d s) i n a = moved_result p q c d (vfpu_unary_group h m s i n a)"
  unfolding vfpu_unary_group_def Let_def
  by (simp only: if_distrib [of "moved_result p q c d"] map_sum.simps moved_finish moved_groups moved_vfpu cong: if_cong)

lemma moved_arithmetic [simp]: "vfpu_arithmetic h m (moved p q c d s) i = moved p q c d (vfpu_arithmetic h m s i)"
proof -
  have cs: "(case map_sum (moved p q c d) (\<lambda>vs. vs) x of Inl t \<Rightarrow> t | Inr vs \<Rightarrow> vfpu_finish (moved p q c d s) vd n b vs) =
      moved p q c d (case x of Inl t \<Rightarrow> t | Inr vs \<Rightarrow> vfpu_finish s vd n b vs)" for x vd n b
    by (cases x) simp_all
  have r: "Inr vs = moved_result p q c d (Inr vs)" for vs by simp
  show ?thesis
    unfolding vfpu_arithmetic_def Let_def cs [symmetric]
    by (simp only: if_distrib [of "moved_result p q c d"] map_sum.simps moved_groups moved_unary_group moved_vfpu moved_select cong: if_cong)
qed

lemma blind_choice: "(e \<Longrightarrow> blind f) \<Longrightarrow> (\<not> e \<Longrightarrow> blind g) \<Longrightarrow> blind (\<lambda>s. if e then f s else g s)"
  by (cases e) simp_all

lemma blind_reading:
  "(\<And>x. blind (f x)) \<Longrightarrow> (\<And>s p q c d. g (moved p q c d s) = g s) \<Longrightarrow> blind (\<lambda>s. f (g s) s)"
  by (simp add: blind_def)

lemma blind_fold:
  assumes "\<And>x. blind (f x)"
  shows "blind (fold f xs)"
proof (induction xs)
  case (Cons x xs)
  have "blind (\<lambda>s. fold f xs (f x s))" by (rule blind_then [OF assms Cons.IH])
  then show ?case by (simp add: comp_def)
qed (auto simp: blind_def)

lemma blind_store_places: "blind (\<lambda>s. store_places places vs s)"
proof -
  have "blind (\<lambda>s. fold (\<lambda>(lane, a) s. store32 s a (vs ! lane)) places s)"
    by (rule blind_fold) (simp add: blind_stores split: prod.split)
  then show ?thesis by (simp add: store_places_def)
qed

lemma blind_load_places: "blind_load (\<lambda>s. load_places places vs s)"
proof (induction places arbitrary: vs)
  case Nil
  then show ?case by (auto simp: load_places_def blind_load_def)
next
  case (Cons x places)
  obtain lane a where x: "x = (lane, a)" by (cases x)
  have "load_places (x # places) vs = (\<lambda>s. case load32 s a of (v, t) \<Rightarrow> load_places places (vs[lane := v]) t)"
    by (auto simp: load_places_def x fun_eq_iff split: prod.split)
  then show ?case using Cons.IH by (simp add: blind_loaded(2) blind_loads)
qed

lemma blind_vfpu_memory:
  "blind (\<lambda>s. vfpu_single s i)" "blind (\<lambda>s. vfpu_partial s i)" "blind (\<lambda>s. vfpu_quad s i)"
proof -
  have w: "blind (\<lambda>s. vfpu_write_vector s r n vs)" "blind (\<lambda>s. set_vfpu s k v)" for r n vs k v
    by (simp_all add: blind_exact)
  have loads: "blind (\<lambda>s. case load_places places vs s of (ws, t) \<Rightarrow> vfpu_write_vector t r 4 ws)"
    "blind (\<lambda>s. case load32 s a of (v, t) \<Rightarrow> set_vfpu t k v)" for places vs r a k
    by (intro blind_loaded blind_load_places blind_loads w)+
  show "blind (\<lambda>s. vfpu_single s i)" unfolding vfpu_single_def Let_def
  proof (rule blind_choice)
    show "blind (\<lambda>s. case load32 s (vfpu_address s i) of (v, t) \<Rightarrow> set_vfpu t k v)" for k
      by (rule blind_reading [where g = "\<lambda>s. vfpu_address s i" and f = "\<lambda>a s. case load32 s a of (v, t) \<Rightarrow> set_vfpu t k v"])
        (simp_all add: loads)
    show "blind (\<lambda>s. store32 s (vfpu_address s i) (vfpu s k))" for k
      by (rule blind_reading [where g = "\<lambda>s. (vfpu_address s i, vfpu s k)" and f = "\<lambda>(a, v) s. store32 s a v", simplified])
        (simp_all add: blind_stores split: prod.split)
  qed
  show "blind (\<lambda>s. vfpu_partial s i)" unfolding vfpu_partial_def Let_def
  proof (rule blind_choice)
    let ?r = "quad_register i" and ?p = "\<lambda>a. if i AND 2 = 0 then left_places a else right_places a"
    show "blind (\<lambda>s. case load_places (?p (vfpu_address s i)) (vfpu_read_vector s ?r 4) s of (ws, t) \<Rightarrow> vfpu_write_vector t ?r 4 ws)"
      by (rule blind_reading [where g = "\<lambda>s. (vfpu_address s i, vfpu_read_vector s ?r 4)" and
          f = "\<lambda>(a, vs) s. case load_places (?p a) vs s of (ws, t) \<Rightarrow> vfpu_write_vector t ?r 4 ws", simplified])
        (simp_all add: loads split: prod.split)
    show "blind (\<lambda>s. store_places (?p (vfpu_address s i)) (vfpu_read_vector s ?r 4) s)"
      by (rule blind_reading [where g = "\<lambda>s. (vfpu_address s i, vfpu_read_vector s ?r 4)" and
          f = "\<lambda>(a, vs) s. store_places (?p a) vs s", simplified])
        (simp_all add: blind_store_places split: prod.split)
  qed
  show "blind (\<lambda>s. vfpu_quad s i)" unfolding vfpu_quad_def Let_def
  proof (rule blind_choice)
    let ?r = "quad_register i"
    show "blind (\<lambda>s. case load_places (quad_places (vfpu_address s i)) [0, 0, 0, 0] s of (ws, t) \<Rightarrow> vfpu_write_vector t ?r 4 ws)"
      by (rule blind_reading [where g = "\<lambda>s. vfpu_address s i" and
          f = "\<lambda>a s. case load_places (quad_places a) [0, 0, 0, 0] s of (ws, t) \<Rightarrow> vfpu_write_vector t ?r 4 ws"])
        (simp_all add: loads)
    show "blind (\<lambda>s. store_places (quad_places (vfpu_address s i)) (vfpu_read_vector s ?r 4) s)"
      by (rule blind_reading [where g = "\<lambda>s. (vfpu_address s i, vfpu_read_vector s ?r 4)" and
          f = "\<lambda>(a, vs) s. store_places (quad_places a) vs s", simplified])
        (simp_all add: blind_store_places split: prod.split)
  qed
qed

text \<open>Of the vector instructions only the branches \<open>bvf\<close> and \<open>bvt\<close> concern the program counter.\<close>

definition vfpu_branch :: "u32 \<Rightarrow> bool" where
  "vfpu_branch i \<longleftrightarrow> drop_bit 26 i = 0x12 \<and> drop_bit 21 i AND 31 \<noteq> 3 \<and> drop_bit 21 i AND 31 \<noteq> 7"

lemma blind_vfpu:
  assumes "\<not> vfpu_branch i"
  shows "blind (\<lambda>s. execute_vfpu h m s i cur)"
proof -
  have m: "blind (\<lambda>s. vfpu_move s i cur)" if "drop_bit 26 i = 0x12"
    using assms that by (intro blind_exact) (auto simp: vfpu_move_def vfpu_branch_def Let_def)
  have x: "blind (\<lambda>s. vfpu_immediate s i)" "blind (\<lambda>s. vfpu_arithmetic h m s i)" "blind (\<lambda>s. s)"
    by (simp_all add: blind_exact)
  show ?thesis unfolding execute_vfpu_def Let_def by (intro blind_choice m x blind_vfpu_memory)
qed

section \<open>Statements\<close>

lemma moved_instruction [simp]:
  "instruction_word (moved p q c d s) cur i = instruction_word s cur i"
  "instruction_immediate (moved p q c d s) cur i = instruction_immediate s cur i"
  "instruction_signed_immediate (moved p q c d s) cur i = instruction_signed_immediate s cur i"
  "instruction_signed_immediate_s32 (moved p q c d s) cur i = instruction_signed_immediate_s32 s cur i"
  "instruction_branch_target (moved p q c d s) cur i = instruction_branch_target s cur i"
  "instruction_jump_target (moved p q c d s) cur i = instruction_jump_target s cur i"
proof -
  show w: "instruction_word (moved p q c d s) cur i = instruction_word s cur i"
    unfolding instruction_word_def by (simp only: moved_buffers)
  show m: "instruction_immediate (moved p q c d s) cur i = instruction_immediate s cur i"
    by (simp only: instruction_immediate_def w)
  show g: "instruction_signed_immediate (moved p q c d s) cur i = instruction_signed_immediate s cur i"
    by (simp only: instruction_signed_immediate_def m)
  show "instruction_signed_immediate_s32 (moved p q c d s) cur i = instruction_signed_immediate_s32 s cur i"
    by (simp only: instruction_signed_immediate_s32_def m)
  show "instruction_branch_target (moved p q c d s) cur i = instruction_branch_target s cur i"
    by (simp only: instruction_branch_target_def g)
  show "instruction_jump_target (moved p q c d s) cur i = instruction_jump_target s cur i"
    by (simp only: instruction_jump_target_def w)
qed

lemma moved_floats [simp]:
  "f32 (moved p q c d s) i = f32 s i" "set_f32 (moved p q c d s) i v = moved p q c d (set_f32 s i v)"
  "fpu_condition (moved p q c d s) cc = fpu_condition s cc"
  "set_fpu_condition (moved p q c d s) cc b = moved p q c d (set_fpu_condition s cc b)"
  "compare_f32 (moved p q c d s) cc x y k = moved p q c d (compare_f32 s cc x y k)"
  "set_gpr (moved p q c d s) i v = moved p q c d (set_gpr s i v)" "set_fpr (moved p q c d s) i v = moved p q c d (set_fpr s i v)"
  "set_hi_lo (moved p q c d s) w = moved p q c d (set_hi_lo s w)" "accumulator (moved p q c d s) = accumulator s"
proof -
  show "f32 (moved p q c d s) i = f32 s i" by (simp only: f32_def moved_select)
  show "set_f32 (moved p q c d s) i v = moved p q c d (set_f32 s i v)" by (simp only: set_f32_def moved_select moved_update)
  show "fpu_condition (moved p q c d s) cc = fpu_condition s cc" by (simp only: fpu_condition_def moved_select)
  show sc: "set_fpu_condition (moved p q c d s) cc b = moved p q c d (set_fpu_condition s cc b)" for b
    by (simp only: set_fpu_condition_def Let_def moved_select moved_update)
  show "compare_f32 (moved p q c d s) cc x y k = moved p q c d (compare_f32 s cc x y k)" by (simp only: compare_f32_def Let_def sc)
  show "set_gpr (moved p q c d s) i v = moved p q c d (set_gpr s i v)" by (simp only: set_gpr_def moved_select moved_update)
  show "set_fpr (moved p q c d s) i v = moved p q c d (set_fpr s i v)" by (simp only: set_fpr_def moved_select moved_update)
  show "set_hi_lo (moved p q c d s) w = moved p q c d (set_hi_lo s w)" by (simp only: set_hi_lo_def moved_select moved_update)
  show "accumulator (moved p q c d s) = accumulator s" by (simp only: accumulator_def moved_select)
qed

lemma moved_values [simp]:
  "word_value (moved p q c d s) cur e = word_value s cur e"
  "condition_value (moved p q c d s) cur k = condition_value s cur k"
  by (induction e and k) (simp_all only: word_value.simps condition_value.simps moved_instruction moved_floats, simp_all only: moved_select)

fun controls :: "stmt \<Rightarrow> bool" where
  "controls (Take_branch e) = True"
| "controls (Set_pc e) = True"
| "controls (Seq a b) \<longleftrightarrow> controls a \<or> controls b"
| "controls (If c a) \<longleftrightarrow> controls a"
| "controls (If_else c a b) \<longleftrightarrow> controls a \<or> controls b"
| "controls (Vfpu_fallback i address) \<longleftrightarrow> vfpu_branch i"
| "controls (Vfpu_guarded operation i address) \<longleftrightarrow> vfpu_branch i"
| "controls _ = False"

lemma blind_calls:
  "blind_load (\<lambda>s. call_load k a old s)" "blind (\<lambda>s. call_store k' a v s)"
proof -
  have pair: "blind_load (\<lambda>s. case l s of (v, t) \<Rightarrow> (g v, t))" if "blind_load l" for l :: "State \<Rightarrow> 'v \<times> State" and g
  proof (rule blind_loaded(2) [OF that, of "\<lambda>v t. (g v, t)"])
    show "blind_load (\<lambda>t. (g v, t))" for v by (auto simp: blind_load_def)
  qed
  show "blind_load (\<lambda>s. call_load k a old s)" by (cases k) (simp_all add: pair blind_loads)
  show "blind (\<lambda>s. call_store k' a v s)" by (cases k') (simp_all add: blind_stores)
qed

lemma blind_statement: "\<not> controls st \<Longrightarrow> blind (run_stmt h m cur st)"
proof (induction st)
  case (Assign p e)
  have "assign p v (moved p' q c d s) = moved p' q c d (assign p v s)" for v p' q c d s
    by (cases p) simp_all
  then show ?case by (simp add: blind_exact)
next
  case (Seq a b)
  then have "blind (run_stmt h m cur a)" "blind (run_stmt h m cur b)" by simp_all
  then have "blind (\<lambda>s. run_stmt h m cur b (run_stmt h m cur a s))" by (rule blind_then)
  then show ?case by (simp add: blind_def)
next
  case (If c a)
  then have "blind (\<lambda>s. if condition_value s cur c then run_stmt h m cur a s else s)"
    by (intro blind_rules(1) blind_base(1)) simp_all
  then show ?case by (simp add: blind_def)
next
  case (If_else c a b)
  then have "blind (\<lambda>s. if condition_value s cur c then run_stmt h m cur a s else run_stmt h m cur b s)"
    by (intro blind_rules(1)) simp_all
  then show ?case by (simp add: blind_def)
next
  case (Hi_lo k a b)
  have "hi_lo_value k x y (moved p q c d s) = moved p q c d (hi_lo_value k x y s)" for x y p q c d s
    by (cases k) (simp_all add: Let_def)
  then show ?case by (simp add: blind_exact)
next
  case (Load k t a)
  have l: "blind (\<lambda>s. case call_load k x old s of (v, s) \<Rightarrow> set_gpr s t v)" for x old
    by (intro blind_loaded blind_calls blind_exact) simp
  show ?case unfolding blind_def
  proof (intro allI)
    fix s p q c d
    show "\<exists>r. run_stmt h m cur (Load k t a) (moved p q c d s) = moved p r c d (run_stmt h m cur (Load k t a) s)"
      using l [of "word_value s cur a" "gpr s (unat t)"] by (simp add: blind_def)
  qed
next
  case (Discard k a)
  have l: "blind (\<lambda>s. snd (call_load k x 0 s))" for x by (intro blind_snd blind_calls)
  show ?case unfolding blind_def
  proof (intro allI)
    fix s p q c d
    show "\<exists>r. run_stmt h m cur (Discard k a) (moved p q c d s) = moved p r c d (run_stmt h m cur (Discard k a) s)"
      using l [of "word_value s cur a"] by (simp add: blind_def)
  qed
next
  case (Load_fpr t a)
  have l: "blind (\<lambda>s. case load32 s x of (v, s) \<Rightarrow> set_fpr s t v)" for x
    by (intro blind_loaded blind_loads blind_exact) simp
  show ?case unfolding blind_def
  proof (intro allI)
    fix s p q c d
    show "\<exists>r. run_stmt h m cur (Load_fpr t a) (moved p q c d s) = moved p r c d (run_stmt h m cur (Load_fpr t a) s)"
      using l [of "word_value s cur a"] by (simp add: blind_def)
  qed
next
  case (Store k a v)
  show ?case unfolding blind_def
  proof (intro allI)
    fix s p q c d
    show "\<exists>r. run_stmt h m cur (Store k a v) (moved p q c d s) = moved p r c d (run_stmt h m cur (Store k a v) s)"
      using blind_calls(2) [of k "word_value s cur a" "word_value s cur v"] by (simp add: blind_def)
  qed
next
  case (Vfpu_fallback i address)
  then show ?case using blind_vfpu [of i h m] by (simp add: blind_def)
next
  case (Vfpu_guarded operation i address)
  then show ?case using blind_vfpu [of i h m] by (auto simp: blind_def)
qed (simp_all add: blind_exact)

section \<open>Register 0\<close>

fun zero_safe :: "stmt \<Rightarrow> bool" where
  "zero_safe (Assign (To_gpr i) e) \<longleftrightarrow> i \<noteq> 0"
| "zero_safe (Load k i a) \<longleftrightarrow> i \<noteq> 0"
| "zero_safe (Seq a b) \<longleftrightarrow> zero_safe a \<and> zero_safe b"
| "zero_safe (If c a) \<longleftrightarrow> zero_safe a"
| "zero_safe (If_else c a b) \<longleftrightarrow> zero_safe a \<and> zero_safe b"
| "zero_safe _ = True"

lemma gpr_memory [simp]:
  "gpr (note_memory_fault s a) = gpr s" "gpr (snd (direct_address_ok s a n)) = gpr s" "gpr (note_host_fault s) = gpr s"
  "gpr (set_native_bytes s a bs) = gpr s" "gpr (write_at s x bs) = gpr s" "gpr (snd (fast_read s off n)) = gpr s"
  "gpr (fast_write s off bs) = gpr s"
proof -
  show h: "gpr (note_host_fault s) = gpr s" by (simp add: note_host_fault_def)
  show w: "gpr (write_at s x bs) = gpr s" for x by (simp add: write_at_def set_buffer_def split: region.split)
  show "gpr (note_memory_fault s a) = gpr s" by (simp add: note_memory_fault_def)
  show "gpr (snd (direct_address_ok s a n)) = gpr s" by (simp add: direct_address_ok_def)
  show "gpr (set_native_bytes s a bs) = gpr s" by (simp add: set_native_bytes_def)
  show "gpr (snd (fast_read s off n)) = gpr s" by (simp add: fast_read_def h)
  show "gpr (fast_write s off bs) = gpr s" by (simp add: fast_write_def h w)
qed

lemma gpr_native [simp]:
  "gpr (snd (case direct_address_ok s a n of (False, s') \<Rightarrow> (v, s') | (True, s') \<Rightarrow> (f s', s'))) = gpr s"
  "gpr (case direct_address_ok s a n of (False, s') \<Rightarrow> s' | (True, s') \<Rightarrow> set_native_bytes s' b bs) = gpr s"
  using gpr_memory(2) [of s a n] by (auto simp del: gpr_memory(2) split: prod.split bool.split)

lemma gpr_fast [simp]:
  "gpr (snd (case fast_read s off n of (bs, s') \<Rightarrow> (f bs, s'))) = gpr s"
  using gpr_memory(6) [of s off n] by (auto simp del: gpr_memory(6) split: prod.split)

lemma gpr_access [simp]:
  "gpr (snd (load8 s a)) = gpr s" "gpr (snd (load16 s a)) = gpr s" "gpr (snd (load32 s a)) = gpr s"
  "gpr (snd (load_word_left s a v)) = gpr s" "gpr (snd (load_word_right s a v)) = gpr s"
  "gpr (store8 s a v8) = gpr s" "gpr (store16 s a v16) = gpr s" "gpr (store32 s a v) = gpr s"
  "gpr (store_word_left s a v) = gpr s" "gpr (store_word_right s a v) = gpr s"
proof -
  note parts = if_distrib [of gpr] if_distrib [of snd] option.case_distrib [of gpr] option.case_distrib [of snd]
  have o: "(case x of None \<Rightarrow> y | Some v \<Rightarrow> y) = y" for x :: "'x option" and y :: 'y by (cases x) simp_all
  show "gpr (snd (load8 s a)) = gpr s" unfolding load8_def Let_def
    by (simp only: parts snd_conv gpr_memory gpr_native gpr_fast if_cancel o cong: if_cong option.case_cong)
  show "gpr (snd (load16 s a)) = gpr s" unfolding load16_def Let_def
    by (simp only: parts snd_conv gpr_memory gpr_native gpr_fast if_cancel o cong: if_cong option.case_cong)
  show "gpr (snd (load32 s a)) = gpr s" unfolding load32_def Let_def
    by (simp only: parts snd_conv gpr_memory gpr_native gpr_fast if_cancel o cong: if_cong option.case_cong)
  show "gpr (snd (load_word_left s a v)) = gpr s" unfolding load_word_left_def Let_def
    by (simp only: parts snd_conv gpr_memory gpr_native gpr_fast if_cancel o cong: if_cong option.case_cong)
  show "gpr (snd (load_word_right s a v)) = gpr s" unfolding load_word_right_def Let_def
    by (simp only: parts snd_conv gpr_memory gpr_native gpr_fast if_cancel o cong: if_cong option.case_cong)
  show "gpr (store8 s a v8) = gpr s" unfolding store8_def Let_def
    by (simp only: parts snd_conv gpr_memory gpr_native gpr_fast if_cancel o cong: if_cong option.case_cong)
  show "gpr (store16 s a v16) = gpr s" unfolding store16_def Let_def
    by (simp only: parts snd_conv gpr_memory gpr_native gpr_fast if_cancel o cong: if_cong option.case_cong)
  show "gpr (store32 s a v) = gpr s" unfolding store32_def Let_def
    by (simp only: parts snd_conv gpr_memory gpr_native gpr_fast if_cancel o cong: if_cong option.case_cong)
  show "gpr (store_word_left s a v) = gpr s" unfolding store_word_left_def Let_def
    by (simp only: parts snd_conv gpr_memory gpr_native gpr_fast if_cancel o cong: if_cong option.case_cong)
  show "gpr (store_word_right s a v) = gpr s" unfolding store_word_right_def Let_def
    by (simp only: parts snd_conv gpr_memory gpr_native gpr_fast if_cancel o cong: if_cong option.case_cong)
qed

lemma gpr_fold: "(\<And>x s. gpr (f x s) = gpr s) \<Longrightarrow> gpr (fold f xs s) = gpr s"
  by (induction xs arbitrary: s) simp_all

lemma gpr_set_vfpu [simp]: "gpr (set_vfpu s k v) = gpr s" "gpr (vfpu_eat_prefixes s) = gpr s"
  by (simp_all add: set_vfpu_def vfpu_eat_prefixes_def)

lemma gpr_vfpu_write [simp]:
  "gpr (vfpu_write_vector s r n vs) = gpr s" "gpr (vfpu_write_vector_fast n s r vs) = gpr s"
  "gpr (vfpu_write_matrix s r n vs) = gpr s" "gpr (store_places places vs s) = gpr s"
  unfolding vfpu_write_vector_def vfpu_write_vector_fast_def vfpu_write_matrix_def store_places_def
  by (rule gpr_fold; simp split: prod.split)+

lemma gpr_load_places [simp]: "gpr (snd (load_places places vs s)) = gpr s"
proof -
  have "gpr (snd (fold (\<lambda>(lane, a) (vs, s). let (v, s') = load32 s a in (vs[lane := v], s')) places (vs, s))) = gpr s"
  proof (induction places arbitrary: vs s)
    case (Cons x places)
    obtain lane a v t where x: "x = (lane, a)" "load32 s a = (v, t)" by (metis surj_pair)
    then have "gpr t = gpr s" using gpr_access(3) [of s a] by (simp del: gpr_access(3))
    then show ?case using Cons.IH [of "vs[lane := v]" t] x by simp
  qed simp
  then show ?thesis by (simp add: load_places_def)
qed

lemma gpr_finish [simp]: "gpr (vfpu_finish s vd n b vs) = gpr s"
  by (simp add: vfpu_finish_def)

lemma gpr_vfpu_memory [simp]: "gpr (vfpu_single s i) = gpr s" "gpr (vfpu_partial s i) = gpr s" "gpr (vfpu_quad s i) = gpr s"
proof -
  have l: "gpr (case load32 s a of (v, t) \<Rightarrow> set_vfpu t k v) = gpr s" for a k
    using gpr_access(3) [of s a] by (auto simp del: gpr_access(3) split: prod.split)
  have m: "gpr (case load_places places ws s of (vs, t) \<Rightarrow> vfpu_write_vector t r 4 vs) = gpr s" for places ws r
    using gpr_load_places [of places ws s] by (auto simp del: gpr_load_places split: prod.split)
  show "gpr (vfpu_single s i) = gpr s" unfolding vfpu_single_def Let_def by (simp add: l)
  show "gpr (vfpu_partial s i) = gpr s" unfolding vfpu_partial_def Let_def by (simp add: m)
  show "gpr (vfpu_quad s i) = gpr s" unfolding vfpu_quad_def Let_def by (simp add: m)
qed

text \<open>The groups return a state that keeps the registers, or a vector.\<close>

definition same_gpr :: "State \<Rightarrow> State + u32 list \<Rightarrow> bool" where
  "same_gpr s x \<longleftrightarrow> (\<forall>t. x = Inl t \<longrightarrow> gpr t = gpr s)"

lemma same_gpr_simps [simp]: "same_gpr s (Inr vs)" "same_gpr s (Inl t) \<longleftrightarrow> gpr t = gpr s"
  by (simp_all add: same_gpr_def)

lemma same_gpr_if: "same_gpr s x \<Longrightarrow> same_gpr s y \<Longrightarrow> same_gpr s (if b then x else y)"
  by simp

lemma same_gpr_groups:
  "same_gpr s (vfpu_multiply_group h s i n a b)" "same_gpr s (vfpu_compare_group s i n a b)"
  "same_gpr s (vfpu_reduce_group h s i type n a)" "same_gpr s (vfpu_pack_group s i type n a)"
  "same_gpr s (vfpu_matrix_group h m s i n a b)"
  subgoal unfolding vfpu_multiply_group_def Let_def by (intro same_gpr_if) simp_all
  subgoal unfolding vfpu_compare_group_def Let_def by (intro same_gpr_if) (simp_all add: vfpu_compare_def Let_def)
  subgoal unfolding vfpu_reduce_group_def Let_def by (intro same_gpr_if) simp_all
  subgoal unfolding vfpu_pack_group_def Let_def by (intro same_gpr_if) simp_all
  subgoal unfolding vfpu_matrix_group_def Let_def by (intro same_gpr_if) simp_all
  done

lemma same_gpr_unary: "same_gpr s (vfpu_unary_group h m s i n a)"
  unfolding vfpu_unary_group_def Let_def by (intro same_gpr_if same_gpr_groups) simp_all

lemma gpr_arithmetic [simp]: "gpr (vfpu_arithmetic h m s i) = gpr s"
proof -
  have result: "gpr (case x of Inl t \<Rightarrow> t | Inr vs \<Rightarrow> vfpu_finish s vd n b vs) = gpr s" if "same_gpr s x" for x vd n b
    using that by (cases x) simp_all
  show ?thesis unfolding vfpu_arithmetic_def Let_def
    by (rule result) (intro same_gpr_if same_gpr_groups same_gpr_unary same_gpr_simps(1))
qed

lemma zero_kept_vfpu: "gpr (execute_vfpu h m s i cur) 0 = gpr s 0"
proof -
  have "gpr (vfpu_move s i cur) 0 = gpr s 0"
    by (simp add: vfpu_move_def Let_def unat_eq_zero)
  moreover have "gpr (vfpu_immediate s i) = gpr s"
    unfolding vfpu_immediate_def Let_def by (simp split: option.split)
  ultimately show ?thesis unfolding execute_vfpu_def Let_def by simp
qed

lemma gpr_prefix_free: "gpr (execute_vfpu_prefix_free h operation n s vd vs vt) = gpr s"
  by (cases operation) (simp_all add: execute_vfpu_prefix_free_def Let_def)

lemma zero_kept:
  assumes "zero_safe st"
  shows "gpr (run_stmt h m cur st s) 0 = gpr s 0"
  using assms
proof (induction st arbitrary: s)
  case (Assign p e)
  then show ?case by (cases p) (simp_all add: set_gpr_def set_fpr_def unat_eq_zero)
next
  case (Hi_lo k a b)
  then show ?case by (cases k) (simp_all add: Let_def set_hi_lo_def)
next
  case (Load k t a)
  have "gpr (snd (call_load k x old s)) = gpr s" for x old s
    by (cases k) (simp_all add: case_prod_beta)
  then show ?case using Load by (simp add: case_prod_beta set_gpr_def unat_eq_zero)
next
  case (Discard k a)
  have "gpr (snd (call_load k x old s)) = gpr s" for x old s
    by (cases k) (simp_all add: case_prod_beta)
  then show ?case by simp
next
  case (Store k a v)
  then show ?case by (cases k) simp_all
next
  case (Float_compare cc fs ft k)
  then show ?case by (simp add: compare_f32_def set_fpu_condition_def Let_def)
qed (simp_all add: zero_kept_vfpu gpr_prefix_free case_prod_beta set_f32_def set_fpr_def)

lemma zero_safe_parts [simp]:
  "zero_safe (to_gpr i e)" "zero_safe nop" "zero_safe unsupported" "zero_safe (emitted_branch c likely address i relocated)"
  "zero_safe (emitted_link address)" "zero_safe (lower_load k d i relocated)"
  by (simp_all add: to_gpr_def nop_def unsupported_def emitted_branch_def emitted_link_def lower_load_def Let_def)

lemma zero_safe_if: "(b \<Longrightarrow> zero_safe x) \<Longrightarrow> (\<not> b \<Longrightarrow> zero_safe y) \<Longrightarrow> zero_safe (if b then x else y)"
  by simp

text \<open>The translator never writes register 0.\<close>

lemma lower_zero_safe: "zero_safe (lower_instruction address i relocated base)"
proof -
  have s: "zero_safe (lower_special d a)" for d a
    unfolding lower_special_def Let_def by (intro zero_safe_if) simp_all
  have r: "zero_safe (lower_regimm d a i relocated)" for d a
    unfolding lower_regimm_def Let_def by (intro zero_safe_if) simp_all
  have j: "zero_safe (lower_jump d a i relocated base)" for d a
    unfolding lower_jump_def Let_def by (intro zero_safe_if) simp_all
  have b: "zero_safe (lower_branch d a i relocated)" for d a
    unfolding lower_branch_def Let_def by (intro zero_safe_if) simp_all
  have s2: "zero_safe (lower_special2 d)" for d
    unfolding lower_special2_def Let_def by (intro zero_safe_if) simp_all
  have im: "zero_safe (lower_immediate d i relocated)" for d
    unfolding lower_immediate_def Let_def by (intro zero_safe_if) simp_all
  have f: "zero_safe (lower_fpu_operation d i)" for d
    unfolding lower_fpu_operation_def Let_def by (intro zero_safe_if) simp_all
  have c: "zero_safe (lower_cop1 d a i relocated)" for d a
    unfolding lower_cop1_def Let_def by (intro zero_safe_if f) simp_all
  have s3: "zero_safe (lower_special3 d)" for d
    unfolding lower_special3_def Let_def by (intro zero_safe_if) simp_all
  have me: "zero_safe (lower_memory d i relocated)" for d
    unfolding lower_memory_def Let_def by (intro zero_safe_if) simp_all
  show ?thesis unfolding lower_instruction_def Let_def
    by (intro zero_safe_if s r j b s2 im c s3 me) simp_all
qed

section \<open>Control transfers are flagged\<close>

lemma controls_parts [simp]:
  "\<not> controls (to_gpr i e)" "\<not> controls nop" "\<not> controls unsupported" "\<not> controls (lower_load k d i relocated)"
  by (simp_all add: to_gpr_def nop_def unsupported_def lower_load_def Let_def)

lemma calm_if: "(b \<Longrightarrow> \<not> controls x) \<Longrightarrow> (\<not> b \<Longrightarrow> \<not> controls y) \<Longrightarrow> \<not> controls (if b then x else y)"
  by simp

lemma calm_groups:
  "function_field d \<noteq> 0x08 \<Longrightarrow> function_field d \<noteq> 0x09 \<Longrightarrow> \<not> controls (lower_special d address)"
  "\<not> controls (lower_special2 d)" "\<not> controls (lower_immediate d i relocated)" "\<not> controls (lower_fpu_operation d i)"
  "rs d \<noteq> 0x08 \<Longrightarrow> \<not> controls (lower_cop1 d address i relocated)" "\<not> controls (lower_special3 d)"
  "\<not> controls (lower_memory d i relocated)"
proof -
  show "function_field d \<noteq> 0x08 \<Longrightarrow> function_field d \<noteq> 0x09 \<Longrightarrow> \<not> controls (lower_special d address)"
    unfolding lower_special_def Let_def by (intro calm_if) simp_all
  show "\<not> controls (lower_special2 d)" unfolding lower_special2_def Let_def by (intro calm_if) simp_all
  show "\<not> controls (lower_immediate d i relocated)" unfolding lower_immediate_def Let_def by (intro calm_if) simp_all
  show f: "\<not> controls (lower_fpu_operation d i)" unfolding lower_fpu_operation_def Let_def by (intro calm_if) simp_all
  show "rs d \<noteq> 0x08 \<Longrightarrow> \<not> controls (lower_cop1 d address i relocated)"
    unfolding lower_cop1_def Let_def by (intro calm_if f) simp_all
  show "\<not> controls (lower_special3 d)" unfolding lower_special3_def Let_def by (intro calm_if) simp_all
  show "\<not> controls (lower_memory d i relocated)" unfolding lower_memory_def Let_def by (intro calm_if) simp_all
qed

lemmas flagged_simps = has_flag_def instruction_flag_defs

lemma controls_flagged:
  assumes "controls (lower_instruction address i relocated base)"
  shows "has_flag (decode_allegrex i) instruction_delayed_branch"
proof -
  let ?d = "decode_allegrex i"
  have v: "valid ?d" using assms by (auto simp: lower_instruction_def Let_def split: if_splits)
  show ?thesis
  proof (cases "vfpu_opcode_supported i")
    case True
    then have d: "?d = decode_vfpu (decode_fields i)" by (simp add: decode_allegrex_def Let_def)
    then have "lowering ?d = (if vfpu_static_operation i = Vfpu_none then Runtime_fallback else Guarded_native)"
      by (simp add: decode_vfpu_def Let_def)
    then have "vfpu_branch i" using assms v by (auto simp: lower_instruction_def Let_def split: if_splits)
    then have "drop_bit 26 i = 0x12" "drop_bit 21 i AND 31 = 8"
      using True by (auto simp: vfpu_branch_def vfpu_opcode_supported_def Let_def)
    then show ?thesis by (simp add: d decode_vfpu_def Let_def flagged_simps)
  next
    case False
    then have native: "lowering ?d = Native" using native_decoded v by blast
    consider (special) "drop_bit 26 i = 0" | (regimm) "drop_bit 26 i = 1" | (other) "drop_bit 26 i \<noteq> 0" "drop_bit 26 i \<noteq> 1" by blast
    then show ?thesis
    proof cases
      case special
      then have "controls (lower_special ?d address)" using assms v native by (simp add: lower_instruction_def Let_def)
      then have "i AND 63 = 8 \<or> i AND 63 = 9" using calm_groups(1) [of ?d] by auto
      then show ?thesis using special False by (auto simp: decode_allegrex_def decode_special_def Let_def flagged_simps)
    next
      case regimm
      then have d: "?d = decode_regimm (decode_fields i)" using False by (simp add: decode_allegrex_def Let_def)
      have "drop_bit 16 i AND 31 \<in> {0, 1, 2, 3, 0x10, 0x11, 0x12, 0x13}"
        using v by (auto simp: d decode_regimm_def valid_def Let_def split: if_splits)
      then show ?thesis by (elim insertE emptyE) (simp_all add: d decode_regimm_def Let_def flagged_simps)
    next
      case other
      then have d: "?d = decode_opcode (decode_fields i)" using False by (simp add: decode_allegrex_def Let_def)
      show ?thesis
      proof (cases "drop_bit 26 i \<in> {2, 3, 4, 5, 6, 7, 0x14, 0x15, 0x16, 0x17}")
        case True
        then show ?thesis by (elim insertE emptyE) (simp_all add: d decode_opcode_def Let_def flagged_simps)
      next
        case plain: False
        let ?o = "op ?d"
        have range: "\<not> (0x04 \<le> ?o \<and> ?o \<le> 0x07 \<or> 0x14 \<le> ?o \<and> ?o \<le> 0x17)"
        proof
          assume "0x04 \<le> ?o \<and> ?o \<le> 0x07 \<or> 0x14 \<le> ?o \<and> ?o \<le> 0x17"
          then have "4 \<le> unat ?o \<and> unat ?o \<le> 7 \<or> 0x14 \<le> unat ?o \<and> unat ?o \<le> 0x17" by (simp add: word_le_nat_alt)
          then have "unat ?o \<in> {4, 5, 6, 7, 0x14, 0x15, 0x16, 0x17}" by auto
          then have "of_nat (unat ?o) \<in> (of_nat ` {4, 5, 6, 7, 0x14, 0x15, 0x16, 0x17} :: u32 set)" by (rule imageI)
          then have "?o \<in> of_nat ` {4, 5, 6, 7, 0x14, 0x15, 0x16, 0x17}" by simp
          then show False using plain by simp
        qed
        have low: "lower_instruction address i relocated base =
            (if ?o = 0x1c then lower_special2 ?d else if 0x08 \<le> ?o \<and> ?o \<le> 0x0f then lower_immediate ?d i relocated
             else if ?o = 0x11 then lower_cop1 ?d address i relocated else if ?o = 0x1f then lower_special3 ?d
             else lower_memory ?d i relocated)"
          using v native other plain range by (auto simp: lower_instruction_def Let_def)
        have cop: "?o = 0x11 \<and> controls (lower_cop1 ?d address i relocated)"
          using assms calm_groups(2,3,6,7) [of ?d] unfolding low by (auto split: if_splits)
        then have "rs ?d = 0x08" using calm_groups(5) [of ?d address i relocated] by blast
        then have "drop_bit 26 i = 0x11" "drop_bit 21 i AND 31 = 8" using cop by simp_all
        then show ?thesis
          by (simp add: d decode_opcode_def decode_cop1_def Let_def flagged_simps)
      qed
    qed
  qed
qed

end
