(* ===== verification/Generated_Program.thy ===== *)
theory Generated_Program
  imports Analysis Stale_Pc
begin

text \<open>
  The program that \<open>emit_project\<close> writes: a C++ function per guest function
  (\<open>src/emitter/project_output/functions.inc\<close>) and the dispatcher \<open>dispatch.cpp\<close>
  (\<open>project_output/dispatch.inc\<close>), built from the tables of \<open>project_output/instruction_map.inc\<close>.
  The model has two layers: \<open>generate_project\<close> computes the tables, and \<open>project_step\<close> is what the
  text written from them does, one emitted instruction, call or return at a time.
  The build without \<open>PSPRECOMP_PSP_OVERLAY\<close>, with no patch registered, is modelled.
\<close>

section \<open>The tables\<close>

record EmittedInstruction =
  emitted_pc :: u32
  emitted_word :: u32
  emitted_code :: stmt
  direct_target :: "u32 option"

definition emitted_instruction :: "ElfImage \<Rightarrow> u32 \<times> u32 \<Rightarrow> EmittedInstruction" where
  "emitted_instruction img = (\<lambda>(address, i).
     \<lparr>emitted_pc = address, emitted_word = i,
      emitted_code = lower_instruction address i (address \<in> relocated_words img) (preferred_base img),
      direct_target = direct_control_target address i (jump_relocation_bases img) (preferred_base img)\<rparr>)"

text \<open>\<open>shards\<close> is a map from the number of the shard: its values in order are the list sorted by that number.\<close>

definition shard_order :: "u32 \<Rightarrow> EmittedInstruction list \<Rightarrow> EmittedInstruction list" where
  "shard_order shard_size es = sort_key (\<lambda>e. emitted_pc e div shard_size) es"

definition delay_slot_addresses :: "ElfImage \<Rightarrow> u32 set" where
  "delay_slot_addresses img = (\<lambda>(address, i). address + 4) ` set (filter (\<lambda>(address, i). starts_delayed_branch i) (all_words img))"

definition import_stubs :: "ElfImage \<Rightarrow> u32 set" where
  "import_stubs img = stub_address ` set (elf_imports img)"

text \<open>The greatest function start up to an address.\<close>

definition owner_start :: "u32 list \<Rightarrow> u32 \<Rightarrow> u32 option" where
  "owner_start starts address =
     (let after = upper_bound (\<lambda>s. s) starts address in if after = 0 then None else Some (starts ! (after - 1)))"

definition function_body :: "u32 set \<Rightarrow> u32 list \<Rightarrow> EmittedInstruction list \<Rightarrow> u32 \<Rightarrow> EmittedInstruction list" where
  "function_body stubs starts es owner =
     filter (\<lambda>e. owner_start starts (emitted_pc e) = Some owner \<and> owner \<notin> stubs) es"

record Project =
  project_functions :: "(u32 \<times> EmittedInstruction list) list"
  project_starts :: "u32 list"
  project_entries :: "u32 set"
  project_delay_slots :: "u32 set"
  project_stubs :: "u32 set"

definition generate_project :: "ElfImage \<Rightarrow> CodeMap option \<Rightarrow> u32 \<Rightarrow> Project result option" where
  "generate_project img code_map shard_size =
     (if shard_size AND (shard_size - 1) \<noteq> 0 \<or> shard_size < 0x1000
      then Some (Inl ''shard size must be a power of two >= 0x1000'')
      else case discover_functions img code_map of
        Inl e \<Rightarrow> Some (Inl e)
      | Inr fs \<Rightarrow>
          let starts = map discovered_start fs; stubs = import_stubs img;
              es = shard_order shard_size (map (emitted_instruction img) (all_words img));
              functions = filter (\<lambda>(start, es). es \<noteq> []) (map (\<lambda>s. (s, function_body stubs starts es s)) starts);
              entry = (case code_map of None \<Rightarrow> elf_entry img | Some c \<Rightarrow> map_entry c)
          in map_option (\<lambda>r. bind_result r (\<lambda>entries.
               Inr \<lparr>project_functions = functions, project_starts = starts, project_entries = entries,
                    project_delay_slots = delay_slot_addresses img, project_stubs = stubs\<rparr>))
             (potential_block_entries img code_map entry shard_size))"

definition function_owner :: "Project \<Rightarrow> u32 \<Rightarrow> u32 option" where
  "function_owner p address = (case owner_start (project_starts p) address of
     None \<Rightarrow> None
   | Some owner \<Rightarrow> if map_of (project_functions p) owner \<noteq> None then Some owner else None)"

definition function_code :: "Project \<Rightarrow> u32 \<Rightarrow> EmittedInstruction list" where
  "function_code p start = (case map_of (project_functions p) start of None \<Rightarrow> [] | Some es \<Rightarrow> es)"

section \<open>Inside a generated function\<close>

text \<open>
  Where the execution is: at the call of a function, before an emitted instruction of one with the
  local variables \<open>apply_delayed_branch\<close> and \<open>delayed_target\<close>, back from one with its result, or at a
  \<open>goto\<close> whose label was not written, with which the file would not compile.
\<close>

datatype position = Enter u32 u32 | At u32 nat bool u32 | Finished bool | No_label

text \<open>
  A call in progress: the caller, the address where it goes on when the callee returns there, and its
  \<open>delayed_target\<close>.
\<close>

type_synonym frame = "u32 \<times> u32 option \<times> u32"

definition label_index :: "Project \<Rightarrow> u32 \<Rightarrow> u32 \<Rightarrow> nat option" where
  "label_index p start address =
     (let es = function_code p start in
      find (\<lambda>k. emitted_pc (es ! k) = address \<and> address \<in> project_entries p) [0..<length es])"

definition jump_to :: "Project \<Rightarrow> u32 \<Rightarrow> u32 \<Rightarrow> u32 \<Rightarrow> position" where
  "jump_to p start address dt = (case label_index p start address of None \<Rightarrow> No_label | Some k \<Rightarrow> At start k False dt)"

fun occurs_in :: "string \<Rightarrow> string \<Rightarrow> bool" where
  "occurs_in v [] \<longleftrightarrow> v = []"
| "occurs_in v (c # cs) \<longleftrightarrow> take (length v) (c # cs) = v \<or> occurs_in v cs"

definition writes_zero :: "EmittedInstruction \<Rightarrow> bool" where
  "writes_zero e = (case stmt_text (emitted_code e) of Inl _ \<Rightarrow> False | Inr t \<Rightarrow> occurs_in ''state.gpr[0] ='' t)"

text \<open>The code after \<open>if (apply_delayed_branch)\<close> in a delay slot at \<open>index\<close>.\<close>

definition delayed_transfer :: "Project \<Rightarrow> u32 \<Rightarrow> nat \<Rightarrow> u32 \<Rightarrow> State \<Rightarrow> position \<times> frame list" where
  "delayed_transfer p start index dt s =
     (let es = function_code p start; address = emitted_pc (es ! index);
          control = (if index \<noteq> 0 \<and> emitted_pc (es ! (index - 1)) + 4 = address then Some (es ! (index - 1)) else None) in
      case Option.bind control direct_target of
        None \<Rightarrow> (Finished True, [])
      | Some t \<Rightarrow>
          let opc = drop_bit 26 (emitted_word (the control)); known = (map_of (project_functions p) t \<noteq> None) in
          if dt \<noteq> memory_base s + t then (Finished True, [])
          else if opc = 0x03 \<and> known then
            (Enter t dt, [(start, if function_owner p (address + 4) = Some start \<and> address + 4 \<in> project_entries p
                                  then Some (address + 4) else None, dt)])
          else if opc = 0x02 \<and> known \<and> t \<noteq> start then (Enter t dt, [])
          else if function_owner p t = Some start \<and> t \<in> project_entries p then (jump_to p start t dt, [])
          else (Finished True, []))"

text \<open>One emitted instruction with everything around it.\<close>

definition has_next :: "Project \<Rightarrow> u32 \<Rightarrow> nat \<Rightarrow> bool" where
  "has_next p start index \<longleftrightarrow> (let es = function_code p start in
     index + 1 < length es \<and> emitted_pc (es ! (index + 1)) = emitted_pc (es ! index) + 4 \<and>
     emitted_pc (es ! (index + 1)) \<notin> project_stubs p)"

definition run_emitted ::
  "HostFpu \<Rightarrow> HostMath \<Rightarrow> Project \<Rightarrow> u32 \<Rightarrow> nat \<Rightarrow> bool \<Rightarrow> u32 \<Rightarrow> State \<Rightarrow> position \<times> frame list \<times> State" where
  "run_emitted h m p start index adb dt s =
     (let e = function_code p start ! index; next_pc = memory_base s + (emitted_pc e + 4);
          more = has_next p start index; slot = emitted_pc e \<in> project_delay_slots p;
          is_control = starts_delayed_branch (emitted_word e); stops = may_stop_execution (emitted_word e);
          s = (if slot \<or> is_control \<or> stops \<or> \<not> more then s\<lparr>pc := next_pc\<rparr> else s);
          s = run_stmt h m (memory_base s + emitted_pc e) (emitted_code e) s;
          s = (if writes_zero e then set_gpr s 0 0 else s) in
      if stops \<and> stop_reason s \<noteq> Running then (Finished True, [], s)
      else if slot \<and> adb then
        (let s = s\<lparr>pc := dt\<rparr>; (next, frames) = delayed_transfer p start index dt s in (next, frames, s))
      else if is_control \<and> pc s \<noteq> memory_base s + (emitted_pc e + 4) then (Finished True, [], s)
      else if \<not> more then (Finished True, [], s)
      else if is_control
        then (At start (index + 1) (branch_pending s) (branch_target s), [], s\<lparr>branch_pending := False\<rparr>)
      else (At start (index + 1) adb dt, [], s))"

type_synonym configuration = "position \<times> frame list \<times> State"

fun project_step :: "HostFpu \<Rightarrow> HostMath \<Rightarrow> Project \<Rightarrow> configuration \<Rightarrow> configuration" where
  "project_step h m p (Enter start entry, frames, s) =
     (let adb = branch_pending s; dt = branch_target s; s = s\<lparr>branch_pending := False\<rparr> in
      case label_index p start (entry - memory_base s) of
        None \<Rightarrow> (Finished False, frames, s)
      | Some k \<Rightarrow> (At start k adb dt, frames, s))"
| "project_step h m p (At start index adb dt, frames, s) =
     (let (next, calls, s) = run_emitted h m p start index adb dt s in (next, calls @ frames, s))"
| "project_step h m p (Finished r, (start, resume, dt) # frames, s) =
     (if \<not> r then (Finished False, frames, s)
      else if stop_reason s \<noteq> Running then (Finished True, frames, s)
      else case resume of
        None \<Rightarrow> (Finished True, frames, s)
      | Some a \<Rightarrow> if \<not> branch_pending s \<and> pc s = memory_base s + a then (jump_to p start a dt, frames, s)
                  else (Finished True, frames, s))"
| "project_step h m p (Finished r, [], s) = (Finished r, [], s)"
| "project_step h m p (No_label, frames, s) = (No_label, frames, s)"

definition project_run :: "HostFpu \<Rightarrow> HostMath \<Rightarrow> Project \<Rightarrow> nat \<Rightarrow> configuration \<Rightarrow> configuration" where
  "project_run h m p n = project_step h m p ^^ n"

section \<open>The dispatcher\<close>

record Dispatcher =
  route_hint :: u32
  dispatch_cache :: "nat \<Rightarrow> u32 \<times> u32 option"

definition initial_dispatcher :: Dispatcher where
  "initial_dispatcher = \<lparr>route_hint = 0, dispatch_cache = (\<lambda>_. (0, None))\<rparr>"

function find_route :: "u32 list \<Rightarrow> u32 \<Rightarrow> nat \<Rightarrow> nat \<Rightarrow> nat" where
  "find_route starts off first final =
     (if first < final then
        let middle = first + (final - first) div 2 in
        if starts ! middle \<le> off then find_route starts off (middle + 1) final
        else find_route starts off first middle
      else first)"
  by pat_completeness auto
termination by (relation "measure (\<lambda>(starts, off, first, final). final - first)") auto

declare find_route.simps [simp del]

text \<open>The function an address is sent to: by the cache, by the hint, or by binary search.\<close>

definition dispatch_route :: "Project \<Rightarrow> u32 \<Rightarrow> u32 \<Rightarrow> Dispatcher \<Rightarrow> u32 option \<times> Dispatcher" where
  "dispatch_route p base current_pc d =
     (let off = current_pc - base; starts = map fst (project_functions p);
          cache_idx = unat (drop_bit 2 off AND 1023); count = length starts; hint = unat (route_hint d) in
      if fst (dispatch_cache d cache_idx) = current_pc \<and> snd (dispatch_cache d cache_idx) \<noteq> None
      then (snd (dispatch_cache d cache_idx), d)
      else if hint < count \<and> starts ! hint \<le> off \<and> (hint + 1 = count \<or> off < starts ! (hint + 1))
      then (Some (starts ! hint), d\<lparr>dispatch_cache := (dispatch_cache d)(cache_idx := (current_pc, Some (starts ! hint)))\<rparr>)
      else let first = find_route starts off 0 count in
        if first = 0 then (None, d)
        else let d = d\<lparr>route_hint := of_nat (first - 1)\<rparr>; start = starts ! unat (route_hint d) in
          (Some start, d\<lparr>dispatch_cache := (dispatch_cache d)(cache_idx := (current_pc, Some start))\<rparr>))"

text \<open>A generated function runs until it returns; \<open>None\<close> when it has not within the given number of steps.\<close>

definition run_function ::
  "HostFpu \<Rightarrow> HostMath \<Rightarrow> Project \<Rightarrow> nat \<Rightarrow> u32 \<Rightarrow> u32 \<Rightarrow> State \<Rightarrow> (bool \<times> State) option" where
  "run_function h m p n start entry s = (case project_run h m p n (Enter start entry, [], s) of
     (Finished r, [], t) \<Rightarrow> Some (r, t) | _ \<Rightarrow> None)"

text \<open>
  \<open>platform\<close> stands for \<open>platform::dispatch_import\<close>, the host's implementation of the imports.
\<close>

definition dispatch_block ::
  "HostFpu \<Rightarrow> HostMath \<Rightarrow> Project \<Rightarrow> ElfImage \<Rightarrow> (u32 \<Rightarrow> State \<Rightarrow> bool \<times> State) \<Rightarrow> nat \<Rightarrow> u32 \<Rightarrow> State \<times> Dispatcher \<Rightarrow>
     (bool \<times> State \<times> Dispatcher) option" where
  "dispatch_block h m p img platform n current_pc = (\<lambda>(s, d).
     let off = current_pc - memory_base s; stubs = map stub_address (elf_imports img);
         asked = (stubs \<noteq> [] \<and> \<not> branch_pending s \<and> Min (set stubs) \<le> off \<and> off \<le> Max (set stubs));
         (handled, s) = (if asked then platform current_pc s else (False, s)) in
     if handled then Some (True, s, d)
     else let (route, d) = dispatch_route p (memory_base s) current_pc d in
       case route of
         None \<Rightarrow> Some (False, s, d)
       | Some start \<Rightarrow> map_option (\<lambda>(r, s). (r, s, d)) (run_function h m p n start current_pc s))"

fun project_loop ::
  "HostFpu \<Rightarrow> HostMath \<Rightarrow> Project \<Rightarrow> ElfImage \<Rightarrow> (u32 \<Rightarrow> State \<Rightarrow> bool \<times> State) \<Rightarrow> nat \<Rightarrow> u32 \<Rightarrow> nat \<Rightarrow>
     State \<times> Dispatcher \<Rightarrow> (State \<times> Dispatcher) option" where
  "project_loop h m p img platform n return_address 0 (s, d) = Some (s\<lparr>stop_reason := Step_limit\<rparr>, d)"
| "project_loop h m p img platform n return_address (Suc max_steps) (s, d) =
     (if pc s = return_address \<and> \<not> branch_pending s then Some (s\<lparr>stop_reason := Returned\<rparr>, d)
      else let current_pc = pc s in
        case dispatch_block h m p img platform n current_pc (s, d) of
          None \<Rightarrow> None
        | Some (translated, s, d) \<Rightarrow>
            let (interpreted, s) = (if translated then (True, s) else interpret_allegrex h m s current_pc) in
            if \<not> interpreted then
              Some (if stop_reason s = Running
                    then s\<lparr>stop_reason := Invalid_pc, fault_address := current_pc, fault_pc := current_pc\<rparr> else s, d)
            else if stop_reason s \<noteq> Running then Some (s, d)
            else project_loop h m p img platform n return_address max_steps (s, d))"

definition generated_run ::
  "HostFpu \<Rightarrow> HostMath \<Rightarrow> Project \<Rightarrow> ElfImage \<Rightarrow> (u32 \<Rightarrow> State \<Rightarrow> bool \<times> State) \<Rightarrow> nat \<Rightarrow> u32 \<Rightarrow> nat \<Rightarrow>
     State \<times> Dispatcher \<Rightarrow> (State \<times> Dispatcher) option" where
  "generated_run h m p img platform n return_address max_steps = (\<lambda>(s, d).
     project_loop h m p img platform n return_address max_steps (s\<lparr>stop_reason := Running\<rparr>, d))"

section \<open>The dispatcher finds the function\<close>

lemma upper_bound_unique:
  assumes "sorted_wrt (<) xs" "k \<le> length xs" "\<And>i. i < k \<Longrightarrow> xs ! i \<le> (a :: u32)" "\<And>i. k \<le> i \<Longrightarrow> i < length xs \<Longrightarrow> a < xs ! i"
  shows "upper_bound (\<lambda>s. s) xs a = k"
proof -
  have "takeWhile (\<lambda>x. x \<le> a) xs = take k xs"
    by (rule takeWhile_eq_take_P_nth) (use assms(2-4) in \<open>auto simp: not_le\<close>)
  then show ?thesis using assms(2) by (simp add: upper_bound_def)
qed

lemma find_route_upper_bound:
  assumes "sorted_wrt (<) starts" "first \<le> final" "final \<le> length starts"
    "\<And>i. i < first \<Longrightarrow> starts ! i \<le> off" "\<And>i. final \<le> i \<Longrightarrow> i < length starts \<Longrightarrow> off < starts ! i"
  shows "find_route starts off first final = upper_bound (\<lambda>s. s) starts off"
  using assms
proof (induction starts off first final rule: find_route.induct)
  case (1 starts off first final)
  have mono: "starts ! i \<le> starts ! j" if "i \<le> j" "j < length starts" for i j
    using that "1.prems"(1) by (cases "i = j") (auto simp: sorted_wrt_iff_nth_less intro: less_imp_le)
  show ?case
  proof (cases "first < final")
    case False
    then have "upper_bound (\<lambda>s. s) starts off = first"
      using "1.prems" by (intro upper_bound_unique) auto
    then show ?thesis using False by (simp add: find_route.simps)
  next
    case True
    let ?m = "first + (final - first) div 2"
    have m: "first \<le> ?m" "?m < final" using True by auto
    show ?thesis
    proof (cases "starts ! ?m \<le> off")
      case le: True
      have "find_route starts off (?m + 1) final = upper_bound (\<lambda>s. s) starts off"
      proof (rule "1.IH"(1) [OF True refl le "1.prems"(1)])
        show "starts ! i \<le> off" if "i < ?m + 1" for i
        proof -
          have "starts ! i \<le> starts ! ?m" using mono [of i ?m] that m "1.prems"(3) by linarith
          then show ?thesis using le by (rule order_trans)
        qed
      qed (use m "1.prems" in auto)
      then show ?thesis using True le by (subst find_route.simps) (simp add: Let_def)
    next
      case gt: False
      have "find_route starts off first ?m = upper_bound (\<lambda>s. s) starts off"
      proof (rule "1.IH"(2) [OF True refl gt "1.prems"(1)])
        show "off < starts ! i" if "?m \<le> i" "i < length starts" for i
          using mono [of ?m i] that gt by (simp add: not_le less_le_trans)
      qed (use m "1.prems" in auto)
      then show ?thesis using True gt by (subst find_route.simps) (simp add: Let_def)
    qed
  qed
qed

text \<open>What the cache may hold: the right function for its address, at the given memory base.\<close>

definition cache_ok :: "Project \<Rightarrow> u32 \<Rightarrow> Dispatcher \<Rightarrow> bool" where
  "cache_ok p base d \<longleftrightarrow> (\<forall>i r. snd (dispatch_cache d i) = Some r \<longrightarrow>
     owner_start (map fst (project_functions p)) (fst (dispatch_cache d i) - base) = Some r)"

text \<open>
  C12. The cache, the hint and the binary search all agree: an address goes to the last function that
  starts at or before it. The cache keeps that property while the memory base stays.
\<close>

theorem dispatch_finds_owner:
  assumes "sorted_wrt (<) (map fst (project_functions p))" "length (project_functions p) < 2 ^ 32" "cache_ok p base d"
  shows "fst (dispatch_route p base current_pc d) = owner_start (map fst (project_functions p)) (current_pc - base) \<and>
    cache_ok p base (snd (dispatch_route p base current_pc d))"
proof -
  let ?starts = "map fst (project_functions p)" and ?off = "current_pc - base"
  let ?idx = "unat (drop_bit 2 ?off AND 1023)"
  have keep: "cache_ok p base (d'\<lparr>dispatch_cache := (dispatch_cache d)(k := (current_pc, Some r))\<rparr>)"
    if "owner_start ?starts ?off = Some r" for d' k r
    using assms(3) that by (simp add: cache_ok_def)
  have owner: "owner_start ?starts ?off = Some (?starts ! k)"
    if "k < length ?starts" "?starts ! k \<le> ?off" "k + 1 = length ?starts \<or> ?off < ?starts ! (k + 1)" for k
  proof -
    have mono: "?starts ! i < ?starts ! j" if "i < j" "j < length ?starts" for i j
      using that assms(1) by (simp add: sorted_wrt_iff_nth_less)
    have "upper_bound (\<lambda>s. s) ?starts ?off = k + 1"
    proof (rule upper_bound_unique [OF assms(1)])
      show "?starts ! i \<le> ?off" if "i < k + 1" for i
        using mono [of i k] that \<open>k < length ?starts\<close> \<open>?starts ! k \<le> ?off\<close> by (cases "i = k") auto
      show "?off < ?starts ! i" if "k + 1 \<le> i" "i < length ?starts" for i
        using mono [of "k + 1" i] that \<open>k + 1 = length ?starts \<or> ?off < ?starts ! (k + 1)\<close> by (cases "i = k + 1") auto
    qed (use that in simp)
    then show ?thesis by (simp add: owner_start_def)
  qed
  consider (cache) r where "dispatch_cache d ?idx = (current_pc, Some r)"
    | (hint) "\<not> (fst (dispatch_cache d ?idx) = current_pc \<and> snd (dispatch_cache d ?idx) \<noteq> None)"
        "unat (route_hint d) < length ?starts" "?starts ! unat (route_hint d) \<le> ?off"
        "unat (route_hint d) + 1 = length ?starts \<or> ?off < ?starts ! (unat (route_hint d) + 1)"
    | (search) "\<not> (fst (dispatch_cache d ?idx) = current_pc \<and> snd (dispatch_cache d ?idx) \<noteq> None)"
        "\<not> (unat (route_hint d) < length ?starts \<and> ?starts ! unat (route_hint d) \<le> ?off \<and>
           (unat (route_hint d) + 1 = length ?starts \<or> ?off < ?starts ! (unat (route_hint d) + 1)))"
  proof (cases "fst (dispatch_cache d ?idx) = current_pc \<and> snd (dispatch_cache d ?idx) \<noteq> None")
    case True
    then show thesis using that(1) by (cases "dispatch_cache d ?idx") auto
  next
    case False
    then show thesis using that(2,3) by blast
  qed
  then show ?thesis
  proof cases
    case cache
    then have "dispatch_route p base current_pc d = (Some r, d)" by (simp add: dispatch_route_def Let_def)
    moreover have "owner_start ?starts ?off = Some r" using assms(3) cache unfolding cache_ok_def by (metis fst_conv snd_conv)
    ultimately show ?thesis using assms(3) by simp
  next
    case hint
    let ?s = "?starts ! unat (route_hint d)"
    have "dispatch_route p base current_pc d =
        (Some ?s, d\<lparr>dispatch_cache := (dispatch_cache d)(?idx := (current_pc, Some ?s))\<rparr>)"
      unfolding dispatch_route_def Let_def using hint by (simp only: if_False if_True simp_thms)
    then show ?thesis using owner [OF hint(2-4)] keep [of ?s ?idx d] by simp
  next
    case search
    let ?f = "find_route ?starts ?off 0 (length ?starts)"
    have f: "?f = upper_bound (\<lambda>s. s) ?starts ?off"
      by (rule find_route_upper_bound) (use assms(1) in auto)
    have "?f \<le> length ?starts" unfolding f by (simp add: upper_bound_def length_takeWhile_le [THEN order_trans])
    then have u: "unat (of_nat (?f - 1) :: u32) = ?f - 1" using assms(2) by (simp add: unat_of_nat)
    have o: "owner_start ?starts ?off = (if ?f = 0 then None else Some (?starts ! (?f - 1)))"
      unfolding owner_start_def Let_def f by (rule refl)
    show ?thesis
    proof (cases "?f = 0")
      case True
      then have "dispatch_route p base current_pc d = (None, d)"
        unfolding dispatch_route_def Let_def using search by (simp only: if_False if_True simp_thms)
      then show ?thesis using o True assms(3) by simp
    next
      case False
      let ?s = "?starts ! (?f - 1)" and ?d = "d\<lparr>route_hint := of_nat (?f - 1)\<rparr>"
      have "dispatch_route p base current_pc d =
          (Some ?s, ?d\<lparr>dispatch_cache := (dispatch_cache d)(?idx := (current_pc, Some ?s))\<rparr>)"
        unfolding dispatch_route_def Let_def using search False u by (simp only: if_False if_True simp_thms, simp)
      then show ?thesis using o False keep [of ?s ?idx ?d] by simp
    qed
  qed
qed

section \<open>A generated function does what the interpreter does\<close>

text \<open>Equal but for the address a failed access is blamed on.\<close>

definition same_machine :: "State \<Rightarrow> State \<Rightarrow> bool" where
  "same_machine s t \<longleftrightarrow> s\<lparr>fault_pc := 0\<rparr> = t\<lparr>fault_pc := 0\<rparr>"

lemma same_machine_refl [simp]: "same_machine s s"
  by (simp add: same_machine_def)

lemma same_machine_trans: "same_machine s t \<Longrightarrow> same_machine t u \<Longrightarrow> same_machine s u"
  by (simp add: same_machine_def)

lemma same_machine_sym: "same_machine s t \<Longrightarrow> same_machine t s"
  by (simp add: same_machine_def)

lemma same_machine_iff: "same_machine s t \<longleftrightarrow> (\<exists>q. t = s\<lparr>fault_pc := q\<rparr>)"
proof
  assume "same_machine s t"
  then have "t = s\<lparr>fault_pc := fault_pc t\<rparr>" unfolding same_machine_def by (cases s; cases t) simp
  then show "\<exists>q. t = s\<lparr>fault_pc := q\<rparr>" by blast
qed (auto simp: same_machine_def)

lemma fault_pc_moved: "s\<lparr>fault_pc := q\<rparr> = moved (pc s) q (branch_pending s) (branch_target s) s"
  by (simp add: moved_def)

lemma blind_fault_pc: "blind f \<Longrightarrow> \<exists>r. f (s\<lparr>fault_pc := q\<rparr>) = (f s)\<lparr>fault_pc := r\<rparr>"
  unfolding fault_pc_moved using blind_keeps [of f s] by (auto elim!: blindE [of f])

lemma fault_pc_reads:
  "word_value (s\<lparr>fault_pc := q\<rparr>) cur e = word_value s cur e"
  "condition_value (s\<lparr>fault_pc := q\<rparr>) cur c = condition_value s cur c"
  "vfpu_prefixes_identity (s\<lparr>fault_pc := q\<rparr>) = vfpu_prefixes_identity s"
  unfolding fault_pc_moved by simp_all

lemma fault_pc_vfpu:
  "\<exists>r. execute_vfpu h m (s\<lparr>fault_pc := q\<rparr>) i a = (execute_vfpu h m s i a)\<lparr>fault_pc := r\<rparr>"
  "\<exists>r. execute_vfpu_prefix_free h operation n (s\<lparr>fault_pc := q\<rparr>) x y z =
     (execute_vfpu_prefix_free h operation n s x y z)\<lparr>fault_pc := r\<rparr>"
proof -
  show "\<exists>r. execute_vfpu h m (s\<lparr>fault_pc := q\<rparr>) i a = (execute_vfpu h m s i a)\<lparr>fault_pc := r\<rparr>"
  proof (cases "vfpu_branch i")
    case True
    have "vfpu_move (s\<lparr>fault_pc := q\<rparr>) i a = (vfpu_move s i a)\<lparr>fault_pc := q\<rparr>"
      using True by (simp add: vfpu_move_def vfpu_branch_def Let_def)
    then show ?thesis using True by (auto simp: execute_vfpu_def vfpu_branch_def)
  qed (rule blind_fault_pc [OF blind_vfpu])
  show "\<exists>r. execute_vfpu_prefix_free h operation n (s\<lparr>fault_pc := q\<rparr>) x y z =
     (execute_vfpu_prefix_free h operation n s x y z)\<lparr>fault_pc := r\<rparr>"
    by (rule blind_fault_pc [OF blind_exact]) simp
qed

text \<open>Any statement does the same whatever \<open>fault_pc\<close> holds.\<close>

lemma statement_fault_pc: "\<exists>r. run_stmt h m cur st (s\<lparr>fault_pc := q\<rparr>) = (run_stmt h m cur st s)\<lparr>fault_pc := r\<rparr>"
proof (induction st arbitrary: s q)
  case (Take_branch e)
  show ?case by (rule exI [of _ q]) (simp add: fault_pc_reads)
next
  case (Set_pc e)
  show ?case by (rule exI [of _ q]) (simp add: fault_pc_reads)
next
  case (Seq a b)
  then show ?case by (metis run_stmt.simps(5))
next
  case (If c a)
  then show ?case by (cases "condition_value s cur c") (auto simp: fault_pc_reads)
next
  case (If_else c a b)
  then show ?case by (simp add: fault_pc_reads)
next
  case (Vfpu_fallback i address)
  show ?case using fault_pc_vfpu(1) [where s = s and q = q] by simp
next
  case (Vfpu_guarded operation i address)
  show ?case using fault_pc_vfpu(1) [where s = s and q = q] fault_pc_vfpu(2) [where s = s and q = q] by (simp add: fault_pc_reads)
qed (rule blind_fault_pc [OF blind_statement], simp)+

lemma statement_same:
  assumes "same_machine s t"
  shows "same_machine (run_stmt h m cur st s) (run_stmt h m cur st t)"
proof -
  obtain q where "t = s\<lparr>fault_pc := q\<rparr>" using assms by (auto simp: same_machine_iff)
  then show ?thesis using statement_fault_pc [where s = s] by (auto simp: same_machine_iff)
qed

definition interpreted :: "HostFpu \<Rightarrow> HostMath \<Rightarrow> State \<Rightarrow> State" where
  "interpreted h m s = snd (interpret_allegrex h m s (pc s))"

text \<open>The word in memory is the one that was translated, up to relocation, and the translation of it is exact.\<close>

definition translated_here :: "ElfImage \<Rightarrow> EmittedInstruction \<Rightarrow> State \<Rightarrow> bool" where
  "translated_here img e s \<longleftrightarrow>
     (let i = emitted_word e; r = (emitted_pc e \<in> relocated_words img) in
      \<not> translated_differently i \<and> (drop_bit 26 i \<in> {2, 3} \<longrightarrow> r \<or> memory_base s = preferred_base img) \<and>
      (\<exists>w. word_in_memory s (memory_base s + emitted_pc e) w \<and> loaded_word i r w \<and> valid (decode_allegrex w) \<and>
         \<not> vsocp_overflow w))"

lemma word_in_memory_frame:
  "word_in_memory (moved p q c d s) a w = word_in_memory s a w" "wf_state (moved p q c d s) = wf_state s"
  by (simp_all add: word_in_memory_def wf_state_def)

lemma moved_pc_pending: "s\<lparr>pc := a, branch_pending := b\<rparr> = moved a (fault_pc s) b (branch_target s) s"
  by (simp add: moved_def)

lemma interpreted_statement:
  fixes h :: HostFpu and m :: HostMath
  assumes "wf_state s" "stop_reason s = Running" "pc s = memory_base s + emitted_pc e" "translated_here img e s"
    "e = emitted_instruction img (emitted_pc e, emitted_word e)" "gpr s 0 = 0"
  defines "t \<equiv> run_stmt h m (pc s) (emitted_code e) (s\<lparr>branch_pending := False, pc := pc s + 4\<rparr>)"
  shows "interpreted h m s = (if stop_reason t = Running \<and> branch_pending s then t\<lparr>pc := branch_target s\<rparr> else t)"
    "gpr t 0 = 0" "wf_state t" "memory_base t = memory_base s"
proof -
  let ?i = "emitted_word e" and ?r = "emitted_pc e \<in> relocated_words img" and ?b = "preferred_base img"
  have code: "emitted_code e = lower_instruction (emitted_pc e) ?i ?r ?b"
    by (subst assms(5)) (simp add: emitted_instruction_def)
  obtain w where w: "word_in_memory s (pc s) w" "loaded_word ?i ?r w" "valid (decode_allegrex w)" "\<not> vsocp_overflow w"
    using assms(4) by (auto simp: translated_here_def Let_def assms(3))
  have off: "pc s - memory_base s = emitted_pc e" using assms(3) by simp
  have tr: "translates (\<lambda>_. Some (emitted_code e)) s ?i ?r ?b w"
    using assms(4) w by (simp add: translates_def off code translated_here_def Let_def)
  show g: "gpr t 0 = 0" unfolding t_def code using zero_kept [OF lower_zero_safe] assms(6) by simp
  then have z: "set_gpr t 0 0 = t" by (cases t) (auto simp: set_gpr_def fun_upd_idem_iff)
  have "interpreted h m s = generated_step h m (\<lambda>_. Some (emitted_code e)) s"
    unfolding interpreted_def by (rule generated_step_interprets [OF assms(1,2) tr, symmetric])
  then show i: "interpreted h m s = (if stop_reason t = Running \<and> branch_pending s then t\<lparr>pc := branch_target s\<rparr> else t)"
    by (simp add: generated_step_def Let_def t_def [symmetric] z)
  have ok: "wf_state (interpreted h m s)" "same_layout s (interpreted h m s)"
    unfolding interpreted_def using interpret_step_ok [OF assms(1)] word_in_memory_load(1) [OF assms(1) w(1)] w(4)
    by (auto simp: step_ok_def intro: wf_state_layout [OF assms(1)])
  have "memory_base (interpreted h m s) = memory_base s" using ok(2) by (simp add: same_layout_def)
  then show "memory_base t = memory_base s" using i by (simp split: if_splits)
  from ok(1) have "wf_state (moved (pc t) (fault_pc t) (branch_pending t) (branch_target t) (interpreted h m s))"
    by (simp add: word_in_memory_frame)
  then show "wf_state t" using i by (simp add: moved_def split: if_splits)
qed

text \<open>The state of the guest that a configuration stands for.\<close>

fun machine_of :: "Project \<Rightarrow> configuration \<Rightarrow> State" where
  "machine_of p (At start k adb dt, frames, s) =
     s\<lparr>pc := memory_base s + emitted_pc (function_code p start ! k), branch_pending := adb\<rparr>"
| "machine_of p (_, frames, s) = s"

fun consistent :: "Project \<Rightarrow> configuration \<Rightarrow> bool" where
  "consistent p (At start k adb dt, frames, s) \<longleftrightarrow> k < length (function_code p start) \<and> \<not> branch_pending s \<and>
     (adb \<longrightarrow> dt = branch_target s \<and> emitted_pc (function_code p start ! k) \<in> project_delay_slots p)"
| "consistent p (Enter start entry, frames, s) \<longleftrightarrow> entry = pc s \<and>
     (branch_pending s \<longrightarrow> entry - memory_base s \<in> project_delay_slots p)"
| "consistent p (_, frames, s) \<longleftrightarrow> True"

definition good :: "Project \<Rightarrow> configuration \<Rightarrow> bool" where
  "good p c \<longleftrightarrow> consistent p c \<and> wf_state (snd (snd c)) \<and> gpr (snd (snd c)) 0 = 0"

text \<open>
  Nothing has stopped the machine; before an instruction, what was translated is what memory holds,
  and the instruction in a delay slot is not itself a branch.
\<close>

fun faithful :: "ElfImage \<Rightarrow> Project \<Rightarrow> configuration \<Rightarrow> bool" where
  "faithful img p (At start k adb dt, frames, s) \<longleftrightarrow> stop_reason s = Running \<and>
     translated_here img (function_code p start ! k) s \<and>
     (adb \<longrightarrow> \<not> starts_delayed_branch (emitted_word (function_code p start ! k)))"
| "faithful img p (_, frames, s) \<longleftrightarrow> stop_reason s = Running"

definition written_from :: "ElfImage \<Rightarrow> Project \<Rightarrow> bool" where
  "written_from img p \<longleftrightarrow> (\<forall>(start, es)\<in>set (project_functions p). \<forall>e\<in>set es.
     e = emitted_instruction img (emitted_pc e, emitted_word e) \<and>
     (starts_delayed_branch (emitted_word e) \<longrightarrow> emitted_pc e + 4 \<in> project_delay_slots p))"

lemma written_instruction:
  assumes "written_from img p" "k < length (function_code p start)"
  shows "function_code p start ! k = emitted_instruction img (emitted_pc (function_code p start ! k), emitted_word (function_code p start ! k))"
    "starts_delayed_branch (emitted_word (function_code p start ! k)) \<Longrightarrow> emitted_pc (function_code p start ! k) + 4 \<in> project_delay_slots p"
proof -
  obtain es where es: "map_of (project_functions p) start = Some es"
    using assms(2) by (cases "map_of (project_functions p) start") (auto simp: function_code_def)
  then have "(start, es) \<in> set (project_functions p)" "function_code p start = es"
    by (auto dest: map_of_SomeD simp: function_code_def)
  moreover have "function_code p start ! k \<in> set (function_code p start)" using assms(2) by simp
  ultimately show "function_code p start ! k = emitted_instruction img (emitted_pc (function_code p start ! k), emitted_word (function_code p start ! k))"
    "starts_delayed_branch (emitted_word (function_code p start ! k)) \<Longrightarrow> emitted_pc (function_code p start ! k) + 4 \<in> project_delay_slots p"
    using assms(1) unfolding written_from_def by fast+
qed

lemma label_index_Some:
  assumes "label_index p start a = Some k"
  shows "k < length (function_code p start)" "emitted_pc (function_code p start ! k) = a" "a \<in> project_entries p"
  using assms by (auto simp: label_index_def Let_def find_Some_iff)

text \<open>
  The statement of the instruction at \<open>k\<close>, and what the interpreter makes of the state before it: with the
  program counter written, the same; without, the same but for the program counter.
\<close>

lemma emitted_statement:
  fixes h :: HostFpu and m :: HostMath
  assumes "written_from img p" "good p (At start k adb dt, frames, s)" "faithful img p (At start k adb dt, frames, s)"
  defines "e \<equiv> function_code p start ! k"
  defines "cur \<equiv> memory_base s + emitted_pc e"
  defines "t \<equiv> run_stmt h m cur (emitted_code e) (s\<lparr>pc := cur + 4\<rparr>)"
  shows "interpreted h m (machine_of p (At start k adb dt, frames, s)) = (if stop_reason t = Running \<and> adb then t\<lparr>pc := dt\<rparr> else t)"
    "gpr t 0 = 0" "wf_state t" "memory_base t = memory_base s"
    "\<not> starts_delayed_branch (emitted_word e) \<Longrightarrow> pc t = cur + 4 \<and> \<not> branch_pending t \<and>
       (\<exists>r. t = (run_stmt h m cur (emitted_code e) s)\<lparr>pc := cur + 4, fault_pc := r\<rparr>)"
proof -
  define s0 where "s0 = machine_of p (At start k adb dt, frames, s)"
  have k: "k < length (function_code p start)" "\<not> branch_pending s" "adb \<Longrightarrow> dt = branch_target s" "wf_state s" "gpr s 0 = 0"
    using assms(2) by (simp_all add: good_def)
  have s0: "s0 = moved cur (fault_pc s) adb (branch_target s) s"
    by (simp add: s0_def cur_def e_def moved_def)
  have e: "e = emitted_instruction img (emitted_pc e, emitted_word e)"
    unfolding e_def by (rule written_instruction(1) [OF assms(1) k(1)])
  have start: "s0\<lparr>branch_pending := False, pc := pc s0 + 4\<rparr> = s\<lparr>pc := cur + 4\<rparr>"
    using k(2) by (cases s) (simp add: s0 moved_def)
  have f: "translated_here img e s" "stop_reason s = Running" using assms(3) by (simp_all add: e_def)
  have th: "translated_here img e s0" using f(1) by (simp add: translated_here_def s0 word_in_memory_frame Let_def)
  have pre: "wf_state s0" "stop_reason s0 = Running" "pc s0 = memory_base s0 + emitted_pc e" "gpr s0 0 = 0"
    using k(4,5) f(2) by (simp_all add: s0 word_in_memory_frame cur_def)
  have t: "run_stmt h m (pc s0) (emitted_code e) (s0\<lparr>branch_pending := False, pc := pc s0 + 4\<rparr>) = t"
    unfolding start by (simp add: t_def s0)
  note st = interpreted_statement [OF pre(1,2,3) th e pre(4), of h m, unfolded t]
  show "interpreted h m (machine_of p (At start k adb dt, frames, s)) = (if stop_reason t = Running \<and> adb then t\<lparr>pc := dt\<rparr> else t)"
    unfolding s0_def [symmetric] using st(1) k(3) by (cases adb) (simp_all add: s0)
  show "gpr t 0 = 0" "wf_state t" "memory_base t = memory_base s" using st(2-4) by (simp_all add: s0)
  show "pc t = cur + 4 \<and> \<not> branch_pending t \<and>
      (\<exists>r. t = (run_stmt h m cur (emitted_code e) s)\<lparr>pc := cur + 4, fault_pc := r\<rparr>)"
    if calm: "\<not> starts_delayed_branch (emitted_word e)"
  proof -
    let ?u = "run_stmt h m cur (emitted_code e) s"
    have "\<not> controls (emitted_code e)"
      using calm controls_flagged by (subst e) (auto simp: emitted_instruction_def starts_delayed_branch_def)
    then have b: "blind (run_stmt h m cur (emitted_code e))" by (rule blind_statement)
    have "s\<lparr>pc := cur + 4\<rparr> = moved (cur + 4) (fault_pc s) (branch_pending s) (branch_target s) s" by (simp add: moved_def)
    then obtain r where "t = moved (cur + 4) r (branch_pending s) (branch_target s) ?u"
      unfolding t_def using blindE [OF b] by metis
    moreover have "branch_pending ?u = branch_pending s" "branch_target ?u = branch_target s" using blind_keeps [OF b] by simp_all
    ultimately have "t = ?u\<lparr>pc := cur + 4, fault_pc := r\<rparr>" by (simp add: moved_def)
    then show ?thesis using k(2) \<open>branch_pending ?u = branch_pending s\<close> by auto
  qed
qed

lemma delayed_transfer_cases:
  assumes "delayed_transfer p start k dt s = (next, calls)" "\<not> branch_pending s" "pc s = dt"
  shows "next = No_label \<or> consistent p (next, calls @ frames, s) \<and> machine_of p (next, calls @ frames, s) = s \<and>
    next \<noteq> Finished False"
proof -
  have goto: "jump_to p start t dt = No_label \<or> consistent p (jump_to p start t dt, calls @ frames, s) \<and>
      machine_of p (jump_to p start t dt, calls @ frames, s) = s \<and> jump_to p start t dt \<noteq> Finished False"
    if "dt = memory_base s + t" for t
  proof (cases "label_index p start t")
    case (Some j)
    then show ?thesis using label_index_Some [OF Some] assms(2,3) that by (cases s) (auto simp: jump_to_def)
  qed (simp add: jump_to_def)
  show ?thesis
    using assms goto by (auto simp: delayed_transfer_def Let_def split: option.splits if_splits)
qed

lemma instruction_simulates:
  assumes "written_from img p" "good p (At start k adb dt, frames, s)" "faithful img p (At start k adb dt, frames, s)"
    "project_step h m p (At start k adb dt, frames, s) = c" "stop_reason (snd (snd c)) = Running" "fst c \<noteq> No_label"
  shows "good p c \<and> same_machine (machine_of p c) (interpreted h m (machine_of p (At start k adb dt, frames, s))) \<and>
    fst c \<noteq> Finished False"
proof -
  define e where "e = function_code p start ! k"
  define cur where "cur = memory_base s + emitted_pc e"
  define t where "t = run_stmt h m cur (emitted_code e) (s\<lparr>pc := cur + 4\<rparr>)"
  define u where "u = run_stmt h m cur (emitted_code e) s"
  note st = emitted_statement [OF assms(1-3), of h m, folded e_def, folded cur_def, folded t_def u_def]
  let ?slot = "emitted_pc e \<in> project_delay_slots p" and ?control = "starts_delayed_branch (emitted_word e)"
    and ?stops = "may_stop_execution (emitted_word e)" and ?more = "has_next p start k"
  let ?sync = "?slot \<or> ?control \<or> ?stops \<or> \<not> ?more"
  define v where "v = (if ?sync then t else u)"
  have inv: "k < length (function_code p start)" "\<not> branch_pending s" "adb \<Longrightarrow> dt = branch_target s \<and> ?slot" "adb \<Longrightarrow> \<not> ?control"
    using assms(2,3) by (auto simp: good_def e_def)
  have calm: "\<exists>r. t = v\<lparr>pc := cur + 4, fault_pc := r\<rparr>" "pc t = cur + 4" "\<not> branch_pending t" if "\<not> ?control"
  proof -
    from st(5) [OF that] obtain r where r: "pc t = cur + 4" "\<not> branch_pending t" "t = u\<lparr>pc := cur + 4, fault_pc := r\<rparr>" by blast
    have "t = t\<lparr>pc := pc t, fault_pc := fault_pc t\<rparr>" by simp
    then have "v = t \<Longrightarrow> \<exists>r. t = v\<lparr>pc := cur + 4, fault_pc := r\<rparr>" unfolding r(1) by metis
    moreover have "v = u \<Longrightarrow> \<exists>r. t = v\<lparr>pc := cur + 4, fault_pc := r\<rparr>" using r(3) by metis
    ultimately show "\<exists>r. t = v\<lparr>pc := cur + 4, fault_pc := r\<rparr>" by (cases ?sync) (simp_all only: v_def if_True if_False)
    show "pc t = cur + 4" "\<not> branch_pending t" by (rule r)+
  qed
  have v: "gpr v 0 = 0" "wf_state v" "memory_base v = memory_base s" "stop_reason v = stop_reason t"
  proof -
    have "gpr t = gpr v \<and> (wf_state t \<longleftrightarrow> wf_state v) \<and> memory_base t = memory_base v \<and> stop_reason t = stop_reason v"
    proof (cases ?sync)
      case True
      then have "v = t" by (simp only: v_def if_True)
      then show ?thesis by simp
    next
      case False
      then obtain r where "t = v\<lparr>pc := cur + 4, fault_pc := r\<rparr>" using calm(1) by blast
      then have "t = moved (cur + 4) r (branch_pending v) (branch_target v) v" by (simp only: moved_def) simp
      then show ?thesis by (simp only: word_in_memory_frame moved_select)
    qed
    then show "gpr v 0 = 0" "wf_state v" "memory_base v = memory_base s" "stop_reason v = stop_reason t"
      using st(2-4) by simp_all
  qed
  have z: "(if writes_zero e then set_gpr v 0 0 else v) = v"
    using v(1) by (cases v) (auto simp: set_gpr_def fun_upd_idem_iff)
  have pcs: "memory_base s + (emitted_pc e + 4) = cur + 4" by (simp add: cur_def)
  have r: "run_emitted h m p start k adb dt s =
      (if ?stops \<and> stop_reason v \<noteq> Running then (Finished True, [], v)
       else if ?slot \<and> adb then
         (let (next, calls) = delayed_transfer p start k dt (v\<lparr>pc := dt\<rparr>) in (next, calls, v\<lparr>pc := dt\<rparr>))
       else if ?control \<and> pc v \<noteq> cur + 4 then (Finished True, [], v)
       else if \<not> ?more then (Finished True, [], v)
       else if ?control then (At start (k + 1) (branch_pending v) (branch_target v), [], v\<lparr>branch_pending := False\<rparr>)
       else (At start (k + 1) adb dt, [], v))"
  proof -
    have run: "run_stmt h m (memory_base s + emitted_pc e) (emitted_code e) (if ?sync then s\<lparr>pc := cur + 4\<rparr> else s) = v"
      by (simp add: v_def t_def u_def cur_def)
    have base: "memory_base (if ?sync then s\<lparr>pc := cur + 4\<rparr> else s) = memory_base s" by simp
    have "memory_base v + (emitted_pc e + 4) = cur + 4" using v(3) pcs by simp
    then show ?thesis unfolding run_emitted_def Let_def e_def [symmetric] pcs base run z by simp
  qed
  let ?I = "interpreted h m (machine_of p (At start k adb dt, frames, s))"
  have step: "c = (case run_emitted h m p start k adb dt s of (next, calls, s) \<Rightarrow> (next, calls @ frames, s))"
    using assms(4) by simp
  have next_pc: "k + 1 < length (function_code p start)" "memory_base v + emitted_pc (function_code p start ! (k + 1)) = cur + 4" if ?more
    using that v(3) by (auto simp: has_next_def e_def cur_def Let_def)
  have bv: "branch_pending v = branch_pending t" if "\<not> ?control"
    using calm(1) [OF that] by auto
  have vt: "v = t" if ?sync using that by (simp only: v_def if_True)
  have running: "stop_reason t = Running"
  proof (rule ccontr)
    assume *: "stop_reason t \<noteq> Running"
    have "stop_reason (snd (snd (run_emitted h m p start k adb dt s))) = stop_reason t"
      unfolding r using v(4) by (simp split: prod.split)
    then show False using * assms(5) step by (simp split: prod.splits)
  qed
  then have I: "?I = (if adb then t\<lparr>pc := dt\<rparr> else t)" using st(1) by simp
  have fields: "wf_state (v\<lparr>pc := a\<rparr>) = wf_state v" "wf_state (v\<lparr>branch_pending := b\<rparr>) = wf_state v" for a b
    using word_in_memory_frame(2) [of a "fault_pc v" "branch_pending v" "branch_target v" v]
      word_in_memory_frame(2) [of "pc v" "fault_pc v" b "branch_target v" v] by (simp_all add: moved_def)
  consider (slot) "?slot" "adb" | (leave) "\<not> adb" "?control" "pc v \<noteq> cur + 4" | (last) "\<not> adb" "\<not> (?control \<and> pc v \<noteq> cur + 4)" "\<not> ?more"
    | (control) "\<not> adb" "?control" "pc v = cur + 4" "?more" | (plain) "\<not> adb" "\<not> ?control" "?more"
    using inv(3) by blast
  then show ?thesis
  proof cases
    case slot
    then have nc: "\<not> ?control" and v_t: "v = t" using inv(4) vt by blast+
    obtain n calls where tr: "delayed_transfer p start k dt (v\<lparr>pc := dt\<rparr>) = (n, calls)" by (metis surj_pair)
    then have c: "c = (n, calls @ frames, v\<lparr>pc := dt\<rparr>)" using running v(4) slot tr unfolding step r by simp
    have "consistent p c \<and> machine_of p c = v\<lparr>pc := dt\<rparr> \<and> n \<noteq> Finished False"
      using delayed_transfer_cases [OF tr, of frames] calm(3) [OF nc] v_t assms(6) c by simp
    then show ?thesis using I slot v(1,2) fields v_t by (simp add: good_def c)
  next
    case leave
    then have "c = (Finished True, frames, v)" using running v(4) unfolding step r by simp
    then show ?thesis using I v(1,2) leave vt by (simp add: good_def)
  next
    case last
    then have "c = (Finished True, frames, v)" using running v(4) unfolding step r by simp
    then show ?thesis using I v(1,2) last vt by (simp add: good_def)
  next
    case control
    then have c: "c = (At start (k + 1) (branch_pending v) (branch_target v), frames, v\<lparr>branch_pending := False\<rparr>)"
      using running v(4) unfolding step r by simp
    have slot: "emitted_pc (function_code p start ! (k + 1)) \<in> project_delay_slots p"
      using written_instruction(2) [OF assms(1) inv(1)] control(2,4) by (simp add: has_next_def e_def Let_def)
    have "machine_of p c = v" using next_pc(2) [OF control(4)] control(3) by (cases v) (simp add: c)
    then show ?thesis using I v(1,2) control vt fields next_pc(1) slot by (simp add: good_def c)
  next
    case plain
    then have c: "c = (At start (k + 1) adb dt, frames, v)" using running v(4) unfolding step r by simp
    have m: "machine_of p c = v\<lparr>pc := cur + 4, branch_pending := False\<rparr>"
      using next_pc(2) [OF plain(3)] plain(1) by (simp add: c)
    have b: "\<not> branch_pending v" using bv calm(3) plain(2) by simp
    obtain q where q: "t = v\<lparr>pc := cur + 4, fault_pc := q\<rparr>" using calm(1) plain(2) by blast
    have "same_machine (v\<lparr>pc := cur + 4, branch_pending := False\<rparr>) (v\<lparr>pc := cur + 4, fault_pc := q\<rparr>)"
      using b unfolding same_machine_def by (cases v) simp
    then show ?thesis using I v(1,2) plain b next_pc(1) m unfolding q by (simp add: good_def c)
  qed
qed

lemma interpreted_same:
  assumes "wf_state s" "stop_reason s = Running" "pc s = memory_base s + emitted_pc e" "translated_here img e s"
    "e = emitted_instruction img (emitted_pc e, emitted_word e)" "gpr s 0 = 0" "same_machine s t"
  shows "same_machine (interpreted h m s) (interpreted h m t)"
proof -
  obtain q where "t = s\<lparr>fault_pc := q\<rparr>" using assms(7) by (auto simp: same_machine_iff)
  then have t: "t = moved (pc s) q (branch_pending s) (branch_target s) s" by (simp add: moved_def)
  have pre: "wf_state t" "stop_reason t = Running" "pc t = memory_base t + emitted_pc e" "translated_here img e t" "gpr t 0 = 0"
    using assms(1-4,6) by (simp_all add: t word_in_memory_frame translated_here_def Let_def)
  let ?u = "\<lambda>x. run_stmt h m (pc x) (emitted_code e) (x\<lparr>branch_pending := False, pc := pc x + 4\<rparr>)"
  have "same_machine (s\<lparr>branch_pending := False, pc := pc s + 4\<rparr>) (t\<lparr>branch_pending := False, pc := pc t + 4\<rparr>)"
    unfolding same_machine_def by (simp add: t moved_def)
  then have "same_machine (?u s) (?u t)" using statement_same [of _ _ h m "pc s"] by (simp add: t)
  then obtain r where r: "?u t = (?u s)\<lparr>fault_pc := r\<rparr>" by (auto simp: same_machine_iff)
  have "branch_pending t = branch_pending s" "branch_target t = branch_target s" by (simp_all add: t)
  then show ?thesis
    unfolding interpreted_statement(1) [OF assms(1-6)] interpreted_statement(1) [OF pre(1-4) assms(5) pre(5)]
    unfolding r by (simp add: same_machine_def)
qed

lemma other_simulates:
  assumes "good p (position, frames, s)" "stop_reason s = Running" "\<forall>f k adb dt. position \<noteq> At f k adb dt"
    "project_step h m p (position, frames, s) = c" "fst c \<noteq> No_label" "fst c \<noteq> Finished False"
  shows "good p c \<and> same_machine (machine_of p c) (machine_of p (position, frames, s))"
proof (cases position)
  case (Enter start entry)
  define u where "u = s\<lparr>branch_pending := False\<rparr>"
  have g: "entry = pc s" "branch_pending s \<Longrightarrow> entry - memory_base s \<in> project_delay_slots p" "wf_state s" "gpr s 0 = 0"
    using assms(1) by (auto simp: good_def Enter)
  have wf: "wf_state u" using word_in_memory_frame(2) [of "pc s" "fault_pc s" False "branch_target s" s] g(3) by (simp add: u_def moved_def)
  obtain k where k: "label_index p start (entry - memory_base s) = Some k"
    and c: "c = (At start k (branch_pending s) (branch_target s), frames, u)"
    using assms(4,6) by (auto simp: Enter u_def Let_def split: option.splits)
  note at = label_index_Some [OF k]
  have "machine_of p c = s" using at(2) g(1) by (cases s) (simp add: c u_def)
  then show ?thesis using at g wf by (simp add: good_def c u_def Enter)
next
  case (Finished r)
  show ?thesis
  proof (cases frames)
    case Nil
    then have "c = (Finished r, [], s)" using assms(4) Finished by simp
    then show ?thesis using assms(1) Finished by (simp add: good_def)
  next
    case (Cons fr rest)
    obtain start resume dt where fr: "fr = (start, resume, dt)" by (cases fr)
    have g: "wf_state s" "gpr s 0 = 0" using assms(1) by (simp_all add: good_def)
    have home: "good p (Finished True, rest, s)" using g by (simp add: good_def)
    have "r" using assms(4,6) Finished Cons fr by (cases r) auto
    then have c: "c = (case resume of None \<Rightarrow> (Finished True, rest, s)
        | Some a \<Rightarrow> if \<not> branch_pending s \<and> pc s = memory_base s + a then (jump_to p start a dt, rest, s) else (Finished True, rest, s))"
      using assms(2,4) Finished Cons fr by auto
    show ?thesis
    proof (cases resume)
      case None
      then show ?thesis using home Finished by (simp add: c)
    next
      case (Some a)
      show ?thesis
      proof (cases "\<not> branch_pending s \<and> pc s = memory_base s + a")
        case False
        have "c = (Finished True, rest, s)" unfolding c Some option.case if_not_P [OF False] by (rule refl)
          then show ?thesis using home Finished by simp
      next
        case True
        then have "fst c = jump_to p start a dt" by (simp add: c Some)
        then obtain k where k: "label_index p start a = Some k"
          using assms(5) by (cases "label_index p start a") (auto simp: jump_to_def)
        have c': "c = (At start k False dt, rest, s)" using True by (simp add: c Some jump_to_def k)
        have "machine_of p c = s" using label_index_Some(2) [OF k] True by (cases s) (simp add: c')
        then show ?thesis using label_index_Some(1) [OF k] True g Finished by (simp add: good_def c')
      qed
    qed
  qed
next
  case No_label
  then show ?thesis using assms(4,5) by auto
next
  case (At f k adb dt)
  then show ?thesis using assms(3) by simp
qed

lemma lost_stays:
  assumes "fst c = Finished False \<or> fst c = No_label"
  shows "fst (project_run h m p n c) = Finished False \<or> fst (project_run h m p n c) = No_label"
proof (induction n)
  case (Suc n)
  obtain x fs s where c: "project_run h m p n c = (x, fs, s)" by (metis surj_pair)
  then have "project_run h m p (Suc n) c = project_step h m p (x, fs, s)" by (simp add: project_run_def)
  then show ?case using Suc c by (cases fs) auto
qed (use assms in \<open>simp add: project_run_def\<close>)


section \<open>The tables are complete\<close>

lemma emitted_instruction_fields [simp]:
  "emitted_pc (emitted_instruction img (a, i)) = a" "emitted_word (emitted_instruction img (a, i)) = i"
  by (simp_all add: emitted_instruction_def)

definition emitted_list :: "ElfImage \<Rightarrow> u32 \<Rightarrow> EmittedInstruction list" where
  "emitted_list img shard_size = shard_order shard_size (map (emitted_instruction img) (all_words img))"

lemma emitted_list_set: "e \<in> set (emitted_list img shard_size) \<longleftrightarrow> (\<exists>x\<in>set (all_words img). e = emitted_instruction img x)"
  by (auto simp: emitted_list_def shard_order_def)

lemma generated_tables:
  assumes "generate_project img code_map shard_size = Some (Inr p)"
  shows "\<exists>fs. discover_functions img code_map = Inr fs \<and> project_starts p = map discovered_start fs"
    "project_functions p = filter (\<lambda>(start, es). es \<noteq> []) (map (\<lambda>s. (s, function_body (import_stubs img) (project_starts p)
       (emitted_list img shard_size) s)) (project_starts p))"
    "project_delay_slots p = delay_slot_addresses img" "project_stubs p = import_stubs img"
    "potential_block_entries img code_map (case code_map of None \<Rightarrow> elf_entry img | Some c \<Rightarrow> map_entry c) shard_size =
       Some (Inr (project_entries p))"
proof -
  obtain fs where fs: "discover_functions img code_map = Inr fs"
    using assms by (cases "discover_functions img code_map") (auto simp: generate_project_def split: if_splits)
  note p = assms [unfolded generate_project_def fs Let_def sum.case emitted_list_def [symmetric]]
  show "\<exists>fs. discover_functions img code_map = Inr fs \<and> project_starts p = map discovered_start fs"
    "project_functions p = filter (\<lambda>(start, es). es \<noteq> []) (map (\<lambda>s. (s, function_body (import_stubs img) (project_starts p)
       (emitted_list img shard_size) s)) (project_starts p))"
    "project_delay_slots p = delay_slot_addresses img" "project_stubs p = import_stubs img"
    "potential_block_entries img code_map (case code_map of None \<Rightarrow> elf_entry img | Some c \<Rightarrow> map_entry c) shard_size =
       Some (Inr (project_entries p))"
    using p fs by (auto simp: bind_result_Inr split: if_splits)
qed

lemma generated_functions:
  assumes "generate_project img code_map shard_size = Some (Inr p)" "(start, es) \<in> set (project_functions p)"
  shows "es = function_body (import_stubs img) (project_starts p) (emitted_list img shard_size) start \<and> es \<noteq> [] \<and>
    start \<in> set (project_starts p)"
proof -
  let ?pair = "\<lambda>s. (s, function_body (import_stubs img) (project_starts p) (emitted_list img shard_size) s)"
  have "(start, es) \<in> set (filter (\<lambda>(start, es). es \<noteq> []) (map ?pair (project_starts p)))"
    using assms(2) generated_tables(2) [OF assms(1)] by simp
  then show ?thesis by auto
qed

lemma generated_sorted:
  assumes "generate_project img code_map shard_size = Some (Inr p)"
  shows "sorted_wrt (<) (project_starts p)" "sorted_wrt (<) (map fst (project_functions p))"
proof -
  show s: "sorted_wrt (<) (project_starts p)"
    using generated_tables(1) [OF assms] discovered_sorted by metis
  have f: "map fst (filter P (map (\<lambda>s. (s, f s)) xs)) = filter (\<lambda>s. P (s, f s)) xs" for P f and xs :: "u32 list"
    by (induction xs) auto
  show "sorted_wrt (<) (map fst (project_functions p))"
    by (subst generated_tables(2) [OF assms], subst f) (rule sorted_wrt_filter [OF s])
qed

lemma function_code_in:
  assumes "function_code p start \<noteq> []"
  shows "(start, function_code p start) \<in> set (project_functions p)"
  using assms by (auto simp: function_code_def dest: map_of_SomeD split: option.splits)

lemma generated_code:
  assumes "generate_project img code_map shard_size = Some (Inr p)" "map_of (project_functions p) start = Some es"
  shows "function_code p start = function_body (import_stubs img) (project_starts p) (emitted_list img shard_size) start"
  using generated_functions [OF assms(1) map_of_SomeD [OF assms(2)]] assms(2) by (simp add: function_code_def)

lemma generated_written:
  assumes "generate_project img code_map shard_size = Some (Inr p)"
  shows "written_from img p"
proof -
  have "e = emitted_instruction img (emitted_pc e, emitted_word e) \<and>
      (starts_delayed_branch (emitted_word e) \<longrightarrow> emitted_pc e + 4 \<in> project_delay_slots p)"
    if "(start, es) \<in> set (project_functions p)" "e \<in> set es" for start es e
  proof -
    have "e \<in> set (emitted_list img shard_size)"
      using generated_functions [OF assms that(1)] that(2) by (auto simp only: function_body_def set_filter)
    then obtain a i where e: "(a, i) \<in> set (all_words img)" "e = emitted_instruction img (a, i)" by (auto simp: emitted_list_set)
    then show ?thesis unfolding generated_tables(3) [OF assms] by (force simp: delay_slot_addresses_def)
  qed
  then show ?thesis unfolding written_from_def by blast
qed

text \<open>Every executable word of an image with aligned sections is one of the words of the analysis.\<close>

definition sections_aligned :: "ElfImage \<Rightarrow> bool" where
  "sections_aligned img \<longleftrightarrow> (\<forall>s\<in>set (executable_sections img). unat (section_address s) mod 4 = 0)"

lemma executable_word_listed:
  assumes "sections_aligned img" "is_executable_word img a"
  shows "\<exists>i. (a, i) \<in> set (all_words img)"
proof -
  obtain s where s: "s \<in> set (executable_sections img)" "section_address s \<le> a"
    "unat a + 4 \<le> unat (section_address s) + length (section_bytes s)" "unat a mod 4 = 0"
    using assms(2) by (auto simp: is_executable_word_def list_ex_iff and_3_mod)
  define k where "k = (unat a - unat (section_address s)) div 4"
  have le: "unat (section_address s) \<le> unat a" using s(2) by (simp add: word_le_nat_alt)
  have "unat (section_address s) mod 4 = 0" using assms(1) s(1) by (simp add: sections_aligned_def)
  then have k: "unat a = unat (section_address s) + 4 * k" using le s(4) unfolding k_def by presburger
  then have "of_nat (unat a) = (of_nat (unat (section_address s) + 4 * k) :: u32)" by (rule arg_cong)
  then have "a = section_address s + of_nat (4 * k)" by simp
  moreover have "k < (length (section_bytes s) + 3) div 4" using s(3) k by linarith
  ultimately have "(a, word_at s (4 * k)) \<in> set (section_words s)" by (auto simp: section_words_def)
  then show ?thesis using s(1) by (auto simp: all_words_def)
qed

lemma entries_executable:
  assumes "potential_block_entries img code_map entry shard_size = Some (Inr entries)" "a \<in> entries"
  shows "is_executable_word img a"
  using assms by (auto simp: potential_block_entries_def bind_eq_Some_conv bind_result_Inr add_entries_set Let_def)

lemma owned_code:
  assumes "generate_project img code_map shard_size = Some (Inr p)" "function_owner p a = Some f" "(a, i) \<in> set (all_words img)"
  shows "emitted_instruction img (a, i) \<in> set (function_code p f)"
proof -
  obtain es where es: "owner_start (project_starts p) a = Some f" "map_of (project_functions p) f = Some es"
    using assms(2) by (auto simp: function_owner_def split: option.splits if_splits)
  have code: "function_code p f = function_body (import_stubs img) (project_starts p) (emitted_list img shard_size) f"
    by (rule generated_code [OF assms(1) es(2)])
  have "es \<noteq> []" using generated_functions [OF assms(1) map_of_SomeD [OF es(2)]] by blast
  then have "f \<notin> import_stubs img"
    using generated_functions [OF assms(1) map_of_SomeD [OF es(2)]] by (auto simp: function_body_def)
  then show ?thesis unfolding code using assms(3) es(1) by (auto simp: function_body_def emitted_list_set)
qed

lemma label_written:
  assumes "generate_project img code_map shard_size = Some (Inr p)" "sections_aligned img"
    "function_owner p a = Some f" "a \<in> project_entries p"
  shows "\<exists>k. label_index p f a = Some k"
proof -
  have "is_executable_word img a" by (rule entries_executable [OF generated_tables(5) [OF assms(1)] assms(4)])
  then obtain i where "(a, i) \<in> set (all_words img)" using executable_word_listed [OF assms(2)] by blast
  from owned_code [OF assms(1,3) this] obtain k where k: "k < length (function_code p f)" "emitted_pc (function_code p f ! k) = a"
    by (auto simp: in_set_conv_nth)
  then have "find (\<lambda>k. emitted_pc (function_code p f ! k) = a \<and> a \<in> project_entries p) [0..<length (function_code p f)] \<noteq> None"
    using assms(4) by (auto simp: find_None_iff)
  then show ?thesis by (auto simp: label_index_def Let_def)
qed

text \<open>Every label a generated function jumps to is written in it: the generated files compile.\<close>

definition frames_labelled :: "Project \<Rightarrow> configuration \<Rightarrow> bool" where
  "frames_labelled p c \<longleftrightarrow> fst c \<noteq> No_label \<and>
     (\<forall>(f, resume, dt)\<in>set (fst (snd c)). \<forall>a. resume = Some a \<longrightarrow> label_index p f a \<noteq> None)"

lemma frames_labelled_step:
  assumes "generate_project img code_map shard_size = Some (Inr p)" "sections_aligned img" "frames_labelled p c"
  shows "frames_labelled p (project_step h m p c)"
proof -
  obtain x fs s where c: "c = (x, fs, s)" by (metis surj_pair)
  have label: "label_index p f a \<noteq> None" if "function_owner p a = Some f" "a \<in> project_entries p" for f a
    using label_written [OF assms(1,2) that] by simp
  have jump: "jump_to p f a dt \<noteq> No_label" if "label_index p f a \<noteq> None" for f a dt
    using that by (auto simp: jump_to_def)
  show ?thesis
  proof (cases x)
    case (Enter f a)
    then show ?thesis using assms(3) by (auto simp: c frames_labelled_def Let_def split: option.split)
  next
    case (At f k adb dt)
    have "fst (delayed_transfer p f k dt u) \<noteq> No_label \<and>
        (\<forall>(g, resume, _)\<in>set (snd (delayed_transfer p f k dt u)). \<forall>a. resume = Some a \<longrightarrow> label_index p g a \<noteq> None)" for u
      using label jump by (auto simp: delayed_transfer_def Let_def split: option.split)
    then have "fst (run_emitted h m p f k adb dt s) \<noteq> No_label \<and>
        (\<forall>(g, resume, _)\<in>set (fst (snd (run_emitted h m p f k adb dt s))). \<forall>a. resume = Some a \<longrightarrow> label_index p g a \<noteq> None)"
      by (simp add: run_emitted_def Let_def case_prod_beta)
    moreover obtain y calls u where "run_emitted h m p f k adb dt s = (y, calls, u)" by (metis surj_pair)
    ultimately show ?thesis using assms(3) At by (simp add: c frames_labelled_def ball_Un)
  next
    case (Finished r)
    show ?thesis
    proof (cases fs)
      case (Cons fr rest)
      obtain f resume dt where fr: "fr = (f, resume, dt)" by (cases fr)
      have frames: "\<forall>a. resume = Some a \<longrightarrow> label_index p f a \<noteq> None"
        "\<forall>(f, resume, dt)\<in>set rest. \<forall>a. resume = Some a \<longrightarrow> label_index p f a \<noteq> None"
        using assms(3) Cons fr by (simp_all add: c frames_labelled_def)
      have ok: "frames_labelled p (y, rest, s)" if "y \<noteq> No_label" for y using frames(2) that by (simp add: frames_labelled_def)
      show ?thesis
        using frames(1) jump unfolding c Finished Cons fr project_step.simps by (auto intro!: ok split: option.split)
    qed (use assms(3) Finished in \<open>simp add: c frames_labelled_def\<close>)
  next
    case No_label
    then show ?thesis using assms(3) by (simp add: c frames_labelled_def)
  qed
qed


section \<open>An example\<close>

text \<open>The project of \<open>small_image\<close>: one function with the words \<open>nop\<close> and \<open>jr $ra\<close>.\<close>

definition small_project :: Project where
  "small_project = \<lparr>project_functions = [(0, map (emitted_instruction small_image) [(0, 0), (4, 0x03e00008)])],
     project_starts = [0], project_entries = {0}, project_delay_slots = {8}, project_stubs = {}\<rparr>"

lemma small_stubs: "import_stubs small_image = {}"
  by (simp add: import_stubs_def small_relocations)

lemma small_generated: "generate_project small_image None 0x4000 = Some (Inr small_project)"
proof -
  have e: "shard_order 0x4000 (map (emitted_instruction small_image) [(0, 0), (4, 0x03e00008)]) =
      map (emitted_instruction small_image) [(0, 0), (4, 0x03e00008)]"
    by (simp add: shard_order_def)
  have d: "delay_slot_addresses small_image = {8}"
    using small_branches by (simp add: delay_slot_addresses_def small_words)
  have o: "owner_start [0] 0 = Some 0" "owner_start [0] 4 = Some 0" by (simp_all add: owner_start_def upper_bound_def)
  show ?thesis
    using e by (simp add: generate_project_def small_discovered small_words small_entries small_stubs small_relocations d function_body_def o small_project_def)
qed


text \<open>The example run from its start: three steps, to the return with the branch pending.\<close>

abbreviation small_ram :: State where
  "small_ram \<equiv> sample_state [0, 0, 0, 0, 8, 0, 0xe0, 3]"

definition small_machine :: State where
  "small_machine = moved 0x08800000 0 False 0 small_ram"

lemma small_code: "function_code small_project 0 = map (emitted_instruction small_image) [(0, 0), (4, 0x03e00008)]"
  by (simp add: function_code_def small_project_def)

lemma small_tables: "project_stubs small_project = {}" "project_entries small_project = {0}" "project_delay_slots small_project = {8}"
  by (simp_all add: small_project_def)

lemma small_lowered: "emitted_code (emitted_instruction small_image (0, 0)) = nop"
  "emitted_code (emitted_instruction small_image (4, 0x03e00008)) = Take_branch (Gpr 31)"
  by (simp_all add: emitted_instruction_def lower_instruction_def decoded_nop decoded_jr valid_def lower_special_def to_gpr_def
      native_lowering_def Let_def)

lemma small_translated:
  "translated_here small_image (emitted_instruction small_image (0, 0)) (moved p q c d small_ram)"
  "translated_here small_image (emitted_instruction small_image (4, 0x03e00008)) (moved p q c d small_ram)"
proof -
  have b: "buffer small_ram Ram = [0, 0, 0, 0, 8, 0, 0xe0, 3]" "memory_base small_ram = 0x08800000"
    by (simp_all add: buffer_def buffer_of_def sample_state_def)
  have "word_in_memory small_ram 0x08800000 0" "word_in_memory small_ram 0x08800004 0x03e00008"
    using sample_state_mapped [where a = "0x08800000" and i = 0 and w = 4 and ram = "[0, 0, 0, 0, 8, 0, 0xe0, 3]"]
      sample_state_mapped [where a = "0x08800004" and i = 4 and w = 4 and ram = "[0, 0, 0, 0, 8, 0, 0xe0, 3]"]
    by (simp_all add: word_in_memory_def read_at_def b slice_bytes_def word32_of_def le32_def)
  then show "translated_here small_image (emitted_instruction small_image (0, 0)) (moved p q c d small_ram)"
    "translated_here small_image (emitted_instruction small_image (4, 0x03e00008)) (moved p q c d small_ram)"
    by (auto simp: translated_here_def small_relocations b loaded_word_def decoded_nop decoded_jr valid_def native_lowering_def
        vsocp_overflow_def translated_differently_def jalr_overlap_def host_rounding_def word_in_memory_frame Let_def)
qed

lemma small_steps:
  "project_step h m small_project (Enter 0 0x08800000, [], moved p q False d small_ram) = (At 0 0 False d, [], moved p q False d small_ram)"
  "project_step h m small_project (At 0 0 False d, [], moved p q False d small_ram) = (At 0 (Suc 0) False d, [], moved p q False d small_ram)"
  "project_step h m small_project (At 0 (Suc 0) False d, [], moved p q False d small_ram) =
     (Finished True, [], moved 0x08800008 q True 0 small_ram)"
proof -
  have b: "memory_base small_ram = 0x08800000" "gpr small_ram = (\<lambda>_. 0)" "stop_reason small_ram = Running"
    by (simp_all add: sample_state_def initial_state_def)
  have z: "set_gpr small_ram 0 0 = small_ram" using b(2) by (cases small_ram) (auto simp: set_gpr_def fun_upd_idem_iff)
  have st: "may_stop_execution 0 = False" "may_stop_execution 0x03e00008 = False" by (simp_all add: may_stop_execution_def)
  have n: "has_next small_project 0 0" "\<not> has_next small_project 0 (Suc 0)"
    by (simp_all add: has_next_def small_code small_tables)
  have "label_index small_project 0 0 = Some 0"
    by (simp add: label_index_def small_code small_tables upt_rec)
  then show "project_step h m small_project (Enter 0 0x08800000, [], moved p q False d small_ram) = (At 0 0 False d, [], moved p q False d small_ram)"
    by (simp add: b Let_def)
  have r0: "run_emitted h m small_project 0 0 False d (moved p q False d small_ram) = (At 0 (Suc 0) False d, [], moved p q False d small_ram)"
    unfolding run_emitted_def Let_def by (simp add: small_code small_lowered n st small_branches small_tables nop_def z)
  then show "project_step h m small_project (At 0 0 False d, [], moved p q False d small_ram) = (At 0 (Suc 0) False d, [], moved p q False d small_ram)"
    by simp
  have r1: "run_emitted h m small_project 0 (Suc 0) False d (moved p q False d small_ram) = (Finished True, [], moved 0x08800008 q True 0 small_ram)"
    unfolding run_emitted_def Let_def by (simp add: small_code small_lowered n st small_branches small_tables z b)
  then show "project_step h m small_project (At 0 (Suc 0) False d, [], moved p q False d small_ram) =
     (Finished True, [], moved 0x08800008 q True 0 small_ram)" by simp
qed


lemma dispatch_finds_owner_witness:
  "fst (dispatch_route small_project 0x08800000 0x08800004 initial_dispatcher) = Some 0"
  using dispatch_finds_owner [of small_project "0x08800000" initial_dispatcher "0x08800004"]
  by (simp add: small_project_def cache_ok_def initial_dispatcher_def owner_start_def upper_bound_def)

section \<open>Where the generated project goes wrong\<close>

text \<open>
  C30. A function clears \<open>branch_pending\<close> before it looks for the label of its entry. When there is none
  the dispatcher falls back to the interpreter, which then finds no branch pending: the instruction
  of a delay slot is interpreted, and its branch is forgotten.
\<close>

theorem pending_branch_lost:
  assumes "wf_state s" "stop_reason s = Running" "branch_pending s" "word_in_memory s (pc s) 0"
    and "dispatch_route p (memory_base s) (pc s) d = (Some start, d')" "label_index p start (pc s - memory_base s) = None" "0 < n"
  shows "dispatch_block h m p img platform n (pc s) (s, d) = Some (False, s\<lparr>branch_pending := False\<rparr>, d') \<and>
    pc (interpreted h m (s\<lparr>branch_pending := False\<rparr>)) = pc s + 4 \<and> pc (interpreted h m s) = branch_target s"
proof -
  let ?u = "s\<lparr>branch_pending := False\<rparr>"
  obtain k where n: "n = Suc k" using assms(7) by (cases n) auto
  have "project_run h m p k (Finished False, [], ?u) = (Finished False, [], ?u)"
    by (induction k) (simp_all add: project_run_def)
  moreover have "project_run h m p n (Enter start (pc s), [], s) = project_run h m p k (project_step h m p (Enter start (pc s), [], s))"
    by (simp add: n project_run_def funpow_swap1)
  ultimately have r: "run_function h m p n start (pc s) s = Some (False, ?u)" using assms(6) by (simp add: run_function_def)
  have nop: "run_stmt h m cur (lower_instruction a 0 False 0) t = t" for cur a t
    by (simp add: lower_instruction_def decoded_nop valid_def native_lowering_def lower_special_def to_gpr_def nop_def Let_def)
  have runs: "pc (interpreted h m t) = (if branch_pending t then branch_target t else pc t + 4)"
    if "wf_state t" "stop_reason t = Running" "word_in_memory t (pc t) 0" for t
  proof -
    have tr: "translates (\<lambda>_. Some (lower_instruction (pc t - memory_base t) 0 False 0)) t 0 False 0 0"
      using that by (simp add: translates_def loaded_word_def decoded_nop valid_def native_lowering_def translated_differently_def
          jalr_overlap_def host_rounding_def)
    show ?thesis
      unfolding interpreted_def generated_step_interprets [OF that(1,2) tr, symmetric]
      using that(2) by (simp add: generated_step_def nop Let_def) (simp add: set_gpr_def)
  qed
  have u: "?u = moved (pc s) (fault_pc s) False (branch_target s) s" by (simp add: moved_def)
  have "pc (interpreted h m ?u) = pc s + 4" using runs [of ?u] assms(1,2,4) by (simp add: u word_in_memory_frame)
  moreover have "pc (interpreted h m s) = branch_target s" using runs [of s] assms(1-4) by simp
  moreover have "dispatch_block h m p img platform n (pc s) (s, d) = Some (False, ?u, d')"
    using assms(3,5) r by (simp add: dispatch_block_def Let_def)
  ultimately show ?thesis by blast
qed

text \<open>In the example the second word has no label: an interpreted branch in front of it would be lost.\<close>

lemma pending_branch_lost_witness:
  "\<exists>d'. dispatch_block sample_host sample_math (small_project\<lparr>project_entries := {4}\<rparr>) small_image (\<lambda>_ s. (False, s)) 1 0x08800000
     (moved 0x08800000 0 True 0x08800100 small_ram, initial_dispatcher) =
       Some (False, moved 0x08800000 0 False 0x08800100 small_ram, d')"
proof -
  let ?s = "moved 0x08800000 0 True 0x08800100 small_ram" and ?p = "small_project\<lparr>project_entries := {4}\<rparr>"
  have b: "stop_reason small_ram = Running" "memory_base small_ram = 0x08800000" "wf_state small_ram"
    using sample_state_wf [of "[0, 0, 0, 0, 8, 0, 0xe0, 3]"] by (simp_all add: sample_state_def initial_state_def)
  have w: "word_in_memory small_ram 0x08800000 0"
    using small_translated(1) [of 0 0 False 0] by (auto simp: translated_here_def small_relocations loaded_word_def word_in_memory_frame b Let_def)
  have r: "dispatch_route ?p 0x08800000 0x08800000 initial_dispatcher =
      (Some 0, initial_dispatcher\<lparr>dispatch_cache := (dispatch_cache initial_dispatcher)(0 := (0x08800000, Some 0))\<rparr>)"
    by (simp add: dispatch_route_def initial_dispatcher_def small_project_def)
  have l: "label_index ?p 0 0 = None" by (auto simp: label_index_def small_project_def find_None_iff)
  have "dispatch_block sample_host sample_math ?p small_image (\<lambda>_ s. (False, s)) 1 (pc ?s) (?s, initial_dispatcher) =
      Some (False, ?s\<lparr>branch_pending := False\<rparr>,
        initial_dispatcher\<lparr>dispatch_cache := (dispatch_cache initial_dispatcher)(0 := (0x08800000, Some 0))\<rparr>)"
    using pending_branch_lost [of ?s ?p initial_dispatcher 0 _ 1 sample_host sample_math small_image "\<lambda>_ s. (False, s)"] w r l b
    by (simp add: word_in_memory_frame)
  then show ?thesis by simp
qed

text \<open>
  A failed access does not end a generated function: it goes on with the next instruction, with the
  machine stopped.
\<close>

lemma fault_runs_on:
  assumes "emitted_pc e \<notin> project_delay_slots p" "\<not> starts_delayed_branch (emitted_word e)"
    "\<not> may_stop_execution (emitted_word e)" "has_next p start k" "e = function_code p start ! k" "\<not> writes_zero e"
  shows "project_step h m p (At start k adb dt, frames, s) =
    (At start (k + 1) adb dt, frames, run_stmt h m (memory_base s + emitted_pc e) (emitted_code e) s)"
  using assms by (simp add: run_emitted_def Let_def)

section \<open>The single file\<close>

text \<open>
  \<open>emit_cpp\<close> (\<open>src/emitter/cpp_output.cpp\<close>) writes one function \<open>run\<close> with a \<open>switch\<close> over all words.
  It does not pass \<open>preferred_base\<close> to \<open>emit_instruction\<close>.
\<close>

definition cpp_cases :: "ElfImage \<Rightarrow> u32 \<Rightarrow> stmt option" where
  "cpp_cases img = map_of (map (\<lambda>(address, i).
     (address, lower_instruction address i (address \<in> relocated_words img) 0)) (all_words img))"

fun cpp_loop :: "HostFpu \<Rightarrow> HostMath \<Rightarrow> (u32 \<Rightarrow> stmt option) \<Rightarrow> u32 \<Rightarrow> nat \<Rightarrow> State \<Rightarrow> State" where
  "cpp_loop h m cases return_address 0 s = s\<lparr>stop_reason := Step_limit\<rparr>"
| "cpp_loop h m cases return_address (Suc steps) s =
     (if pc s = return_address \<and> \<not> branch_pending s then s\<lparr>stop_reason := Returned\<rparr>
      else let s = generated_step h m cases s in
        if stop_reason s \<noteq> Running then s else cpp_loop h m cases return_address steps s)"

definition cpp_run :: "HostFpu \<Rightarrow> HostMath \<Rightarrow> ElfImage \<Rightarrow> u32 \<Rightarrow> nat \<Rightarrow> State \<Rightarrow> State" where
  "cpp_run h m img return_address max_steps s =
     (let s = s\<lparr>stop_reason := Running\<rparr>;
          s = (if preferred_base img \<noteq> 0 \<and> memory_base s = 0 then s\<lparr>memory_base := preferred_base img\<rparr> else s)
      in cpp_loop h m (cpp_cases img) return_address max_steps s)"

text \<open>The same loop over the interpreter.\<close>

fun interpreter_loop :: "HostFpu \<Rightarrow> HostMath \<Rightarrow> u32 \<Rightarrow> nat \<Rightarrow> State \<Rightarrow> State" where
  "interpreter_loop h m return_address 0 s = s\<lparr>stop_reason := Step_limit\<rparr>"
| "interpreter_loop h m return_address (Suc steps) s =
     (if pc s = return_address \<and> \<not> branch_pending s then s\<lparr>stop_reason := Returned\<rparr>
      else let s = interpreted h m s in
        if stop_reason s \<noteq> Running then s else interpreter_loop h m return_address steps s)"

text \<open>
  Memory holds at the program counter the word of the image that was translated, and the translation
  of it is exact; for a jump that is not relocated the memory base has to be 0.
\<close>

definition at_translated_word :: "ElfImage \<Rightarrow> State \<Rightarrow> bool" where
  "at_translated_word img s \<longleftrightarrow> (\<exists>i w. map_of (all_words img) (pc s - memory_base s) = Some i \<and> \<not> vsocp_overflow w \<and>
     translates (cpp_cases img) s i (pc s - memory_base s \<in> relocated_words img) 0 w)"

lemma cpp_cases_at:
  "map_of (all_words img) a = Some i \<Longrightarrow> cpp_cases img a = Some (lower_instruction a i (a \<in> relocated_words img) 0)"
proof -
  have "map_of (map (\<lambda>(a, i). (a, f a i)) xs) a = map_option (f a) (map_of xs a)" for f :: "u32 \<Rightarrow> u32 \<Rightarrow> stmt" and xs
    by (induction xs) auto
  then show "map_of (all_words img) a = Some i \<Longrightarrow> ?thesis" by (simp add: cpp_cases_def)
qed


text \<open>
  \<open>j 0x08804010\<close> in an image linked at \<open>0x08804000\<close>: the single file adds the memory base to a
  target that already holds it; the project, which passes \<open>preferred_base\<close>, and the interpreter do not.
\<close>

lemma cpp_fixed_address_jump:
  assumes "memory_base s = 0x08804000"
  shows "branch_target (run_stmt h m 0x08804000 (lower_instruction 0 0x0a201004 False 0) s) = 0x11008010"
    "branch_target (run_stmt h m 0x08804000 (lower_instruction 0 0x0a201004 False 0x08804000) s) = 0x08804010"
    "branch_target (exec_instruction h m s (decode_allegrex 0x0a201004) 0x08804000) = 0x08804010"
proof -
  have d: "decode_allegrex 0x0a201004 = native_lowering (decode_fields 0x0a201004) ''j'' instruction_delayed_branch"
    by (simp add: decode_allegrex_def vfpu_opcode_supported_def decode_opcode_def Let_def)
  show "branch_target (run_stmt h m 0x08804000 (lower_instruction 0 0x0a201004 False 0) s) = 0x11008010"
    "branch_target (run_stmt h m 0x08804000 (lower_instruction 0 0x0a201004 False 0x08804000) s) = 0x08804010"
    using assms by (simp_all add: lower_instruction_def d valid_def native_lowering_def lower_jump_def emitted_jump_target_def Let_def)
  show "branch_target (exec_instruction h m s (decode_allegrex 0x0a201004) 0x08804000) = 0x08804010"
    by (simp add: exec_instruction_def d native_lowering_def exec_jump_def Let_def)
qed


end
